theory Spec2Isabelle
  imports Complex_Main
begin

section \<open>Tensors\<close>

text \<open>
  Every tensor of \<^verbatim>\<open>models/EncoderDecoder.py\<close> has three axes: the batch-first
  sequences are (N, L, F) or (N, L, H), the recurrent states are (1, N, H). A tensor is its
  shape together with its indexing function; the element type \<open>'a\<close> stands for the
  floating-point numbers, of which only the zero of \<^verbatim>\<open>torch.zeros\<close> is used here.
\<close>

record 'a tensor =
  shape :: "nat \<times> nat \<times> nat"
  elem :: "nat \<Rightarrow> nat \<Rightarrow> nat \<Rightarrow> 'a"

datatype error = AssertionError | AttributeError | TypeError | IndexError | RuntimeError

definition size_at :: "nat \<times> nat \<times> nat \<Rightarrow> nat \<Rightarrow> nat" where
  "size_at s n = (case s of (a, b, c) \<Rightarrow> if n = 0 then a else if n = 1 then b else c)"

text \<open>
  \<^verbatim>\<open>t.permute(p0, p1, p2)\<close>: axis \<open>m\<close> of the result is axis \<open>p\<^sub>m\<close> of \<open>t\<close>. The source
  calls it with the literal permutations (0,2,1), (1,2,0), (2,0,1) and (1,0,2) only.
  \<^verbatim>\<open>.contiguous()\<close> changes the memory layout, not the value, and is the identity here.
\<close>

definition permute :: "nat \<Rightarrow> nat \<Rightarrow> nat \<Rightarrow> 'a tensor \<Rightarrow> 'a tensor" where
  "permute p0 p1 p2 t =
     \<lparr>shape = (size_at (shape t) p0, size_at (shape t) p1, size_at (shape t) p2),
      elem = (\<lambda>i0 i1 i2.
        elem t (if p0 = 0 then i0 else if p1 = 0 then i1 else i2)
               (if p0 = 1 then i0 else if p1 = 1 then i1 else i2)
               (if p0 = 2 then i0 else if p1 = 2 then i1 else i2))\<rparr>"

text \<open>Python's normalisation of a slice bound \<open>i\<close> on an axis of length \<open>n\<close>.\<close>

definition slice_index :: "nat \<Rightarrow> int \<Rightarrow> nat" where
  "slice_index n i = (if i < 0 then nat (max 0 (int n + i)) else min n (nat i))"

text \<open>\<^verbatim>\<open>t[:, start:stop, :]\<close>, a bound \<open>None\<close> being an omitted one.\<close>

definition slice1 :: "int option \<Rightarrow> int option \<Rightarrow> 'a tensor \<Rightarrow> 'a tensor" where
  "slice1 start stop t =
     (case shape t of (a, b, c) \<Rightarrow>
        let lo = (case start of None \<Rightarrow> 0 | Some i \<Rightarrow> slice_index b i);
            hi = (case stop of None \<Rightarrow> b | Some i \<Rightarrow> slice_index b i)
        in \<lparr>shape = (a, hi - lo, c), elem = (\<lambda>i j k. elem t i (lo + j) k)\<rparr>)"

definition zeros :: "nat \<times> nat \<times> nat \<Rightarrow> ('a::zero) tensor" where
  "zeros s = \<lparr>shape = s, elem = (\<lambda>i j k. 0)\<rparr>"

text \<open>\<^verbatim>\<open>torch.zeros(a, b, c)\<close> on Python integers: a negative dimension raises.\<close>

definition torch_zeros :: "int \<Rightarrow> int \<Rightarrow> int \<Rightarrow> error + ('a::zero) tensor" where
  "torch_zeros a b c =
     (if a < 0 \<or> b < 0 \<or> c < 0 then Inl RuntimeError else Inr (zeros (nat a, nat b, nat c)))"

text \<open>\<^verbatim>\<open>torch.cat([x, y], axis=-1)\<close>: the other axes must agree.\<close>

definition torch_cat :: "'a tensor \<Rightarrow> 'a tensor \<Rightarrow> error + 'a tensor" where
  "torch_cat x y =
     (case shape x of (a, b, c) \<Rightarrow> case shape y of (a', b', c') \<Rightarrow>
        if a = a' \<and> b = b'
        then Inr \<lparr>shape = (a, b, c + c'),
                  elem = (\<lambda>i j k. if k < c then elem x i j k else elem y i j (k - c))\<rparr>
        else Inl RuntimeError)"


section \<open>The layers of the framework\<close>

text \<open>
  The recurrent cells, the normalizations, dropout, the linear maps and the attention are
  PyTorch's. A module is the class it was built from, the sizes it was built with and its
  parameters \<open>'w\<close>; what a call computes is a parameter of the development, the record
  \<open>torch\<close> below. A call returns an error where the framework raises. Batch normalization
  updates its running statistics, so its call returns the module's new parameters; dropout
  draws from the global random generator, whose state \<open>'r\<close> is threaded through.
\<close>

datatype rnn_layer = nn_GRU | nn_LSTM

datatype 'w rnn_module =
  RNN (rnn_type: rnn_layer) (input_size: int) (hidden_size: int) (rnn_weights: 'w)

datatype norm_type = BatchNorm1d | LayerNorm

datatype 'w norm_module =
  Norm (norm_type: norm_type) (num_features: int) (norm_weights: 'w)

datatype dropout_module = Dropout (dropout_p: real)

datatype 'w linear_module =
  Linear (in_features: int) (out_features: int) (linear_weights: 'w)

datatype 'w attn_module =
  MultiheadAttention (embed_dim: int) (num_heads: int) (attn_weights: 'w)

record ('a, 'w, 'r) torch =
  GRU_call :: "'w rnn_module \<Rightarrow> 'a tensor \<Rightarrow> 'a tensor option
                \<Rightarrow> error + ('a tensor \<times> 'a tensor)"
  LSTM_call :: "'w rnn_module \<Rightarrow> 'a tensor \<Rightarrow> ('a tensor option \<times> 'a tensor option) option
                \<Rightarrow> error + ('a tensor \<times> 'a tensor \<times> 'a tensor)"
  BatchNorm1d_call :: "int \<Rightarrow> 'w \<Rightarrow> 'a tensor \<Rightarrow> error + ('a tensor \<times> 'w)"
  LayerNorm_call :: "int \<Rightarrow> 'w \<Rightarrow> 'a tensor \<Rightarrow> error + 'a tensor"
  Dropout_call :: "dropout_module \<Rightarrow> 'r \<Rightarrow> 'a tensor \<Rightarrow> 'a tensor \<times> 'r"
  Linear_call :: "'w linear_module \<Rightarrow> 'a tensor \<Rightarrow> error + 'a tensor"
  MultiheadAttention_call :: "'w attn_module \<Rightarrow> 'a tensor \<Rightarrow> 'a tensor \<Rightarrow> 'a tensor
                \<Rightarrow> error + ('a tensor \<times> 'a tensor)"

text \<open>
  Calling an attribute that holds a normalization module, or \<open>None\<close> (which is not
  callable). The module keeps its class and size.
\<close>

fun call_norm :: "('a, 'w, 'r) torch \<Rightarrow> 'w norm_module option \<Rightarrow> 'a tensor
                  \<Rightarrow> error + ('a tensor \<times> 'w norm_module option)" where
  "call_norm nn None x = Inl TypeError"
| "call_norm nn (Some (Norm BatchNorm1d n w)) x =
     (case BatchNorm1d_call nn n w x of
        Inl e \<Rightarrow> Inl e
      | Inr (y, w') \<Rightarrow> Inr (y, Some (Norm BatchNorm1d n w')))"
| "call_norm nn (Some (Norm LayerNorm n w)) x =
     (case LayerNorm_call nn n w x of
        Inl e \<Rightarrow> Inl e
      | Inr y \<Rightarrow> Inr (y, Some (Norm LayerNorm n w)))"

text \<open>\<^verbatim>\<open>type(m) == nn.BatchNorm1d\<close> for an attribute that may be \<open>None\<close>.\<close>

fun is_BatchNorm1d :: "'w norm_module option \<Rightarrow> bool" where
  "is_BatchNorm1d None = False"
| "is_BatchNorm1d (Some m) = (norm_type m = BatchNorm1d)"

text \<open>Sequencing of steps that may raise: the first error ends the computation.\<close>

definition and_then :: "error + 'x \<Rightarrow> ('x \<Rightarrow> error + 'y) \<Rightarrow> error + 'y" where
  "and_then m f = (case m of Inl e \<Rightarrow> Inl e | Inr x \<Rightarrow> f x)"


section \<open>Encoder and Decoder\<close>

text \<open>
  The attributes of the class \<^verbatim>\<open>Encoder\<close>. \<^verbatim>\<open>Decoder\<close> has the same attributes and
  six more, so its record extends this one, and the two private methods that the classes
  share word for word, \<^verbatim>\<open>__apply_normalization\<close> and \<^verbatim>\<open>__apply_dropout\<close>, are
  defined once, on both. \<open>training\<close> is the flag of \<^verbatim>\<open>nn.Module\<close>.
\<close>

record ('a, 'w) Encoder =
  hidden_dim :: int
  n_features :: int
  hidden :: "'a tensor option"
  cell_state :: "'a tensor option"
  dropout :: real
  basic_rnn :: "'w rnn_module"
  rnns :: "'w rnn_module list"
  out_normalization :: "'w norm_module option"
  hidden_normalization :: "'w norm_module option"
  cell_normalization :: "'w norm_module option"
  dropouts :: "dropout_module list"
  training :: bool

record ('a, 'w) Decoder = "('a, 'w) Encoder" +
  attn_keys :: "'a tensor option"
  attn_values :: "'a tensor option"
  attn :: "'w attn_module option"
  linear_keys :: "'w linear_module option"
  linear_values :: "'w linear_module option"
  regression :: "'w linear_module"

text \<open>
  The normalization modules of both constructors (lines 105-114 and 184-193); \<open>init\<close>
  gives the initial parameters of the module stored under an attribute name.
\<close>

definition new_norm :: "(string \<Rightarrow> nat \<Rightarrow> 'w) \<Rightarrow> string \<Rightarrow> string option \<Rightarrow> int
                        \<Rightarrow> 'w norm_module option" where
  "new_norm init name normalization' hidden_dim' =
     (if normalization' = Some ''BatchNormalization''
      then Some (Norm BatchNorm1d hidden_dim' (init name 0))
      else if normalization' = Some ''LayerNormalization''
      then Some (Norm LayerNorm hidden_dim' (init name 0))
      else None)"

definition Encoder_init :: "(string \<Rightarrow> nat \<Rightarrow> 'w) \<Rightarrow> int \<Rightarrow> int \<Rightarrow> rnn_layer \<Rightarrow> int \<Rightarrow> real
                            \<Rightarrow> string option \<Rightarrow> ('a, 'w) Encoder" where
  "Encoder_init init n_features' hidden_dim' rnn_layer' num_rnn_layers dropout' normalization' =
     \<lparr>hidden_dim = hidden_dim',
      n_features = n_features',
      hidden = None,
      cell_state = None,
      dropout = dropout',
      basic_rnn = RNN rnn_layer' n_features' hidden_dim' (init ''basic_rnn'' 0),
      rnns = (if num_rnn_layers > 1
              then map (\<lambda>i. RNN rnn_layer' hidden_dim' hidden_dim' (init ''rnns'' i))
                       [0 ..< nat (num_rnn_layers - 1)]
              else []),
      out_normalization = new_norm init ''out_normalization'' normalization' hidden_dim',
      hidden_normalization = new_norm init ''hidden_normalization'' normalization' hidden_dim',
      cell_normalization =
        (if rnn_layer' = nn_LSTM
         then new_norm init ''cell_normalization'' normalization' hidden_dim'
         else None),
      dropouts = (if num_rnn_layers > 1 \<and> dropout' > 0
                  then map (\<lambda>i. Dropout dropout') [0 ..< nat num_rnn_layers]
                  else []),
      training = True\<rparr>"

definition Decoder_init :: "(string \<Rightarrow> nat \<Rightarrow> 'w) \<Rightarrow> int \<Rightarrow> int \<Rightarrow> rnn_layer \<Rightarrow> int \<Rightarrow> real
                            \<Rightarrow> string option \<Rightarrow> int \<Rightarrow> ('a, 'w) Decoder" where
  "Decoder_init init n_features' hidden_dim' rnn_layer' num_rnn_layers dropout' normalization'
       narrow_attn_heads =
     \<lparr>hidden_dim = hidden_dim',
      n_features = n_features',
      hidden = None,
      cell_state = None,
      dropout = dropout',
      basic_rnn = RNN rnn_layer' n_features' hidden_dim' (init ''basic_rnn'' 0),
      rnns = (if num_rnn_layers > 1
              then map (\<lambda>i. RNN rnn_layer' hidden_dim' hidden_dim' (init ''rnns'' i))
                       [0 ..< nat (num_rnn_layers - 1)]
              else []),
      out_normalization = new_norm init ''out_normalization'' normalization' hidden_dim',
      hidden_normalization = new_norm init ''hidden_normalization'' normalization' hidden_dim',
      cell_normalization =
        (if rnn_layer' = nn_LSTM
         then new_norm init ''cell_normalization'' normalization' hidden_dim'
         else None),
      dropouts = (if num_rnn_layers > 1 \<and> dropout' > 0
                  then map (\<lambda>i. Dropout dropout') [0 ..< nat num_rnn_layers]
                  else []),
      training = True,
      attn_keys = None,
      attn_values = None,
      attn = (if narrow_attn_heads > 0
              then Some (MultiheadAttention hidden_dim' narrow_attn_heads (init ''attn'' 0))
              else None),
      linear_keys = (if narrow_attn_heads > 0
                     then Some (Linear hidden_dim' hidden_dim' (init ''linear_keys'' 0))
                     else None),
      linear_values = (if narrow_attn_heads > 0
                       then Some (Linear hidden_dim' hidden_dim' (init ''linear_values'' 0))
                       else None),
      regression = Linear (if narrow_attn_heads > 0 then hidden_dim' * 2 else hidden_dim')
                          n_features' (init ''regression'' 0)\<rparr>"


text \<open>
  A recurrent call as both \<^verbatim>\<open>forward\<close> methods write it (lines 143-146, 152-155, 247-250,
  256-260): an LSTM takes the pair (hidden, cell state) and assigns both, any other cell
  takes the hidden state and assigns it alone. \<open>state\<close> is \<open>None\<close> for the call
  \<^verbatim>\<open>rnn(X)\<close> and the stored pair for \<^verbatim>\<open>rnn(X, (self.hidden, self.cell_state))\<close> or
  \<^verbatim>\<open>rnn(X, self.hidden)\<close>.
\<close>

definition call_rnn :: "('a, 'w, 'r) torch \<Rightarrow> 'w rnn_module \<Rightarrow> 'a tensor
    \<Rightarrow> ('a tensor option \<times> 'a tensor option) option \<Rightarrow> ('a, 'w, 'z) Encoder_scheme
    \<Rightarrow> error + ('a tensor \<times> ('a, 'w, 'z) Encoder_scheme)" where
  "call_rnn nn rnn x state self =
     (if rnn_type rnn = nn_LSTM
      then and_then (LSTM_call nn rnn x state)
             (\<lambda>(out, h, c). Inr (out, self\<lparr>hidden := Some h, cell_state := Some c\<rparr>))
      else and_then (GRU_call nn rnn x (case state of None \<Rightarrow> None | Some (h, c) \<Rightarrow> h))
             (\<lambda>(out, h). Inr (out, self\<lparr>hidden := Some h\<rparr>)))"

text \<open>
  Lines 119-121 and 223-225, and again 129-131 and 233-235: the stored states are permuted;
  \<^verbatim>\<open>self.hidden.permute\<close> raises when the hidden state is \<open>None\<close>.
\<close>

definition permute_states :: "nat \<Rightarrow> nat \<Rightarrow> nat \<Rightarrow> ('a, 'w, 'z) Encoder_scheme
                              \<Rightarrow> error + ('a, 'w, 'z) Encoder_scheme" where
  "permute_states p0 p1 p2 self =
     (case hidden self of
        None \<Rightarrow> Inl AttributeError
      | Some h \<Rightarrow> Inr (self\<lparr>hidden := Some (permute p0 p1 p2 h),
                            cell_state := map_option (permute p0 p1 p2) (cell_state self)\<rparr>))"

text \<open>
  \<^verbatim>\<open>__apply_normalization\<close>, block by block. Lines 117-121 (221-225): batch
  normalization wants the channels on axis 1.
\<close>

definition permute_in :: "('a, 'w, 'z) Encoder_scheme \<Rightarrow> 'a tensor
    \<Rightarrow> error + ('a tensor \<times> ('a, 'w, 'z) Encoder_scheme)" where
  "permute_in self tensor =
     (if is_BatchNorm1d (out_normalization self)
      then and_then (permute_states 1 2 0 self) (\<lambda>self. Inr (permute 0 2 1 tensor, self))
      else Inr (tensor, self))"

text \<open>Line 122 (226).\<close>

definition normalize_output :: "('a, 'w, 'r) torch \<Rightarrow> ('a, 'w, 'z) Encoder_scheme \<Rightarrow> 'a tensor
    \<Rightarrow> error + ('a tensor \<times> ('a, 'w, 'z) Encoder_scheme)" where
  "normalize_output nn self tensor =
     and_then (call_norm nn (out_normalization self) tensor)
       (\<lambda>(output, m). Inr (output, self\<lparr>out_normalization := m\<rparr>))"

text \<open>Lines 123-124 (227-228).\<close>

definition normalize_hidden :: "('a, 'w, 'r) torch \<Rightarrow> ('a, 'w, 'z) Encoder_scheme
    \<Rightarrow> error + ('a, 'w, 'z) Encoder_scheme" where
  "normalize_hidden nn self =
     (case hidden self of
        None \<Rightarrow> Inr self
      | Some h \<Rightarrow> and_then (call_norm nn (hidden_normalization self) h)
                    (\<lambda>(h', m). Inr (self\<lparr>hidden := Some h', hidden_normalization := m\<rparr>)))"

text \<open>
  Lines 125-126 (229-230): the test reads \<^verbatim>\<open>self.cell_normalization\<close>, the call goes to
  \<^verbatim>\<open>self.out_normalization\<close>.
\<close>

definition normalize_cell_state :: "('a, 'w, 'r) torch \<Rightarrow> ('a, 'w, 'z) Encoder_scheme
    \<Rightarrow> error + ('a, 'w, 'z) Encoder_scheme" where
  "normalize_cell_state nn self =
     (if cell_state self \<noteq> None \<and> cell_normalization self \<noteq> None
      then and_then (call_norm nn (out_normalization self) (the (cell_state self)))
             (\<lambda>(c', m). Inr (self\<lparr>cell_state := Some c', out_normalization := m\<rparr>))
      else Inr self)"

text \<open>Lines 127-131 (231-235).\<close>

definition permute_out :: "('a, 'w, 'z) Encoder_scheme \<Rightarrow> 'a tensor
    \<Rightarrow> error + ('a tensor \<times> ('a, 'w, 'z) Encoder_scheme)" where
  "permute_out self output =
     (if is_BatchNorm1d (out_normalization self)
      then and_then (permute_states 2 0 1 self) (\<lambda>self. Inr (permute 0 2 1 output, self))
      else Inr (output, self))"

definition apply_normalization :: "('a, 'w, 'r) torch \<Rightarrow> ('a, 'w, 'z) Encoder_scheme \<Rightarrow> 'a tensor
    \<Rightarrow> error + ('a tensor \<times> ('a, 'w, 'z) Encoder_scheme)" where
  "apply_normalization nn self tensor =
     and_then (permute_in self tensor)
     (\<lambda>(tensor, self).
     and_then (normalize_output nn self tensor)
     (\<lambda>(output, self).
     and_then (normalize_hidden nn self)
     (\<lambda>self.
     and_then (normalize_cell_state nn self)
     (\<lambda>self. permute_out self output))))"

definition apply_dropout :: "('a, 'w, 'r) torch \<Rightarrow> nat \<Rightarrow> ('a, 'w, 'z) Encoder_scheme \<Rightarrow> 'r
    \<Rightarrow> 'a tensor \<Rightarrow> error + ('a tensor \<times> ('a, 'w, 'z) Encoder_scheme \<times> 'r)" where
  "apply_dropout nn index self rng tensor =
     (if index < length (dropouts self)
      then
        let d = dropouts self ! index;
            (output, rng) = Dropout_call nn d rng tensor;
            (self, rng) = (case hidden self of
                             None \<Rightarrow> (self, rng)
                           | Some h \<Rightarrow> let (h', rng) = Dropout_call nn d rng h
                                       in (self\<lparr>hidden := Some h'\<rparr>, rng));
            (self, rng) = (case cell_state self of
                             None \<Rightarrow> (self, rng)
                           | Some c \<Rightarrow> let (c', rng) = Dropout_call nn d rng c
                                       in (self\<lparr>cell_state := Some c'\<rparr>, rng))
        in Inr (output, self, rng)
      else Inl IndexError)"

text \<open>
  What both \<^verbatim>\<open>forward\<close> methods do after each recurrent call (lines 147-150, 156-159,
  251-254 and 261-264).
\<close>

definition normalize_and_dropout :: "('a, 'w, 'r) torch \<Rightarrow> nat \<Rightarrow> ('a, 'w, 'z) Encoder_scheme \<Rightarrow> 'r
    \<Rightarrow> 'a tensor \<Rightarrow> error + ('a tensor \<times> ('a, 'w, 'z) Encoder_scheme \<times> 'r)" where
  "normalize_and_dropout nn index self rng rnn_out =
     and_then (if out_normalization self \<noteq> None
               then apply_normalization nn self rnn_out
               else Inr (rnn_out, self))
     (\<lambda>(rnn_out, self).
       if length (dropouts self) > 0 \<and> training self
       then apply_dropout nn index self rng rnn_out
       else Inr (rnn_out, self, rng))"

text \<open>
  The loop \<^verbatim>\<open>for i, rnn in enumerate(self.rnns, start=1)\<close> of both \<^verbatim>\<open>forward\<close> methods
  (lines 151-159 and 255-264), over the remaining layers.
\<close>

fun rnn_layers :: "('a, 'w, 'r) torch \<Rightarrow> nat \<Rightarrow> 'w rnn_module list \<Rightarrow> ('a, 'w, 'z) Encoder_scheme
    \<Rightarrow> 'r \<Rightarrow> 'a tensor \<Rightarrow> error + ('a tensor \<times> ('a, 'w, 'z) Encoder_scheme \<times> 'r)" where
  "rnn_layers nn i [] self rng rnn_out = Inr (rnn_out, self, rng)"
| "rnn_layers nn i (rnn # rest) self rng rnn_out =
     (case call_rnn nn rnn rnn_out (Some (hidden self, cell_state self)) self of
        Inl e \<Rightarrow> Inl e
      | Inr (rnn_out, self) \<Rightarrow>
          (case normalize_and_dropout nn i self rng rnn_out of
             Inl e \<Rightarrow> Inl e
           | Inr (rnn_out, self, rng) \<Rightarrow> rnn_layers nn (Suc i) rest self rng rnn_out))"

text \<open>\<^verbatim>\<open>Encoder.forward\<close> returns the pair (rnn_out, self.cell_state).\<close>

definition Encoder_forward :: "('a, 'w, 'r) torch \<Rightarrow> ('a, 'w) Encoder \<Rightarrow> 'r \<Rightarrow> 'a tensor
    \<Rightarrow> error + (('a tensor \<times> 'a tensor option) \<times> ('a, 'w) Encoder \<times> 'r)" where
  "Encoder_forward nn self rng X =
     and_then (call_rnn nn (basic_rnn self) X None self)
     (\<lambda>(rnn_out, self).
     and_then (normalize_and_dropout nn 0 self rng rnn_out)
     (\<lambda>(rnn_out, self, rng).
     and_then (rnn_layers nn 1 (rnns self) self rng rnn_out)
     (\<lambda>(rnn_out, self, rng). Inr ((rnn_out, cell_state self), self, rng))))"

definition init_attn_key_values :: "('a, 'w, 'r) torch \<Rightarrow> ('a, 'w) Decoder \<Rightarrow> 'a tensor
    \<Rightarrow> error + ('a, 'w) Decoder" where
  "init_attn_key_values nn self hidden_seq =
     (case linear_keys self of
        None \<Rightarrow> Inl AttributeError
      | Some lk \<Rightarrow>
          and_then (Linear_call nn lk hidden_seq)
          (\<lambda>k. case linear_values self of
                 None \<Rightarrow> Inl AttributeError
               | Some lv \<Rightarrow>
                   and_then (Linear_call nn lv hidden_seq)
                   (\<lambda>v. Inr (self\<lparr>attn_keys := Some k, attn_values := Some v\<rparr>))))"

definition init_hidden :: "('a::zero, 'w, 'r) torch \<Rightarrow> ('a, 'w) Decoder \<Rightarrow> 'a tensor
    \<Rightarrow> 'a tensor option \<Rightarrow> error + ('a, 'w) Decoder" where
  "init_hidden nn self hidden_seq cell_state' =
     and_then (if attn self \<noteq> None then init_attn_key_values nn self hidden_seq else Inr self)
     (\<lambda>self.
       let hidden_final = slice1 (Some (- 1)) None hidden_seq;
           self = self\<lparr>hidden := Some (permute 1 0 2 hidden_final)\<rparr>;
           cell_state_final = (case cell_state' of
                                 None \<Rightarrow> zeros (shape (the (hidden self)))
                               | Some c \<Rightarrow> c)
       in Inr (self\<lparr>cell_state := Some cell_state_final\<rparr>))"

definition Decoder_forward :: "('a, 'w, 'r) torch \<Rightarrow> ('a, 'w) Decoder \<Rightarrow> 'r \<Rightarrow> 'a tensor
    \<Rightarrow> error + ('a tensor \<times> ('a, 'w) Decoder \<times> 'r)" where
  "Decoder_forward nn self rng X =
     and_then (call_rnn nn (basic_rnn self) X (Some (hidden self, cell_state self)) self)
     (\<lambda>(batch_first_output, self).
     and_then (normalize_and_dropout nn 0 self rng batch_first_output)
     (\<lambda>(batch_first_output, self, rng).
     and_then (rnn_layers nn 1 (rnns self) self rng batch_first_output)
     (\<lambda>(batch_first_output, self, rng).
     and_then (case attn self of
                 None \<Rightarrow> Inr batch_first_output
               | Some a \<Rightarrow>
                   (case (attn_keys self, attn_values self) of
                      (Some k, Some v) \<Rightarrow>
                        and_then (MultiheadAttention_call nn a batch_first_output k v)
                        (\<lambda>(attn_output, attn_output_weights).
                          torch_cat attn_output batch_first_output)
                    | _ \<Rightarrow> Inl TypeError))
     (\<lambda>batch_first_output.
     and_then (Linear_call nn (regression self) batch_first_output)
     (\<lambda>out. Inr (out, self, rng))))))"


section \<open>EncoderDecoder\<close>

record ('a, 'w) EncoderDecoder =
  encoder :: "('a, 'w) Encoder"
  decoder :: "('a, 'w) Decoder"
  input_len :: int
  target_len :: int
  teacher_forcing_prob :: real
  outputs :: "'a tensor option"

definition EncoderDecoder_init :: "('a, 'w) Encoder \<Rightarrow> ('a, 'w) Decoder \<Rightarrow> int \<Rightarrow> int \<Rightarrow> real
    \<Rightarrow> ('a, 'w) EncoderDecoder" where
  "EncoderDecoder_init encoder' decoder' input_len' target_len' teacher_forcing_prob' =
     \<lparr>encoder = encoder', decoder = decoder', input_len = input_len',
      target_len = target_len', teacher_forcing_prob = teacher_forcing_prob',
      outputs = None\<rparr>"

definition init_outputs :: "('a::zero, 'w) EncoderDecoder \<Rightarrow> nat
    \<Rightarrow> error + ('a, 'w) EncoderDecoder" where
  "init_outputs self batch_size =
     and_then (torch_zeros (int batch_size) (target_len self) (n_features (encoder self)))
     (\<lambda>z. Inr (self\<lparr>outputs := Some z\<rparr>))"

definition EncoderDecoder_forward :: "('a::zero, 'w, 'r) torch \<Rightarrow> ('a, 'w) EncoderDecoder \<Rightarrow> 'r
    \<Rightarrow> 'a tensor \<Rightarrow> error + ('a tensor \<times> ('a, 'w) EncoderDecoder \<times> 'r)" where
  "EncoderDecoder_forward nn self rng X =
     (let source_seq = slice1 None (Some (input_len self)) X;
          target_seq = slice1 (Some (input_len self)) None X
      in and_then (init_outputs self (fst (shape X)))
         (\<lambda>self.
         and_then (Encoder_forward nn (encoder self) rng source_seq)
         (\<lambda>((hidden_seq, cell_state'), enc, rng).
         and_then (init_hidden nn (decoder self) hidden_seq cell_state')
         (\<lambda>dec.
         and_then (Decoder_forward nn dec rng source_seq)
         (\<lambda>(output, dec, rng). Inr (output, self\<lparr>encoder := enc, decoder := dec\<rparr>, rng))))))"

text \<open>
  The assertion of line 8 is the one check of the construction; the constructors of the
  framework's modules are taken to succeed. \<open>init_enc\<close> and \<open>init_dec\<close> give the initial
  parameters of the modules of the encoder and of the decoder.
\<close>

definition create_encoder_decoder_model :: "(string \<Rightarrow> nat \<Rightarrow> 'w) \<Rightarrow> (string \<Rightarrow> nat \<Rightarrow> 'w)
    \<Rightarrow> int \<Rightarrow> int \<Rightarrow> rnn_layer \<Rightarrow> int \<Rightarrow> int \<Rightarrow> real \<Rightarrow> real \<Rightarrow> string option \<Rightarrow> int
    \<Rightarrow> error + ('a, 'w) EncoderDecoder" where
  "create_encoder_decoder_model init_enc init_dec n_features' hidden_dim' rnn_layer_module
       rnn_layers' seq_len teacher_forcing dropout' normalization' narrow_attn_heads =
     (if narrow_attn_heads > 0 \<and> hidden_dim' mod narrow_attn_heads \<noteq> 0
      then Inl AssertionError
      else Inr (EncoderDecoder_init
                  (Encoder_init init_enc n_features' hidden_dim' rnn_layer_module rnn_layers'
                     dropout' normalization')
                  (Decoder_init init_dec n_features' hidden_dim' rnn_layer_module rnn_layers'
                     dropout' normalization' narrow_attn_heads)
                  seq_len seq_len teacher_forcing))"


section \<open>What is assumed of the framework\<close>

text \<open>A normalization returns a tensor of the shape of its argument.\<close>

definition norm_keeps_shape :: "('a, 'w, 'r) torch \<Rightarrow> bool" where
  "norm_keeps_shape nn \<longleftrightarrow>
     (\<forall>n w x y w'. BatchNorm1d_call nn n w x = Inr (y, w') \<longrightarrow> shape y = shape x)
   \<and> (\<forall>n w x y. LayerNorm_call nn n w x = Inr y \<longrightarrow> shape y = shape x)"

text \<open>
  A stand-in for the framework, for concrete runs: the recurrent cells, the linear maps and
  the attention check the shapes of their arguments and return zero tensors of the
  documented shapes, the normalizations check the number of channels and return their
  argument, dropout returns its argument.
\<close>

definition zero_torch :: "(int, unit, unit) torch" where
  "zero_torch =
     \<lparr>GRU_call = (\<lambda>m x h0. case shape x of (N, L, F) \<Rightarrow>
          if int F = input_size m
             \<and> (case h0 of None \<Rightarrow> True | Some h \<Rightarrow> shape h = (1, N, nat (hidden_size m)))
          then Inr (zeros (N, L, nat (hidden_size m)), zeros (1, N, nat (hidden_size m)))
          else Inl RuntimeError),
      LSTM_call = (\<lambda>m x st. case shape x of (N, L, F) \<Rightarrow>
          if int F = input_size m
             \<and> (case st of
                  None \<Rightarrow> True
                | Some (Some h, Some c) \<Rightarrow> shape h = (1, N, nat (hidden_size m))
                                          \<and> shape c = (1, N, nat (hidden_size m))
                | Some _ \<Rightarrow> False)
          then Inr (zeros (N, L, nat (hidden_size m)), zeros (1, N, nat (hidden_size m)),
                    zeros (1, N, nat (hidden_size m)))
          else Inl RuntimeError),
      BatchNorm1d_call = (\<lambda>n w x. case shape x of (N, C, L) \<Rightarrow>
          if int C = n then Inr (x, w) else Inl RuntimeError),
      LayerNorm_call = (\<lambda>n w x. case shape x of (A, B, C) \<Rightarrow>
          if int C = n then Inr x else Inl RuntimeError),
      Dropout_call = (\<lambda>d r x. (x, r)),
      Linear_call = (\<lambda>m x. case shape x of (A, B, F) \<Rightarrow>
          if int F = in_features m then Inr (zeros (A, B, nat (out_features m)))
          else Inl RuntimeError),
      MultiheadAttention_call = (\<lambda>m q k v. case shape q of (N, L, E) \<Rightarrow>
          case shape k of (N', S, E') \<Rightarrow>
          if int E = embed_dim m \<and> N' = N \<and> E' = E \<and> shape v = shape k
          then Inr (zeros (N, L, E), zeros (N, L, S))
          else Inl RuntimeError)\<rparr>"

text \<open>An input of shape (4, 10, 2) with pairwise different entries.\<close>

definition example_input :: "int tensor" where
  "example_input = \<lparr>shape = (4, 10, 2), elem = (\<lambda>i j k. int (20 * i + 2 * j + k))\<rparr>"


text \<open>
  A recurrent state of shape (1, 4, 8), a hidden sequence of shape (4, 5, 8), and an
  encoder with batch normalization that holds the state.
\<close>

definition example_state :: "int tensor" where
  "example_state = \<lparr>shape = (1, 4, 8), elem = (\<lambda>i j k. int (8 * j + k))\<rparr>"

definition example_hidden_seq :: "int tensor" where
  "example_hidden_seq = \<lparr>shape = (4, 5, 8), elem = (\<lambda>i j k. int (40 * i + 8 * j + k))\<rparr>"

definition example_lstm_encoder :: "(int, unit) Encoder" where
  "example_lstm_encoder =
     (Encoder_init (\<lambda>a i. ()) 2 8 nn_LSTM 1 0 (Some ''BatchNormalization''))
       \<lparr>hidden := Some example_state, cell_state := Some example_state\<rparr>"


text \<open>A decoder with one GRU layer, no normalization, no dropout and no attention.\<close>

definition example_gru_decoder :: "(int, unit) Decoder" where
  "example_gru_decoder = Decoder_init (\<lambda>a i. ()) 2 8 nn_GRU 1 0 None 0"


section \<open>Relations between the states of a run\<close>

text \<open>
  \<open>keeps_modules s s'\<close>: the object \<open>s'\<close> is \<open>s\<close> up to the stored hidden and cell
  state and the parameters of the output and hidden normalization (the running statistics
  of batch normalization).
\<close>

definition keeps_modules :: "('a, 'w, 'z) Encoder_scheme \<Rightarrow> ('a, 'w, 'z) Encoder_scheme \<Rightarrow> bool" where
  "keeps_modules s s' \<longleftrightarrow>
     basic_rnn s' = basic_rnn s \<and> rnns s' = rnns s \<and> dropouts s' = dropouts s
   \<and> training s' = training s \<and> dropout s' = dropout s \<and> hidden_dim s' = hidden_dim s
   \<and> n_features s' = n_features s \<and> Encoder.more s' = Encoder.more s
   \<and> cell_normalization s' = cell_normalization s
   \<and> map_option norm_type (out_normalization s') = map_option norm_type (out_normalization s)
   \<and> map_option num_features (out_normalization s')
       = map_option num_features (out_normalization s)
   \<and> map_option norm_type (hidden_normalization s')
       = map_option norm_type (hidden_normalization s)
   \<and> map_option num_features (hidden_normalization s')
       = map_option num_features (hidden_normalization s)"

text \<open>
  \<open>keeps_states s s'\<close>: moreover a stored state is \<open>None\<close> in \<open>s'\<close> exactly when it is
  in \<open>s\<close>.
\<close>

definition keeps_states :: "('a, 'w, 'z) Encoder_scheme \<Rightarrow> ('a, 'w, 'z) Encoder_scheme \<Rightarrow> bool" where
  "keeps_states s s' \<longleftrightarrow>
     keeps_modules s s'
   \<and> (hidden s' = None \<longleftrightarrow> hidden s = None)
   \<and> (cell_state s' = None \<longleftrightarrow> cell_state s = None)"


text \<open>
  The model of the end-to-end scenario (two features, eight hidden dimensions, one layer,
  windows of five steps, no normalization, dropout or attention) with GRU cells, and the
  same with LSTM cells.
\<close>

definition example_gru_model :: "(int, unit) EncoderDecoder" where
  "example_gru_model =
     EncoderDecoder_init (Encoder_init (\<lambda>a i. ()) 2 8 nn_GRU 1 0 None)
       (Decoder_init (\<lambda>a i. ()) 2 8 nn_GRU 1 0 None 0) 5 5 0"



section \<open>Relations between two runs\<close>

text \<open>Two frameworks with the same layers, dropout apart.\<close>

definition same_layers :: "('a, 'w, 'r) torch \<Rightarrow> ('a, 'w, 'r) torch \<Rightarrow> bool" where
  "same_layers nn1 nn2 \<longleftrightarrow>
     GRU_call nn1 = GRU_call nn2 \<and> LSTM_call nn1 = LSTM_call nn2
   \<and> BatchNorm1d_call nn1 = BatchNorm1d_call nn2 \<and> LayerNorm_call nn1 = LayerNorm_call nn2
   \<and> Linear_call nn1 = Linear_call nn2
   \<and> MultiheadAttention_call nn1 = MultiheadAttention_call nn2"

text \<open>
  \<open>agree d s1 s2\<close>: the two objects agree on every attribute but \<^verbatim>\<open>dropout\<close>,
  \<^verbatim>\<open>hidden_dim\<close> and \<^verbatim>\<open>n_features\<close>, on \<^verbatim>\<open>cell_normalization\<close> up to the module it
  holds, and on \<^verbatim>\<open>training\<close> unless they have no dropout modules. The flag \<open>d\<close> says
  whether dropout modules are allowed at all.
\<close>

definition agree :: "bool \<Rightarrow> ('a, 'w, 'z) Encoder_scheme \<Rightarrow> ('a, 'w, 'z) Encoder_scheme \<Rightarrow> bool" where
  "agree d s1 s2 \<longleftrightarrow>
     hidden s1 = hidden s2 \<and> cell_state s1 = cell_state s2
   \<and> basic_rnn s1 = basic_rnn s2 \<and> rnns s1 = rnns s2
   \<and> out_normalization s1 = out_normalization s2
   \<and> hidden_normalization s1 = hidden_normalization s2
   \<and> (cell_normalization s1 = None \<longleftrightarrow> cell_normalization s2 = None)
   \<and> dropouts s1 = dropouts s2
   \<and> (if d then training s1 = training s2 else dropouts s1 = [])
   \<and> Encoder.more s1 = Encoder.more s2"

text \<open>The results of two runs: the same output, objects that agree, and with dropout the
  same state of the random generator.\<close>

definition agree_run :: "bool \<Rightarrow> 'x \<times> ('a, 'w, 'z) Encoder_scheme \<times> 'r
    \<Rightarrow> 'x \<times> ('a, 'w, 'z) Encoder_scheme \<times> 'r \<Rightarrow> bool" where
  "agree_run d a b \<longleftrightarrow>
     (case a of (o1, s1, r1) \<Rightarrow> case b of (o2, s2, r2) \<Rightarrow>
        o1 = o2 \<and> agree d s1 s2 \<and> (d \<longrightarrow> r1 = r2))"

text \<open>
  Agreement before a call of \<^verbatim>\<open>Encoder.forward\<close>, which overwrites the hidden state and,
  with an LSTM as first layer, the cell state; and before \<^verbatim>\<open>Decoder.init_hidden\<close>, which
  overwrites both.
\<close>

definition enc_agree :: "bool \<Rightarrow> ('a, 'w) Encoder \<Rightarrow> ('a, 'w) Encoder \<Rightarrow> bool" where
  "enc_agree d e1 e2 \<longleftrightarrow>
     agree d
       (e1\<lparr>hidden := None,
           cell_state := (if rnn_type (basic_rnn e1) = nn_LSTM then None else cell_state e1)\<rparr>)
       (e2\<lparr>hidden := None,
           cell_state := (if rnn_type (basic_rnn e2) = nn_LSTM then None else cell_state e2)\<rparr>)"

definition dec_agree :: "bool \<Rightarrow> ('a, 'w) Decoder \<Rightarrow> ('a, 'w) Decoder \<Rightarrow> bool" where
  "dec_agree d d1 d2 \<longleftrightarrow>
     agree d (d1\<lparr>hidden := None, cell_state := None\<rparr>) (d2\<lparr>hidden := None, cell_state := None\<rparr>)"

definition model_agree :: "bool \<Rightarrow> ('a, 'w) EncoderDecoder \<Rightarrow> ('a, 'w) EncoderDecoder \<Rightarrow> bool" where
  "model_agree d m1 m2 \<longleftrightarrow>
     enc_agree d (encoder m1) (encoder m2) \<and> dec_agree d (decoder m1) (decoder m2)
   \<and> input_len m1 = input_len m2 \<and> target_len m1 = target_len m2
   \<and> n_features (encoder m1) = n_features (encoder m2)"


text \<open>
  A second stand-in for the framework: \<open>zero_torch\<close> with a dropout that zeroes all it is
  given (\<^verbatim>\<open>p = 1\<close>).
\<close>

definition dropping_torch :: "(int, unit, unit) torch" where
  "dropping_torch = zero_torch\<lparr>Dropout_call := (\<lambda>d r x. (zeros (shape x), r))\<rparr>"

text \<open>An LSTM model with layer normalization, two layers and dropout.\<close>

definition example_normalized_model :: "(int, unit) EncoderDecoder" where
  "example_normalized_model =
     EncoderDecoder_init
       (Encoder_init (\<lambda>a i. ()) 2 8 nn_LSTM 2 (1 / 2) (Some ''LayerNormalization''))
       (Decoder_init (\<lambda>a i. ()) 2 8 nn_LSTM 2 (1 / 2) (Some ''LayerNormalization'') 0) 5 5 0"


section \<open>The shapes the framework documents\<close>

text \<open>
  What the forward pass needs of the layers: given arguments of the documented shapes, a
  layer returns, and returns the documented shapes. A recurrent layer wants a batch-first
  input (N, L, input_size) with at least one sequence of at least one step, and initial
  states (1, N, hidden_size) if any. Batch normalization over (N, C, L) wants more than
  one value per channel, which is what it insists on in training mode.
\<close>

definition rnn_contract :: "('a, 'w, 'r) torch \<Rightarrow> bool" where
  "rnn_contract nn \<longleftrightarrow>
     (\<forall>m x h0 N L.
        0 < input_size m \<and> 0 < hidden_size m \<and> 0 < N \<and> 0 < L
        \<and> shape x = (N, L, nat (input_size m))
        \<and> (\<forall>h. h0 = Some h \<longrightarrow> shape h = (1, N, nat (hidden_size m)))
        \<longrightarrow> (\<exists>out hn. GRU_call nn m x h0 = Inr (out, hn)
               \<and> shape out = (N, L, nat (hidden_size m))
               \<and> shape hn = (1, N, nat (hidden_size m))))
   \<and> (\<forall>m x st N L.
        0 < input_size m \<and> 0 < hidden_size m \<and> 0 < N \<and> 0 < L
        \<and> shape x = (N, L, nat (input_size m))
        \<and> (st = None
            \<or> (\<exists>h c. st = Some (Some h, Some c) \<and> shape h = (1, N, nat (hidden_size m))
                     \<and> shape c = (1, N, nat (hidden_size m))))
        \<longrightarrow> (\<exists>out hn cn. LSTM_call nn m x st = Inr (out, hn, cn)
               \<and> shape out = (N, L, nat (hidden_size m))
               \<and> shape hn = (1, N, nat (hidden_size m))
               \<and> shape cn = (1, N, nat (hidden_size m))))"

definition norm_contract :: "('a, 'w, 'r) torch \<Rightarrow> bool" where
  "norm_contract nn \<longleftrightarrow>
     (\<forall>n w x N L.
        0 < n \<and> shape x = (N, nat n, L) \<and> 1 < N * L
        \<longrightarrow> (\<exists>y w'. BatchNorm1d_call nn n w x = Inr (y, w') \<and> shape y = shape x))
   \<and> (\<forall>n w x A B.
        0 < n \<and> shape x = (A, B, nat n) \<and> 0 < A \<and> 0 < B
        \<longrightarrow> (\<exists>y. LayerNorm_call nn n w x = Inr y \<and> shape y = shape x))"

definition dropout_contract :: "('a, 'w, 'r) torch \<Rightarrow> bool" where
  "dropout_contract nn \<longleftrightarrow> (\<forall>d r x. shape (fst (Dropout_call nn d r x)) = shape x)"

definition linear_contract :: "('a, 'w, 'r) torch \<Rightarrow> bool" where
  "linear_contract nn \<longleftrightarrow>
     (\<forall>m x A B.
        0 < in_features m \<and> 0 < out_features m \<and> shape x = (A, B, nat (in_features m))
        \<longrightarrow> (\<exists>y. Linear_call nn m x = Inr y \<and> shape y = (A, B, nat (out_features m))))"

definition attn_contract :: "('a, 'w, 'r) torch \<Rightarrow> bool" where
  "attn_contract nn \<longleftrightarrow>
     (\<forall>m q k v N L S.
        0 < embed_dim m \<and> 0 < num_heads m \<and> embed_dim m mod num_heads m = 0
        \<and> 0 < N \<and> 0 < L \<and> 0 < S
        \<and> shape q = (N, L, nat (embed_dim m)) \<and> shape k = (N, S, nat (embed_dim m))
        \<and> shape v = (N, S, nat (embed_dim m))
        \<longrightarrow> (\<exists>out wts. MultiheadAttention_call nn m q k v = Inr (out, wts)
               \<and> shape out = (N, L, nat (embed_dim m))))"

definition torch_contract :: "('a, 'w, 'r) torch \<Rightarrow> bool" where
  "torch_contract nn \<longleftrightarrow>
     rnn_contract nn \<and> norm_contract nn \<and> dropout_contract nn \<and> linear_contract nn
   \<and> attn_contract nn"

text \<open>The stored states have the shape \<open>sh\<close>, as far as they are set; the hidden state is.\<close>

definition state_shape :: "nat \<times> nat \<times> nat \<Rightarrow> ('a, 'w, 'z) Encoder_scheme \<Rightarrow> bool" where
  "state_shape sh s \<longleftrightarrow>
     (\<exists>h. hidden s = Some h \<and> shape h = sh) \<and> (\<forall>c. cell_state s = Some c \<longrightarrow> shape c = sh)"

text \<open>
  The modules of a stack of recurrent layers over \<open>H\<close> hidden dimensions, as both
  constructors build them: the stacked layers map \<open>H\<close> to \<open>H\<close>, the normalizations are
  over \<open>H\<close> features and of one class, and there is a dropout module for each layer if
  there is one at all.
\<close>

definition stack_ok :: "int \<Rightarrow> ('a, 'w, 'z) Encoder_scheme \<Rightarrow> bool" where
  "stack_ok H s \<longleftrightarrow>
     0 < H
   \<and> (\<forall>m\<in>set (rnns s). input_size m = H \<and> hidden_size m = H
                          \<and> rnn_type m = rnn_type (basic_rnn s))
   \<and> (\<forall>m. out_normalization s = Some m \<longrightarrow> num_features m = H)
   \<and> (\<forall>m. hidden_normalization s = Some m \<longrightarrow> num_features m = H)
   \<and> map_option norm_type (hidden_normalization s) = map_option norm_type (out_normalization s)
   \<and> (dropouts s = [] \<or> length (dropouts s) = Suc (length (rnns s)))"


text \<open>A tensor of shape \<open>sh\<close> can go through a normalization of class \<open>ty\<close> over \<open>H\<close> features.\<close>

definition norm_fits :: "int \<Rightarrow> norm_type \<Rightarrow> nat \<times> nat \<times> nat \<Rightarrow> bool" where
  "norm_fits H ty sh \<longleftrightarrow>
     (if ty = BatchNorm1d then \<exists>N L. sh = (N, nat H, L) \<and> 1 < N * L
      else \<exists>A B. sh = (A, B, nat H) \<and> 0 < A \<and> 0 < B)"


section \<open>Basic facts\<close>

lemma and_then_Inl [simp]: "and_then (Inl e) f = Inl e"
  by (simp add: and_then_def)

lemma and_then_Inr [simp]: "and_then (Inr x) f = f x"
  by (simp add: and_then_def)

lemma and_then_eq_Inr: "and_then m f = Inr y \<longleftrightarrow> (\<exists>x. m = Inr x \<and> f x = Inr y)"
  by (cases m) simp_all

lemma shape_permute [simp]:
  "shape (permute p0 p1 p2 t) = (size_at (shape t) p0, size_at (shape t) p1, size_at (shape t) p2)"
  by (simp add: permute_def)

lemma size_at_simps [simp]:
  "size_at (a, b, c) 0 = a" "size_at (a, b, c) (Suc 0) = b" "size_at (a, b, c) 2 = c"
  by (simp_all add: size_at_def)

lemma shape_zeros [simp]: "shape (zeros s) = s"
  by (simp add: zeros_def)


lemma permute_021_021: "permute 0 2 1 (permute 0 2 1 t) = t"
  by (cases "shape t") (simp add: permute_def size_at_def)

lemma permute_201_120: "permute 2 0 1 (permute 1 2 0 t) = t"
  by (cases "shape t") (simp add: permute_def size_at_def)

lemma permute_021_021_Suc [simp]: "permute 0 2 (Suc 0) (permute 0 2 (Suc 0) t) = t"
  using permute_021_021 [of t] by simp

lemma permute_201_120_Suc [simp]: "permute 2 0 (Suc 0) (permute (Suc 0) 2 0 t) = t"
  using permute_201_120 [of t] by simp

lemma size_at_all [simp]: "(size_at s 0, size_at s (Suc 0), size_at s 2) = s"
  by (cases s) (simp add: size_at_def split: prod.splits)

lemma shape_back_021: "shape y = shape (permute 0 2 1 t) \<Longrightarrow> shape (permute 0 2 1 y) = shape t"
  by (cases "shape t") simp

lemma shape_back_201: "shape y = shape (permute 1 2 0 t) \<Longrightarrow> shape (permute 2 0 1 y) = shape t"
  by (cases "shape t") simp

lemma call_norm_Inr:
  assumes "call_norm nn m x = Inr (y, m')"
  shows "map_option norm_type m' = map_option norm_type m
       \<and> map_option num_features m' = map_option num_features m \<and> m \<noteq> None \<and> m' \<noteq> None"
  using assms by (induction nn m x rule: call_norm.induct) (auto split: sum.splits)

lemma call_norm_is_BatchNorm1d:
  "call_norm nn m x = Inr (y, m') \<Longrightarrow> is_BatchNorm1d m' = is_BatchNorm1d m"
  by (induction nn m x rule: call_norm.induct) (auto split: sum.splits)

lemma call_norm_shape:
  assumes "norm_keeps_shape nn" and "call_norm nn m x = Inr (y, m')"
  shows "shape y = shape x"
proof -
  from assms(1) have bn: "\<And>n w x y w'. BatchNorm1d_call nn n w x = Inr (y, w') \<Longrightarrow> shape y = shape x"
    and ln: "\<And>n w x y. LayerNorm_call nn n w x = Inr y \<Longrightarrow> shape y = shape x"
    unfolding norm_keeps_shape_def by blast+
  from assms(2) show ?thesis
    by (cases "(nn, m, x)" rule: call_norm.cases) (auto split: sum.splits dest: bn ln)
qed

text \<open>What a successful run of each block of \<^verbatim>\<open>__apply_normalization\<close> did.\<close>

lemma permute_in_Inr:
  assumes "permute_in self t = Inr (t1, s1)"
  shows "if is_BatchNorm1d (out_normalization self)
         then (\<exists>h. hidden self = Some h \<and> t1 = permute 0 2 1 t
                 \<and> s1 = self\<lparr>hidden := Some (permute 1 2 0 h),
                              cell_state := map_option (permute 1 2 0) (cell_state self)\<rparr>)
         else t1 = t \<and> s1 = self"
  using assms by (auto simp: permute_in_def permute_states_def split: option.splits if_splits)

lemma permute_out_Inr:
  assumes "permute_out self y = Inr (out, s1)"
  shows "if is_BatchNorm1d (out_normalization self)
         then (\<exists>h. hidden self = Some h \<and> out = permute 0 2 1 y
                 \<and> s1 = self\<lparr>hidden := Some (permute 2 0 1 h),
                              cell_state := map_option (permute 2 0 1) (cell_state self)\<rparr>)
         else out = y \<and> s1 = self"
  using assms by (auto simp: permute_out_def permute_states_def split: option.splits if_splits)

lemma normalize_output_Inr:
  assumes "normalize_output nn self t = Inr (y, s1)"
  shows "\<exists>m. call_norm nn (out_normalization self) t = Inr (y, m) \<and> s1 = self\<lparr>out_normalization := m\<rparr>"
  using assms by (auto simp: normalize_output_def and_then_eq_Inr)

lemma normalize_hidden_Inr:
  assumes "normalize_hidden nn self = Inr s1"
  shows "case hidden self of None \<Rightarrow> s1 = self
         | Some h \<Rightarrow> (\<exists>h' m. call_norm nn (hidden_normalization self) h = Inr (h', m)
                        \<and> s1 = self\<lparr>hidden := Some h', hidden_normalization := m\<rparr>)"
  using assms by (auto simp: normalize_hidden_def and_then_eq_Inr split: option.splits)

lemma normalize_cell_state_Inr:
  assumes "normalize_cell_state nn self = Inr s1"
  shows "if cell_state self \<noteq> None \<and> cell_normalization self \<noteq> None
         then (\<exists>c c' m. cell_state self = Some c \<and> call_norm nn (out_normalization self) c = Inr (c', m)
                  \<and> s1 = self\<lparr>cell_state := Some c', out_normalization := m\<rparr>)
         else s1 = self"
  using assms by (auto simp: normalize_cell_state_def and_then_eq_Inr split: if_splits)

lemma apply_normalization_Inr:
  assumes "apply_normalization nn self t = Inr (out, s5)"
  obtains t1 s1 y s2 s3 s4 where
    "permute_in self t = Inr (t1, s1)"
    "normalize_output nn s1 t1 = Inr (y, s2)"
    "normalize_hidden nn s2 = Inr s3"
    "normalize_cell_state nn s3 = Inr s4"
    "permute_out s4 y = Inr (out, s5)"
  using assms by (auto simp: apply_normalization_def and_then_eq_Inr)



section \<open>Construction\<close>

text \<open>
  C7. With \<^verbatim>\<open>num_rnn_layers = 3\<close> the constructors of \<^verbatim>\<open>Encoder\<close> and of \<^verbatim>\<open>Decoder\<close> put
  exactly two recurrent layers into \<^verbatim>\<open>self.rnns\<close>, beside the first-layer cell
  \<^verbatim>\<open>self.basic_rnn\<close>. For every \<open>n\<close> the list has \<open>nat (n - 1)\<close> elements, which is
  \<open>n - 1\<close> from \<open>n = 1\<close> on.
\<close>

theorem stacked_rnn_layers:
  "length (rnns (Encoder_init init F H k 3 p nz)) = 2
   \<and> length (rnns (Decoder_init init F H k 3 p nz heads)) = 2
   \<and> length (rnns (Encoder_init init F H k n p nz)) = nat (n - 1)
   \<and> length (rnns (Decoder_init init F H k n p nz heads)) = nat (n - 1)"
  by (simp add: Encoder_init_def Decoder_init_def)




section \<open>Normalization\<close>

lemma norm_keeps_shape_zero_torch: "norm_keeps_shape zero_torch"
  by (auto simp: norm_keeps_shape_def zero_torch_def split: prod.splits if_splits)

lemma example_normalization_run:
  "apply_normalization zero_torch example_lstm_encoder example_hidden_seq 
    = Inr (example_hidden_seq, example_lstm_encoder)"
  by (simp add: apply_normalization_def permute_in_def permute_out_def normalize_output_def
      normalize_hidden_def normalize_cell_state_def permute_states_def
      example_lstm_encoder_def Encoder_init_def new_norm_def zero_torch_def
      example_state_def example_hidden_seq_def permute_def size_at_def)


text \<open>
  C6. On the batch-normalization path of \<^verbatim>\<open>__apply_normalization\<close> (of \<^verbatim>\<open>Encoder\<close>
  and of \<^verbatim>\<open>Decoder\<close>) what is permuted before the normalization is permuted back after
  it: \<^verbatim>\<open>permute(0,2,1)\<close> undoes itself and \<^verbatim>\<open>permute(2,0,1)\<close> undoes
  \<^verbatim>\<open>permute(1,2,0)\<close>; the output is the normalized permuted tensor, permuted back, and
  so are the hidden state and the cell state (which is returned unchanged when it is not
  normalized). With a normalization that keeps the shape of its argument, the three shapes
  on return are the shapes on entry.
\<close>

theorem batch_norm_restores_axes:
  assumes bn: "is_BatchNorm1d (out_normalization self)"
      and run: "apply_normalization nn self tensor = Inr (output, self')"
  shows "permute 0 2 1 (permute 0 2 1 x) = x
       \<and> permute 2 0 1 (permute 1 2 0 x) = x
       \<and> (\<exists>y m h hn m'.
             call_norm nn (out_normalization self) (permute 0 2 1 tensor) = Inr (y, m)
           \<and> output = permute 0 2 1 y
           \<and> hidden self = Some h
           \<and> call_norm nn (hidden_normalization self) (permute 1 2 0 h) = Inr (hn, m')
           \<and> hidden self' = Some (permute 2 0 1 hn)
           \<and> (case cell_state self of
                 None \<Rightarrow> cell_state self' = None
               | Some c \<Rightarrow>
                   if cell_normalization self = None then cell_state self' = Some c
                   else (\<exists>cn m''. call_norm nn m (permute 1 2 0 c) = Inr (cn, m'')
                                   \<and> cell_state self' = Some (permute 2 0 1 cn))))
       \<and> (norm_keeps_shape nn \<longrightarrow>
             shape output = shape tensor
           \<and> map_option shape (hidden self') = map_option shape (hidden self)
           \<and> map_option shape (cell_state self') = map_option shape (cell_state self))"
proof -
  from run obtain t1 s1 y s2 s3 s4 where
    st1: "permute_in self tensor = Inr (t1, s1)" and
    st2: "normalize_output nn s1 t1 = Inr (y, s2)" and
    st3: "normalize_hidden nn s2 = Inr s3" and
    st4: "normalize_cell_state nn s3 = Inr s4" and
    st5: "permute_out s4 y = Inr (output, self')"
    by (rule apply_normalization_Inr)
  from permute_in_Inr[OF st1] bn obtain h where
    h: "hidden self = Some h" and t1: "t1 = permute 0 2 1 tensor" and
    s1: "s1 = self\<lparr>hidden := Some (permute 1 2 0 h),
                   cell_state := map_option (permute 1 2 0) (cell_state self)\<rparr>"
    by auto
  from normalize_output_Inr[OF st2] obtain m where
    m: "call_norm nn (out_normalization s1) t1 = Inr (y, m)" and
    s2: "s2 = s1\<lparr>out_normalization := m\<rparr>"
    by auto
  from normalize_hidden_Inr[OF st3] s2 s1 obtain hn m' where
    hn: "call_norm nn (hidden_normalization s2) (permute 1 2 0 h) = Inr (hn, m')" and
    s3: "s3 = s2\<lparr>hidden := Some hn, hidden_normalization := m'\<rparr>"
    by auto
  have bn_m: "is_BatchNorm1d m"
    using call_norm_is_BatchNorm1d[OF m] bn s1 by simp
  have cell3: "cell_state s3 = map_option (permute 1 2 0) (cell_state self)"
    and cn3: "cell_normalization s3 = cell_normalization self"
    and on3: "out_normalization s3 = m"
    by (simp_all add: s3 s2 s1)
  have hid4: "hidden s4 = Some hn"
    using normalize_cell_state_Inr[OF st4] by (auto simp: s3 split: if_splits)
  have bn4: "is_BatchNorm1d (out_normalization s4)"
    using normalize_cell_state_Inr[OF st4] bn_m on3
    by (auto split: if_splits dest: call_norm_is_BatchNorm1d)
  from permute_out_Inr[OF st5] bn4 hid4 have
    out: "output = permute 0 2 1 y" and
    s5: "self' = s4\<lparr>hidden := Some (permute 2 0 1 hn),
                     cell_state := map_option (permute 2 0 1) (cell_state s4)\<rparr>"
    by auto
  have cell: "case cell_state self of
                 None \<Rightarrow> cell_state self' = None
               | Some c \<Rightarrow>
                   if cell_normalization self = None then cell_state self' = Some c
                   else (\<exists>cn m''. call_norm nn m (permute 1 2 0 c) = Inr (cn, m'')
                                   \<and> cell_state self' = Some (permute 2 0 1 cn))"
    using normalize_cell_state_Inr[OF st4] cell3 cn3 on3
    by (auto simp: s5 permute_201_120 split: option.splits if_splits)
  have m0: "call_norm nn (out_normalization self) (permute 0 2 1 tensor) = Inr (y, m)"
    using m by (simp add: s1 t1)
  have hn0: "call_norm nn (hidden_normalization self) (permute 1 2 0 h) = Inr (hn, m')"
    using hn by (simp add: s2 s1)
  have hid: "hidden self' = Some (permute 2 0 1 hn)"
    by (simp add: s5)
  have shapes: "shape output = shape tensor
           \<and> map_option shape (hidden self') = map_option shape (hidden self)
           \<and> map_option shape (cell_state self') = map_option shape (cell_state self)"
    if keep: "norm_keeps_shape nn"
  proof -
    have "shape output = shape tensor"
      using call_norm_shape[OF keep m0] out by (simp add: shape_back_021)
    moreover have "map_option shape (hidden self') = map_option shape (hidden self)"
      using call_norm_shape[OF keep hn0] by (simp add: hid h shape_back_201)
    moreover have "map_option shape (cell_state self') = map_option shape (cell_state self)"
      using cell by (auto split: option.splits if_splits
          dest!: call_norm_shape[OF keep] simp: shape_back_201)
    ultimately show ?thesis by blast
  qed
  show ?thesis
    using m0 out h hn0 hid cell shapes
    by (simp add: permute_021_021 permute_201_120)
qed


theorem batch_norm_restores_axes_witness:
  "is_BatchNorm1d (out_normalization example_lstm_encoder)
   \<and> apply_normalization zero_torch example_lstm_encoder example_hidden_seq
       = Inr (example_hidden_seq, example_lstm_encoder)
   \<and> norm_keeps_shape zero_torch
   \<and> (\<exists>y m. call_norm zero_torch (out_normalization example_lstm_encoder)
                (permute 0 2 1 example_hidden_seq) = Inr (y, m)
            \<and> example_hidden_seq = permute 0 2 1 y)"
proof -
  have bn: "is_BatchNorm1d (out_normalization example_lstm_encoder)"
    by (simp add: example_lstm_encoder_def Encoder_init_def new_norm_def)
  note run = example_normalization_run
  from batch_norm_restores_axes [OF bn run, of example_hidden_seq]
  show ?thesis
    using bn run norm_keeps_shape_zero_torch by blast
qed

section \<open>Seeding the decoder\<close>

lemma last_timestep:
  assumes "shape hs = (N, L, H)" and "0 < L"
  shows "permute 1 0 2 (slice1 (Some (- 1)) None hs)
         = \<lparr>shape = (1, N, H), elem = (\<lambda>i j k. elem hs j (L - 1 + i) k)\<rparr>"
  using assms
  by (auto simp: permute_def slice1_def slice_index_def size_at_def nat_diff_distrib)

lemma init_hidden_Inr:
  assumes "init_hidden nn self hidden_seq cs = Inr self'"
  shows "hidden self' = Some (permute 1 0 2 (slice1 (Some (- 1)) None hidden_seq))
       \<and> cell_state self' = Some (case cs of
             None \<Rightarrow> zeros (shape (permute 1 0 2 (slice1 (Some (- 1)) None hidden_seq)))
           | Some c \<Rightarrow> c)"
  using assms by (cases cs) (auto simp: init_hidden_def and_then_eq_Inr Let_def)

text \<open>
  C8. For an encoder hidden sequence of shape (N, L, H) with at least one timestep,
  \<^verbatim>\<open>Decoder.init_hidden\<close> sets the hidden state of the decoder to the last timestep
  \<^verbatim>\<open>hidden_seq[:, -1:]\<close> in the recurrent layout (1, N, H). A cell state that is given is
  stored as it is; without one the cell state is the zero tensor of shape (1, N, H).
  Without attention the call cannot fail.
\<close>

theorem init_hidden_seeds_decoder:
  assumes shp: "shape hidden_seq = (N, L, H)" and len: "0 < L"
  shows "(attn self = None \<longrightarrow> (\<exists>self'. init_hidden nn self hidden_seq cs = Inr self'))
       \<and> (\<forall>self'. init_hidden nn self hidden_seq cs = Inr self' \<longrightarrow>
            (\<exists>h. hidden self' = Some h
                \<and> h = permute 1 0 2 (slice1 (Some (- 1)) None hidden_seq)
                \<and> shape h = (1, N, H)
                \<and> (\<forall>n k. elem h 0 n k = elem hidden_seq n (L - 1) k))
          \<and> cell_state self' = Some (case cs of None \<Rightarrow> zeros (1, N, H) | Some c \<Rightarrow> c))"
proof -
  note last = last_timestep [OF shp len]
  have ok: "\<exists>self'. init_hidden nn self hidden_seq cs = Inr self'" if "attn self = None"
    using that by (simp add: init_hidden_def Let_def)
  have post: "(\<exists>h. hidden self' = Some h
                \<and> h = permute 1 0 2 (slice1 (Some (- 1)) None hidden_seq)
                \<and> shape h = (1, N, H)
                \<and> (\<forall>n k. elem h 0 n k = elem hidden_seq n (L - 1) k))
          \<and> cell_state self' = Some (case cs of None \<Rightarrow> zeros (1, N, H) | Some c \<Rightarrow> c)"
    if run: "init_hidden nn self hidden_seq cs = Inr self'" for self'
  proof -
    from init_hidden_Inr [OF run] have
      h: "hidden self' = Some (permute 1 0 2 (slice1 (Some (- 1)) None hidden_seq))" and
      c: "cell_state self' = Some (case cs of
             None \<Rightarrow> zeros (shape (permute 1 0 2 (slice1 (Some (- 1)) None hidden_seq)))
           | Some c \<Rightarrow> c)"
      by blast+
    have "cell_state self' = Some (case cs of None \<Rightarrow> zeros (1, N, H) | Some c \<Rightarrow> c)"
      unfolding c last by (cases cs) simp_all
    moreover have "shape (permute 1 0 2 (slice1 (Some (- 1)) None hidden_seq)) = (1, N, H)"
      unfolding last by simp
    moreover have "elem (permute 1 0 2 (slice1 (Some (- 1)) None hidden_seq)) 0 n k
                   = elem hidden_seq n (L - 1) k" for n k
      unfolding last by simp
    ultimately show ?thesis
      using h by blast
  qed
  from ok post show ?thesis by blast
qed

theorem init_hidden_seeds_decoder_witness:
  "shape example_hidden_seq = (4, 5, 8) \<and> (0::nat) < 5 \<and> attn example_gru_decoder = None
   \<and> (\<exists>self'. init_hidden zero_torch example_gru_decoder example_hidden_seq None = Inr self'
         \<and> cell_state self' = Some (zeros (1, 4, 8))
         \<and> (\<exists>h. hidden self' = Some h \<and> elem h 0 3 7 = 159))"
proof -
  have shp: "shape example_hidden_seq = (4, 5, 8)"
    by (simp add: example_hidden_seq_def)
  have len: "(0::nat) < 5" by simp
  have at: "attn example_gru_decoder = None"
    by (simp add: example_gru_decoder_def Decoder_init_def)
  have el: "elem example_hidden_seq 3 (5 - 1) 7 = 159"
    by (simp add: example_hidden_seq_def)
  from init_hidden_seeds_decoder [OF shp len, of example_gru_decoder zero_torch None] at
  obtain self' where run: "init_hidden zero_torch example_gru_decoder example_hidden_seq None = Inr self'"
    by blast
  from init_hidden_seeds_decoder [OF shp len, of example_gru_decoder zero_torch None] run
  obtain h where "hidden self' = Some h" "elem h 0 3 7 = elem example_hidden_seq 3 (5 - 1) 7"
    "cell_state self' = Some (zeros (1, 4, 8))"
    by fastforce
  with run el shp at show ?thesis
    by auto
qed

section \<open>What a run keeps\<close>

lemma keeps_modules_refl [simp]: "keeps_modules s s"
  by (simp add: keeps_modules_def)

lemma keeps_modules_trans [trans]: "keeps_modules s t \<Longrightarrow> keeps_modules t u \<Longrightarrow> keeps_modules s u"
  by (simp add: keeps_modules_def)

lemma keeps_states_refl [simp]: "keeps_states s s"
  by (simp add: keeps_states_def)

lemma keeps_states_trans [trans]: "keeps_states s t \<Longrightarrow> keeps_states t u \<Longrightarrow> keeps_states s u"
  by (auto simp: keeps_states_def intro: keeps_modules_trans)

lemma call_rnn_Inr:
  assumes "call_rnn nn rnn x st s = Inr (out, s')"
  shows "if rnn_type rnn = nn_LSTM
         then (\<exists>h c. LSTM_call nn rnn x st = Inr (out, h, c)
                 \<and> s' = s\<lparr>hidden := Some h, cell_state := Some c\<rparr>)
         else (\<exists>h. GRU_call nn rnn x (case st of None \<Rightarrow> None | Some (h, c) \<Rightarrow> h) = Inr (out, h)
                 \<and> s' = s\<lparr>hidden := Some h\<rparr>)"
  using assms by (auto simp: call_rnn_def and_then_eq_Inr split: if_splits)

lemma call_rnn_keeps:
  assumes "call_rnn nn rnn x st s = Inr (out, s')"
  shows "keeps_modules s s' \<and> hidden s' \<noteq> None
       \<and> (if rnn_type rnn = nn_LSTM then cell_state s' \<noteq> None else cell_state s' = cell_state s)"
  using call_rnn_Inr [OF assms] by (auto simp: keeps_modules_def split: if_splits)

lemma permute_in_keeps: "permute_in s t = Inr (t1, s1) \<Longrightarrow> keeps_states s s1 \<and> out_normalization s1 = out_normalization s \<and> hidden_normalization s1 = hidden_normalization s"
  by (drule permute_in_Inr) (auto simp: keeps_states_def keeps_modules_def split: if_splits)

lemma permute_out_keeps: "permute_out s t = Inr (t1, s1) \<Longrightarrow> keeps_states s s1 \<and> out_normalization s1 = out_normalization s \<and> hidden_normalization s1 = hidden_normalization s"
  by (drule permute_out_Inr) (auto simp: keeps_states_def keeps_modules_def split: if_splits)

lemma normalize_output_keeps: "normalize_output nn s t = Inr (y, s1) \<Longrightarrow> keeps_states s s1"
  by (drule normalize_output_Inr)
    (auto simp: keeps_states_def keeps_modules_def dest: call_norm_Inr)

lemma normalize_hidden_keeps: "normalize_hidden nn s = Inr s1 \<Longrightarrow> keeps_states s s1"
  by (drule normalize_hidden_Inr)
    (auto simp: keeps_states_def keeps_modules_def dest: call_norm_Inr split: option.splits)

lemma normalize_cell_state_keeps: "normalize_cell_state nn s = Inr s1 \<Longrightarrow> keeps_states s s1"
  by (drule normalize_cell_state_Inr)
    (auto simp: keeps_states_def keeps_modules_def dest: call_norm_Inr split: if_splits)

lemma apply_normalization_keeps:
  assumes "apply_normalization nn s t = Inr (out, s')"
  shows "keeps_states s s'"
proof -
  from assms obtain t1 s1 y s2 s3 s4 where
    st: "permute_in s t = Inr (t1, s1)"
    "normalize_output nn s1 t1 = Inr (y, s2)"
    "normalize_hidden nn s2 = Inr s3"
    "normalize_cell_state nn s3 = Inr s4"
    "permute_out s4 y = Inr (out, s')"
    by (rule apply_normalization_Inr)
  have "keeps_states s s1" using st(1) by (simp add: permute_in_keeps)
  also have "keeps_states s1 s2" using st(2) by (rule normalize_output_keeps)
  also have "keeps_states s2 s3" using st(3) by (rule normalize_hidden_keeps)
  also have "keeps_states s3 s4" using st(4) by (rule normalize_cell_state_keeps)
  also have "keeps_states s4 s'" using st(5) by (simp add: permute_out_keeps)
  finally show ?thesis .
qed

lemma apply_dropout_keeps:
  assumes "apply_dropout nn i s r t = Inr (out, s', r')"
  shows "keeps_states s s' \<and> out_normalization s' = out_normalization s
       \<and> hidden_normalization s' = hidden_normalization s \<and> dropouts s \<noteq> []"
  using assms
  by (auto simp: apply_dropout_def Let_def keeps_states_def keeps_modules_def
      split: if_splits prod.splits option.splits)

lemma normalize_and_dropout_keeps:
  assumes "normalize_and_dropout nn i s r t = Inr (out, s', r')"
  shows "keeps_states s s'"
  using assms
  by (auto simp: normalize_and_dropout_def and_then_eq_Inr split: if_splits
      dest!: apply_normalization_keeps apply_dropout_keeps intro: keeps_states_trans)

lemma normalize_and_dropout_plain:
  assumes "out_normalization s = None" and "dropouts s = []"
  shows "normalize_and_dropout nn i s r t = Inr (t, s, r)"
  using assms by (simp add: normalize_and_dropout_def)

section \<open>The loop and the forward methods\<close>

lemma rnn_layers_keeps:
  assumes "rnn_layers nn i rs s r t = Inr (out, s', r')"
  shows "keeps_modules s s'
       \<and> (hidden s \<noteq> None \<longrightarrow> hidden s' \<noteq> None)
       \<and> (cell_state s \<noteq> None \<longrightarrow> cell_state s' \<noteq> None)
       \<and> ((\<forall>m\<in>set rs. rnn_type m \<noteq> nn_LSTM) \<longrightarrow> (cell_state s' = None \<longleftrightarrow> cell_state s = None))"
  using assms
proof (induction rs arbitrary: i s r t)
  case Nil
  then show ?case by simp
next
  case (Cons m rs)
  from Cons.prems obtain t1 s1 t2 s2 r2 where
    c: "call_rnn nn m t (Some (hidden s, cell_state s)) s = Inr (t1, s1)" and
    n: "normalize_and_dropout nn i s1 r t1 = Inr (t2, s2, r2)" and
    rest: "rnn_layers nn (Suc i) rs s2 r2 t2 = Inr (out, s', r')"
    by (auto split: sum.splits)
  note a = call_rnn_keeps [OF c]
  note b = normalize_and_dropout_keeps [OF n]
  note ih = Cons.IH [OF rest]
  have km: "keeps_modules s s'"
    using a b ih by (blast intro: keeps_modules_trans dest: keeps_states_def [THEN iffD1])
  have h: "hidden s' \<noteq> None"
    using a b ih by (simp add: keeps_states_def)
  have c1: "cell_state s \<noteq> None \<longrightarrow> cell_state s' \<noteq> None"
    using a b ih by (auto simp: keeps_states_def split: if_splits)
  have c2: "(\<forall>m\<in>set (m # rs). rnn_type m \<noteq> nn_LSTM) \<longrightarrow> (cell_state s' = None \<longleftrightarrow> cell_state s = None)"
    using a b ih by (auto simp: keeps_states_def split: if_splits)
  from km h c1 c2 show ?case by blast
qed

lemma Encoder_forward_Inr:
  assumes "Encoder_forward nn e r X = Inr ((out, c), e', r')"
  obtains t1 s1 t2 s2 r2 where
    "call_rnn nn (basic_rnn e) X None e = Inr (t1, s1)"
    "normalize_and_dropout nn 0 s1 r t1 = Inr (t2, s2, r2)"
    "rnn_layers nn 1 (rnns s2) s2 r2 t2 = Inr (out, e', r')"
    "c = cell_state e'"
  using assms by (auto simp: Encoder_forward_def and_then_eq_Inr)

lemma Encoder_forward_keeps:
  assumes "Encoder_forward nn e r X = Inr ((out, c), e', r')"
  shows "keeps_modules e e' \<and> c = cell_state e' \<and> hidden e' \<noteq> None
       \<and> (rnn_type (basic_rnn e) = nn_LSTM \<longrightarrow> cell_state e' \<noteq> None)
       \<and> (rnn_type (basic_rnn e) \<noteq> nn_LSTM \<and> (\<forall>m\<in>set (rnns e). rnn_type m \<noteq> nn_LSTM)
            \<longrightarrow> (cell_state e' = None \<longleftrightarrow> cell_state e = None))"
proof -
  from assms obtain t1 s1 t2 s2 r2 where
    st: "call_rnn nn (basic_rnn e) X None e = Inr (t1, s1)"
    "normalize_and_dropout nn 0 s1 r t1 = Inr (t2, s2, r2)"
    "rnn_layers nn 1 (rnns s2) s2 r2 t2 = Inr (out, e', r')"
    "c = cell_state e'"
    by (rule Encoder_forward_Inr)
  note a = call_rnn_keeps [OF st(1)]
  note b = normalize_and_dropout_keeps [OF st(2)]
  note l = rnn_layers_keeps [OF st(3)]
  have rn: "rnns s2 = rnns e"
    using a b by (simp add: keeps_states_def keeps_modules_def)
  have km: "keeps_modules e e'"
    using a b l by (blast intro: keeps_modules_trans dest: keeps_states_def [THEN iffD1])
  have h: "hidden e' \<noteq> None"
    using a b l by (simp add: keeps_states_def)
  have c1: "rnn_type (basic_rnn e) = nn_LSTM \<longrightarrow> cell_state e' \<noteq> None"
    using a b l by (auto simp: keeps_states_def split: if_splits)
  have c2: "rnn_type (basic_rnn e) \<noteq> nn_LSTM \<and> (\<forall>m\<in>set (rnns e). rnn_type m \<noteq> nn_LSTM)
            \<longrightarrow> (cell_state e' = None \<longleftrightarrow> cell_state e = None)"
    using a b l unfolding rn by (auto simp: keeps_states_def split: if_splits)
  from km h c1 c2 st(4) show ?thesis by blast
qed

lemma Decoder_forward_Inr:
  assumes "Decoder_forward nn d r X = Inr (out, d', r')"
  obtains t1 s1 t2 s2 r2 t3 t4 where
    "call_rnn nn (basic_rnn d) X (Some (hidden d, cell_state d)) d = Inr (t1, s1)"
    "normalize_and_dropout nn 0 s1 r t1 = Inr (t2, s2, r2)"
    "rnn_layers nn 1 (rnns s2) s2 r2 t2 = Inr (t3, d', r')"
    "(case attn d' of
        None \<Rightarrow> Inr t3
      | Some a \<Rightarrow>
          (case (attn_keys d', attn_values d') of
             (Some k, Some v) \<Rightarrow>
               and_then (MultiheadAttention_call nn a t3 k v)
                 (\<lambda>(attn_output, attn_output_weights). torch_cat attn_output t3)
           | _ \<Rightarrow> Inl TypeError)) = Inr t4"
    "Linear_call nn (regression d') t4 = Inr out"
  using assms by (auto simp: Decoder_forward_def and_then_eq_Inr)

lemma Decoder_forward_keeps:
  assumes "Decoder_forward nn d r X = Inr (out, d', r')"
  shows "keeps_modules d d' \<and> hidden d' \<noteq> None
       \<and> (cell_state d \<noteq> None \<longrightarrow> cell_state d' \<noteq> None)"
proof -
  from assms obtain t1 s1 t2 s2 r2 t3 where
    st: "call_rnn nn (basic_rnn d) X (Some (hidden d, cell_state d)) d = Inr (t1, s1)"
    "normalize_and_dropout nn 0 s1 r t1 = Inr (t2, s2, r2)"
    "rnn_layers nn 1 (rnns s2) s2 r2 t2 = Inr (t3, d', r')"
    by (rule Decoder_forward_Inr)
  note a = call_rnn_keeps [OF st(1)]
  note b = normalize_and_dropout_keeps [OF st(2)]
  note l = rnn_layers_keeps [OF st(3)]
  have km: "keeps_modules d d'"
    using a b l by (blast intro: keeps_modules_trans dest: keeps_states_def [THEN iffD1])
  have h: "hidden d' \<noteq> None"
    using a b l by (simp add: keeps_states_def)
  have c1: "cell_state d \<noteq> None \<longrightarrow> cell_state d' \<noteq> None"
    using a b l by (auto simp: keeps_states_def split: if_splits)
  from km h c1 show ?thesis by blast
qed

lemma EncoderDecoder_forward_Inr:
  assumes "EncoderDecoder_forward nn m r X = Inr (out, m', r')"
  obtains z hidden_seq c enc r1 dec0 dec where
    "torch_zeros (int (fst (shape X))) (target_len m) (n_features (encoder m)) = Inr z"
    "Encoder_forward nn (encoder m) r (slice1 None (Some (input_len m)) X)
       = Inr ((hidden_seq, c), enc, r1)"
    "init_hidden nn (decoder m) hidden_seq c = Inr dec0"
    "Decoder_forward nn dec0 r1 (slice1 None (Some (input_len m)) X) = Inr (out, dec, r')"
    "m' = m\<lparr>outputs := Some z, encoder := enc, decoder := dec\<rparr>"
  using assms
  by (auto simp: EncoderDecoder_forward_def init_outputs_def and_then_eq_Inr Let_def)

section \<open>A concrete run\<close>

lemma example_gru_model_created:
  "create_encoder_decoder_model (\<lambda>a i. ()) (\<lambda>a i. ()) 2 8 nn_GRU 1 5 0 0 None 0
     = Inr example_gru_model"
  by (simp add: create_encoder_decoder_model_def example_gru_model_def)


lemma example_source: "slice1 None (Some 5) example_input
    = \<lparr>shape = (4, 5, 2), elem = (\<lambda>i j k. int (20 * i + 2 * j + k))\<rparr>"
  by (simp add: slice1_def slice_index_def example_input_def)

lemma last_of_zeros: "permute 1 0 2 (slice1 (Some (- 1)) None (zeros (4, 5, 8) :: int tensor)) = zeros (1, 4, 8)"
  using last_timestep [of "zeros (4, 5, 8) :: int tensor" 4 5 8] by (simp add: zeros_def)

lemma last_of_zeros_Suc:
  "permute (Suc 0) 0 2 (slice1 (Some (- 1)) None (zeros (4, 5, 8) :: int tensor))
   = zeros (Suc 0, 4, 8)"
  using last_of_zeros by simp

lemma shape_last_of_zeros:
  "shape (slice1 (Some (- 1)) None (zeros (4, 5, 8) :: int tensor)) = (4, Suc 0, 8)"
  by (simp add: slice1_def slice_index_def)

lemma example_gru_encoder_run:
  "Encoder_forward zero_torch (encoder example_gru_model) () (slice1 None (Some 5) example_input)
   = Inr ((zeros (4, 5, 8), None),
          (encoder example_gru_model)\<lparr>hidden := Some (zeros (1, 4, 8))\<rparr>, ())"
  unfolding example_source
  by (simp add: Encoder_forward_def call_rnn_def normalize_and_dropout_def
      example_gru_model_def EncoderDecoder_init_def Encoder_init_def new_norm_def zero_torch_def)

lemma example_gru_init_hidden:
  "init_hidden zero_torch (decoder example_gru_model) (zeros (4, 5, 8)) None
   = Inr ((decoder example_gru_model)
            \<lparr>hidden := Some (zeros (1, 4, 8)), cell_state := Some (zeros (1, 4, 8))\<rparr>)"
  by (simp add: init_hidden_def Let_def last_of_zeros_Suc shape_last_of_zeros
      example_gru_model_def EncoderDecoder_init_def Decoder_init_def)

lemma example_gru_decoder_run:
  "Decoder_forward zero_torch
     ((decoder example_gru_model)
        \<lparr>hidden := Some (zeros (1, 4, 8)), cell_state := Some (zeros (1, 4, 8))\<rparr>) ()
     (slice1 None (Some 5) example_input)
   = Inr (zeros (4, 5, 2),
          (decoder example_gru_model)
            \<lparr>hidden := Some (zeros (1, 4, 8)), cell_state := Some (zeros (1, 4, 8))\<rparr>, ())"
  unfolding example_source
  by (simp add: Decoder_forward_def call_rnn_def normalize_and_dropout_def
      example_gru_model_def EncoderDecoder_init_def Decoder_init_def new_norm_def zero_torch_def)

lemma example_gru_run:
  "EncoderDecoder_forward zero_torch example_gru_model () example_input
   = Inr (zeros (4, 5, 2),
          example_gru_model
            \<lparr>outputs := Some (zeros (4, 5, 2)),
             encoder := (encoder example_gru_model)\<lparr>hidden := Some (zeros (1, 4, 8))\<rparr>,
             decoder := (decoder example_gru_model)
               \<lparr>hidden := Some (zeros (1, 4, 8)), cell_state := Some (zeros (1, 4, 8))\<rparr>\<rparr>, ())"
proof -
  have il: "input_len example_gru_model = 5" and tl: "target_len example_gru_model = 5"
    and nf: "n_features (encoder example_gru_model) = 2"
    by (simp_all add: example_gru_model_def EncoderDecoder_init_def Encoder_init_def)
  have b: "fst (shape example_input) = 4"
    by (simp add: example_input_def)
  show ?thesis
    by (simp del: One_nat_def
        add: EncoderDecoder_forward_def init_outputs_def torch_zeros_def il tl nf b
        example_gru_encoder_run example_gru_init_hidden example_gru_decoder_run)
qed







subsection \<open>The cell state\<close>

lemma created_model:
  assumes "create_encoder_decoder_model ie idc F H k n L tf p nz heads = Inr m"
  shows "encoder m = Encoder_init ie F H k n p nz"
    and "decoder m = Decoder_init idc F H k n p nz heads"
    and "input_len m = L" and "target_len m = L" and "teacher_forcing_prob m = tf"
    and "outputs m = None"
    and "\<not> (0 < heads \<and> H mod heads \<noteq> 0)"
  using assms
  by (auto simp: create_encoder_decoder_model_def EncoderDecoder_init_def split: if_splits)

lemma Encoder_init_rnns:
  "rnn_type (basic_rnn (Encoder_init ie F H k n p nz)) = k"
  "\<forall>m\<in>set (rnns (Encoder_init ie F H k n p nz)). rnn_type m = k"
  "cell_state (Encoder_init ie F H k n p nz) = None"
  by (auto simp: Encoder_init_def)

lemma Decoder_init_rnns:
  "rnn_type (basic_rnn (Decoder_init ie F H k n p nz heads)) = k"
  "\<forall>m\<in>set (rnns (Decoder_init ie F H k n p nz heads)). rnn_type m = k"
  by (auto simp: Decoder_init_def)




section \<open>The forward pass of the whole model\<close>

text \<open>
  C4. A call of \<^verbatim>\<open>EncoderDecoder.forward\<close> that returns has run the encoder on the source
  window \<^verbatim>\<open>X[:, :input_len, :]\<close>, seeded the decoder by \<^verbatim>\<open>init_hidden\<close> from what the
  encoder returned, run the decoder once on the source window again and returned the
  decoder's output. The buffer \<^verbatim>\<open>self.outputs\<close> is the zero tensor of shape
  (batch, target_len, n_features) on return. Neither the target window nor
  \<^verbatim>\<open>teacher_forcing_prob\<close> has any influence: an input with the same batch size and source
  window gives the same result under any teacher-forcing probability.
\<close>

theorem forward_single_shot:
  assumes run: "EncoderDecoder_forward nn m r X = Inr (out, m', r')"
  shows "(\<exists>hidden_seq c r1 dec0.
             Encoder_forward nn (encoder m) r (slice1 None (Some (input_len m)) X)
               = Inr ((hidden_seq, c), encoder m', r1)
           \<and> init_hidden nn (decoder m) hidden_seq c = Inr dec0
           \<and> Decoder_forward nn dec0 r1 (slice1 None (Some (input_len m)) X)
               = Inr (out, decoder m', r'))
       \<and> outputs m' = Some (zeros (fst (shape X), nat (target_len m), nat (n_features (encoder m))))
       \<and> (\<forall>X2 q. slice1 None (Some (input_len m)) X2 = slice1 None (Some (input_len m)) X
                    \<and> fst (shape X2) = fst (shape X)
             \<longrightarrow> EncoderDecoder_forward nn (m\<lparr>teacher_forcing_prob := q\<rparr>) r X2
                   = Inr (out, m'\<lparr>teacher_forcing_prob := q\<rparr>, r'))"
proof -
  from run obtain z hidden_seq c enc r1 dec0 dec where
    z: "torch_zeros (int (fst (shape X))) (target_len m) (n_features (encoder m)) = Inr z" and
    e: "Encoder_forward nn (encoder m) r (slice1 None (Some (input_len m)) X)
       = Inr ((hidden_seq, c), enc, r1)" and
    i: "init_hidden nn (decoder m) hidden_seq c = Inr dec0" and
    d: "Decoder_forward nn dec0 r1 (slice1 None (Some (input_len m)) X) = Inr (out, dec, r')" and
    m': "m' = m\<lparr>outputs := Some z, encoder := enc, decoder := dec\<rparr>"
    by (rule EncoderDecoder_forward_Inr)
  have zz: "z = zeros (fst (shape X), nat (target_len m), nat (n_features (encoder m)))"
    using z by (auto simp: torch_zeros_def split: if_splits)
  have steps: "\<exists>hidden_seq c r1 dec0.
             Encoder_forward nn (encoder m) r (slice1 None (Some (input_len m)) X)
               = Inr ((hidden_seq, c), encoder m', r1)
           \<and> init_hidden nn (decoder m) hidden_seq c = Inr dec0
           \<and> Decoder_forward nn dec0 r1 (slice1 None (Some (input_len m)) X)
               = Inr (out, decoder m', r')"
    using e i d by (auto simp: m')
  have buf: "outputs m' = Some (zeros (fst (shape X), nat (target_len m), nat (n_features (encoder m))))"
    by (simp add: m' zz)
  have indep: "EncoderDecoder_forward nn (m\<lparr>teacher_forcing_prob := q\<rparr>) r X2
                   = Inr (out, m'\<lparr>teacher_forcing_prob := q\<rparr>, r')"
    if "slice1 None (Some (input_len m)) X2 = slice1 None (Some (input_len m)) X"
      and "fst (shape X2) = fst (shape X)" for X2 q
    using that z e i d
    by (simp add: EncoderDecoder_forward_def init_outputs_def Let_def m')
  from steps buf indep show ?thesis by blast
qed

theorem forward_single_shot_witness:
  "EncoderDecoder_forward zero_torch example_gru_model () example_input
     = Inr (zeros (4, 5, 2),
          example_gru_model
            \<lparr>outputs := Some (zeros (4, 5, 2)),
             encoder := (encoder example_gru_model)\<lparr>hidden := Some (zeros (1, 4, 8))\<rparr>,
             decoder := (decoder example_gru_model)
               \<lparr>hidden := Some (zeros (1, 4, 8)), cell_state := Some (zeros (1, 4, 8))\<rparr>\<rparr>, ())
   \<and> (\<exists>hidden_seq c r1 dec0.
         Encoder_forward zero_torch (encoder example_gru_model) ()
             (slice1 None (Some (input_len example_gru_model)) example_input)
           = Inr ((hidden_seq, c), (encoder example_gru_model)\<lparr>hidden := Some (zeros (1, 4, 8))\<rparr>, r1)
         \<and> init_hidden zero_torch (decoder example_gru_model) hidden_seq c = Inr dec0)"
  using forward_single_shot [OF example_gru_run] example_gru_run
  by (auto simp del: One_nat_def)

section \<open>Two runs that agree\<close>

lemma and_then_rel:
  assumes "rel_sum (=) R m1 m2"
      and "\<And>x y. R x y \<Longrightarrow> rel_sum (=) Q (f x) (g y)"
  shows "rel_sum (=) Q (and_then m1 f) (and_then m2 g)"
  using assms by (cases m1; cases m2) auto

lemma rel_sum_refl_eq: "rel_sum (=) (=) m m"
  by (cases m) auto

lemma call_norm_same: "same_layers nn1 nn2 \<Longrightarrow> call_norm nn1 m x = call_norm nn2 m x"
  by (cases "(nn1, m, x)" rule: call_norm.cases) (auto simp: same_layers_def)

lemma call_rnn_agree:
  assumes "same_layers nn1 nn2" and "agree d s1 s2"
  shows "rel_sum (=) (rel_prod (=) (agree d))
           (call_rnn nn1 rnn x st s1) (call_rnn nn2 rnn x st s2)"
  using assms
  by (auto simp: call_rnn_def same_layers_def agree_def and_then_def split: sum.splits)

lemma permute_states_agree:
  assumes "agree d s1 s2"
  shows "rel_sum (=) (agree d) (permute_states a b c s1) (permute_states a b c s2)"
  using assms by (auto simp: permute_states_def agree_def split: option.splits)

lemma permute_in_agree:
  assumes "agree d s1 s2"
  shows "rel_sum (=) (rel_prod (=) (agree d)) (permute_in s1 t) (permute_in s2 t)"
proof -
  have on: "out_normalization s1 = out_normalization s2"
    using assms by (simp add: agree_def)
  show ?thesis
    unfolding permute_in_def on
    by (auto intro!: and_then_rel [OF permute_states_agree [OF assms]] simp: assms)
qed

lemma permute_out_agree:
  assumes "agree d s1 s2"
  shows "rel_sum (=) (rel_prod (=) (agree d)) (permute_out s1 t) (permute_out s2 t)"
proof -
  have on: "out_normalization s1 = out_normalization s2"
    using assms by (simp add: agree_def)
  show ?thesis
    unfolding permute_out_def on
    by (auto intro!: and_then_rel [OF permute_states_agree [OF assms]] simp: assms)
qed

lemma normalize_output_agree:
  assumes "same_layers nn1 nn2" and "agree d s1 s2"
  shows "rel_sum (=) (rel_prod (=) (agree d)) (normalize_output nn1 s1 t) (normalize_output nn2 s2 t)"
proof -
  have on: "out_normalization s1 = out_normalization s2"
    using assms by (simp add: agree_def)
  show ?thesis
    unfolding normalize_output_def on call_norm_same [OF assms(1)]
    using assms(2) by (auto simp: and_then_def agree_def split: sum.splits)
qed

lemma normalize_hidden_agree:
  assumes "same_layers nn1 nn2" and "agree d s1 s2"
  shows "rel_sum (=) (agree d) (normalize_hidden nn1 s1) (normalize_hidden nn2 s2)"
proof -
  have on: "hidden_normalization s1 = hidden_normalization s2" "hidden s1 = hidden s2"
    using assms by (simp_all add: agree_def)
  show ?thesis
    unfolding normalize_hidden_def on call_norm_same [OF assms(1)]
    using assms(2) by (auto simp: and_then_def agree_def split: sum.splits option.splits)
qed

lemma normalize_cell_state_agree:
  assumes "same_layers nn1 nn2" and "agree d s1 s2"
  shows "rel_sum (=) (agree d) (normalize_cell_state nn1 s1) (normalize_cell_state nn2 s2)"
proof -
  have on: "out_normalization s1 = out_normalization s2" "cell_state s1 = cell_state s2"
    "cell_normalization s1 = None \<longleftrightarrow> cell_normalization s2 = None"
    using assms by (simp_all add: agree_def)
  show ?thesis
    unfolding normalize_cell_state_def on call_norm_same [OF assms(1)]
    using assms(2) by (auto simp: and_then_def agree_def split: sum.splits)
qed

lemma apply_normalization_agree:
  assumes nn: "same_layers nn1 nn2" and ag: "agree d s1 s2"
  shows "rel_sum (=) (rel_prod (=) (agree d))
           (apply_normalization nn1 s1 t) (apply_normalization nn2 s2 t)"
  unfolding apply_normalization_def
  apply (rule and_then_rel [OF permute_in_agree [OF ag]])
  apply (clarsimp)
  apply (rule and_then_rel [OF normalize_output_agree [OF nn]], assumption)
  apply (clarsimp)
  apply (rule and_then_rel [OF normalize_hidden_agree [OF nn]], assumption)
  apply (rule and_then_rel [OF normalize_cell_state_agree [OF nn]], assumption)
  apply (erule permute_out_agree)
  done

lemma apply_dropout_agree:
  assumes "Dropout_call nn1 = Dropout_call nn2" and "agree True s1 s2"
  shows "rel_sum (=) (agree_run True) (apply_dropout nn1 i s1 r t) (apply_dropout nn2 i s2 r t)"
  using assms
  by (auto simp: apply_dropout_def agree_run_def agree_def Let_def
      split: option.splits prod.splits)

lemma normalize_and_dropout_agree:
  assumes nn: "same_layers nn1 nn2"
      and dr: "d \<longrightarrow> Dropout_call nn1 = Dropout_call nn2 \<and> r1 = r2"
      and ag: "agree d s1 s2"
  shows "rel_sum (=) (agree_run d)
           (normalize_and_dropout nn1 i s1 r1 t) (normalize_and_dropout nn2 i s2 r2 t)"
proof -
  have on: "out_normalization s1 = out_normalization s2"
    using ag by (simp add: agree_def)
  have pre: "rel_sum (=) (rel_prod (=) (agree d))
      (if out_normalization s1 \<noteq> None then apply_normalization nn1 s1 t else Inr (t, s1))
      (if out_normalization s2 \<noteq> None then apply_normalization nn2 s2 t else Inr (t, s2))"
    using apply_normalization_agree [OF nn ag] ag on by simp
  have post: "rel_sum (=) (agree_run d)
      (if length (dropouts a) > 0 \<and> training a then apply_dropout nn1 i a r1 x
       else Inr (x, a, r1))
      (if length (dropouts b) > 0 \<and> training b then apply_dropout nn2 i b r2 y
       else Inr (y, b, r2))"
    if "rel_prod (=) (agree d) (x, a) (y, b)" for x a y b
  proof (cases d)
    case True
    with that dr have "agree True a b" "x = y" "r1 = r2" "Dropout_call nn1 = Dropout_call nn2"
      by simp_all
    moreover from this have "dropouts a = dropouts b" "training a = training b"
      by (simp_all add: agree_def)
    ultimately show ?thesis
      using apply_dropout_agree [of nn1 nn2 a b i r2 y] True
      by (simp add: agree_run_def)
  next
    case False
    with that have "dropouts a = []" "dropouts b = []" "x = y" "agree False a b"
      by (auto simp: agree_def)
    then show ?thesis
      using False by (simp add: agree_run_def)
  qed
  show ?thesis
    unfolding normalize_and_dropout_def
  proof (rule and_then_rel [OF pre])
    fix x y :: "'a tensor \<times> ('a, 'b, 'd) Encoder_scheme"
    assume r: "rel_prod (=) (agree d) x y"
    obtain xa xs where x: "x = (xa, xs)" by (cases x)
    obtain ya ys where y: "y = (ya, ys)" by (cases y)
    have "rel_prod (=) (agree d) (xa, xs) (ya, ys)"
      using r unfolding x y .
    from post [OF this]
    show "rel_sum (=) (agree_run d)
        (case x of (rnn_out, self) \<Rightarrow>
           if length (dropouts self) > 0 \<and> training self
           then apply_dropout nn1 i self r1 rnn_out else Inr (rnn_out, self, r1))
        (case y of (rnn_out, self) \<Rightarrow>
           if length (dropouts self) > 0 \<and> training self
           then apply_dropout nn2 i self r2 rnn_out else Inr (rnn_out, self, r2))"
      unfolding x y prod.case .
  qed
qed

lemma rnn_layers_agree:
  assumes nn: "same_layers nn1 nn2"
      and dr: "d \<longrightarrow> Dropout_call nn1 = Dropout_call nn2"
      and ag: "agree_run d (t, s1, r1) (t, s2, r2)"
  shows "rel_sum (=) (agree_run d) (rnn_layers nn1 i rs s1 r1 t) (rnn_layers nn2 i rs s2 r2 t)"
  using ag
proof (induction rs arbitrary: i s1 s2 r1 r2 t)
  case Nil
  then show ?case by simp
next
  case (Cons m rs)
  from Cons.prems have ag: "agree d s1 s2" and rr: "d \<longrightarrow> r1 = r2"
    by (simp_all add: agree_run_def)
  have st: "hidden s1 = hidden s2" "cell_state s1 = cell_state s2"
    using ag by (simp_all add: agree_def)
  have c: "rel_sum (=) (rel_prod (=) (agree d))
      (call_rnn nn1 m t (Some (hidden s1, cell_state s1)) s1)
      (call_rnn nn2 m t (Some (hidden s2, cell_state s2)) s2)"
    unfolding st by (rule call_rnn_agree [OF nn ag])
  show ?case
  proof (cases "call_rnn nn1 m t (Some (hidden s1, cell_state s1)) s1")
    case (Inl e)
    with c show ?thesis by (cases "call_rnn nn2 m t (Some (hidden s2, cell_state s2)) s2") auto
  next
    case (Inr p1)
    with c obtain t1 a b where
      p1: "call_rnn nn1 m t (Some (hidden s1, cell_state s1)) s1 = Inr (t1, a)" and
      p2: "call_rnn nn2 m t (Some (hidden s2, cell_state s2)) s2 = Inr (t1, b)" and
      ab: "agree d a b"
      by (cases "call_rnn nn2 m t (Some (hidden s2, cell_state s2)) s2"; cases p1) auto
    have n: "rel_sum (=) (agree_run d)
        (normalize_and_dropout nn1 i a r1 t1) (normalize_and_dropout nn2 i b r2 t1)"
      using normalize_and_dropout_agree [OF nn _ ab] dr rr by blast
    show ?thesis
    proof (cases "normalize_and_dropout nn1 i a r1 t1")
      case (Inl e)
      with n p1 p2 show ?thesis
        by (cases "normalize_and_dropout nn2 i b r2 t1") auto
    next
      case (Inr q1)
      with n obtain t2 a' ra b' rb where
        q1: "normalize_and_dropout nn1 i a r1 t1 = Inr (t2, a', ra)" and
        q2: "normalize_and_dropout nn2 i b r2 t1 = Inr (t2, b', rb)" and
        ab': "agree_run d (t2, a', ra) (t2, b', rb)"
        by (cases "normalize_and_dropout nn2 i b r2 t1"; cases q1)
          (auto simp: agree_run_def)
      from Cons.IH [OF ab'] show ?thesis
        by (simp add: p1 p2 q1 q2)
    qed
  qed
qed

lemma Encoder_forward_agree:
  assumes nn: "same_layers nn1 nn2"
      and dr: "d \<longrightarrow> Dropout_call nn1 = Dropout_call nn2 \<and> r1 = r2"
      and ag: "enc_agree d e1 e2"
  shows "rel_sum (=) (agree_run d) (Encoder_forward nn1 e1 r1 X) (Encoder_forward nn2 e2 r2 X)"
proof -
  have b: "basic_rnn e1 = basic_rnn e2"
    using ag by (simp add: enc_agree_def agree_def)
  have first: "rel_sum (=) (rel_prod (=) (agree d))
      (call_rnn nn1 (basic_rnn e1) X None e1) (call_rnn nn2 (basic_rnn e2) X None e2)"
    using ag nn unfolding b
    by (auto simp: call_rnn_def same_layers_def enc_agree_def agree_def and_then_def
        split: sum.splits if_splits)
  show ?thesis
    unfolding Encoder_forward_def
  proof (rule and_then_rel [OF first])
    fix x y :: "'a tensor \<times> ('a, 'b) Encoder"
    assume r: "rel_prod (=) (agree d) x y"
    obtain t a where x: "x = (t, a)" by (cases x)
    obtain t' b where y: "y = (t', b)" by (cases y)
    from r have tt: "t' = t" and ab: "agree d a b"
      unfolding x y by simp_all
    have n: "rel_sum (=) (agree_run d)
        (normalize_and_dropout nn1 0 a r1 t) (normalize_and_dropout nn2 0 b r2 t)"
      using normalize_and_dropout_agree [OF nn _ ab] dr by blast
    have rest: "rel_sum (=) (agree_run d)
        (case p of (rnn_out, self, rng) \<Rightarrow>
           and_then (rnn_layers nn1 1 (rnns self) self rng rnn_out)
             (\<lambda>(rnn_out, self, rng). Inr ((rnn_out, cell_state self), self, rng)))
        (case q of (rnn_out, self, rng) \<Rightarrow>
           and_then (rnn_layers nn2 1 (rnns self) self rng rnn_out)
             (\<lambda>(rnn_out, self, rng). Inr ((rnn_out, cell_state self), self, rng)))"
      if pq: "agree_run d p q" for p q :: "'a tensor \<times> ('a, 'b) Encoder \<times> 'c"
    proof -
      obtain t2 a2 ra where p: "p = (t2, a2, ra)" by (cases p)
      obtain t3 b2 rb where q: "q = (t3, b2, rb)" by (cases q)
      from pq have t3: "t3 = t2" and ab2: "agree d a2 b2"
        unfolding p q by (simp_all add: agree_run_def)
      have rn: "rnns a2 = rnns b2" using ab2 by (simp add: agree_def)
      have pq': "agree_run d (t2, a2, ra) (t2, b2, rb)"
        using pq unfolding p q t3 .
      have l: "rel_sum (=) (agree_run d)
          (rnn_layers nn1 1 (rnns b2) a2 ra t2) (rnn_layers nn2 1 (rnns b2) b2 rb t2)"
        using rnn_layers_agree [OF nn _ pq'] dr by blast
      show ?thesis
        unfolding p q t3 prod.case rn
        by (rule and_then_rel [OF l]) (auto simp: agree_run_def agree_def)
    qed
    show "rel_sum (=) (agree_run d)
        (case x of (rnn_out, self) \<Rightarrow>
           and_then (normalize_and_dropout nn1 0 self r1 rnn_out)
             (\<lambda>(rnn_out, self, rng).
               and_then (rnn_layers nn1 1 (rnns self) self rng rnn_out)
                 (\<lambda>(rnn_out, self, rng). Inr ((rnn_out, cell_state self), self, rng))))
        (case y of (rnn_out, self) \<Rightarrow>
           and_then (normalize_and_dropout nn2 0 self r2 rnn_out)
             (\<lambda>(rnn_out, self, rng).
               and_then (rnn_layers nn2 1 (rnns self) self rng rnn_out)
                 (\<lambda>(rnn_out, self, rng). Inr ((rnn_out, cell_state self), self, rng))))"
      unfolding x y tt prod.case
      by (rule and_then_rel [OF n]) (rule rest)
  qed
qed

lemma more_eq_Decoder:
  fixes d1 d2 :: "('a, 'w) Decoder"
  assumes "Encoder.more d1 = Encoder.more d2"
  shows "attn d1 = attn d2" "attn_keys d1 = attn_keys d2" "attn_values d1 = attn_values d2"
    "linear_keys d1 = linear_keys d2" "linear_values d1 = linear_values d2"
    "regression d1 = regression d2"
  using assms by (cases d1; cases d2; simp)+

lemma init_attn_key_values_agree:
  assumes nn: "same_layers nn1 nn2" and ag: "agree d d1 d2"
  shows "rel_sum (=) (agree d) (init_attn_key_values nn1 d1 hs) (init_attn_key_values nn2 d2 hs)"
proof -
  have more: "Encoder.more d1 = Encoder.more d2"
    using ag by (simp add: agree_def)
  note at = more_eq_Decoder [OF more]
  have lin: "Linear_call nn1 = Linear_call nn2"
    using nn by (simp add: same_layers_def)
  show ?thesis
    unfolding init_attn_key_values_def at lin
    using ag
    by (cases d1; cases d2)
       (auto simp: and_then_def agree_def split: option.splits sum.splits)
qed

lemma init_hidden_agree:
  assumes nn: "same_layers nn1 nn2" and ag: "dec_agree d d1 d2"
  shows "rel_sum (=) (agree d) (init_hidden nn1 d1 hs c) (init_hidden nn2 d2 hs c)"
proof -
  let ?f = "\<lambda>s :: ('a, 'b) Decoder. s\<lparr>hidden := None, cell_state := None\<rparr>"
  have ag0: "agree d (?f d1) (?f d2)"
    using ag by (simp add: dec_agree_def)
  have more: "Encoder.more d1 = Encoder.more d2"
    using ag0 by (simp add: agree_def)
  note at = more_eq_Decoder [OF more]
  have same: "init_attn_key_values nn d1 hs
      = map_sum id (\<lambda>s. s\<lparr>hidden := hidden d1, cell_state := cell_state d1\<rparr>)
          (init_attn_key_values nn (?f d1) hs)" for nn :: "('a, 'b, 'c) torch" and d1 :: "('a, 'b) Decoder"
    by (auto simp: init_attn_key_values_def and_then_def split: option.splits sum.splits)
  have pre: "rel_sum (=) (\<lambda>a b. agree d (?f a) (?f b))
      (if attn d1 \<noteq> None then init_attn_key_values nn1 d1 hs else Inr d1)
      (if attn d2 \<noteq> None then init_attn_key_values nn2 d2 hs else Inr d2)"
  proof (cases "attn d2 = None")
    case True
    then show ?thesis using ag0 at by simp
  next
    case False
    have "rel_sum (=) (agree d) (init_attn_key_values nn1 (?f d1) hs)
        (init_attn_key_values nn2 (?f d2) hs)"
      by (rule init_attn_key_values_agree [OF nn ag0])
    then have "rel_sum (=) (\<lambda>a b. agree d (?f a) (?f b))
        (init_attn_key_values nn1 d1 hs) (init_attn_key_values nn2 d2 hs)"
      unfolding same [of nn1 d1] same [of nn2 d2]
      by (cases "init_attn_key_values nn1 (?f d1) hs"; cases "init_attn_key_values nn2 (?f d2) hs")
         (auto simp: agree_def)
    with False at show ?thesis by simp
  qed
  show ?thesis
    unfolding init_hidden_def
    by (rule and_then_rel [OF pre]) (cases c; auto simp: agree_def Let_def)
qed


lemma Decoder_forward_agree:
  assumes nn: "same_layers nn1 nn2"
      and dr: "d \<longrightarrow> Dropout_call nn1 = Dropout_call nn2 \<and> r1 = r2"
      and ag: "agree d d1 d2"
  shows "rel_sum (=) (agree_run d) (Decoder_forward nn1 d1 r1 X) (Decoder_forward nn2 d2 r2 X)"
proof -
  have b: "basic_rnn d1 = basic_rnn d2" "hidden d1 = hidden d2" "cell_state d1 = cell_state d2"
    using ag by (simp_all add: agree_def)
  have first: "rel_sum (=) (rel_prod (=) (agree d))
      (call_rnn nn1 (basic_rnn d1) X (Some (hidden d1, cell_state d1)) d1)
      (call_rnn nn2 (basic_rnn d2) X (Some (hidden d2, cell_state d2)) d2)"
    unfolding b by (rule call_rnn_agree [OF nn ag])
  have tail: "rel_sum (=) (agree_run d)
      (and_then (case attn a of
                 None \<Rightarrow> Inr t
               | Some m \<Rightarrow>
                   (case (attn_keys a, attn_values a) of
                      (Some k, Some v) \<Rightarrow>
                        and_then (MultiheadAttention_call nn1 m t k v)
                        (\<lambda>(attn_output, attn_output_weights). torch_cat attn_output t)
                    | _ \<Rightarrow> Inl TypeError))
        (\<lambda>t. and_then (Linear_call nn1 (regression a) t) (\<lambda>out. Inr (out, a, ra))))
      (and_then (case attn b of
                 None \<Rightarrow> Inr t
               | Some m \<Rightarrow>
                   (case (attn_keys b, attn_values b) of
                      (Some k, Some v) \<Rightarrow>
                        and_then (MultiheadAttention_call nn2 m t k v)
                        (\<lambda>(attn_output, attn_output_weights). torch_cat attn_output t)
                    | _ \<Rightarrow> Inl TypeError))
        (\<lambda>t. and_then (Linear_call nn2 (regression b) t) (\<lambda>out. Inr (out, b, rb))))"
    if ab: "agree_run d (t, a, ra) (t, b, rb)"
    for t and a b :: "('a, 'b) Decoder" and ra rb :: 'c
  proof -
    from ab have "Encoder.more a = Encoder.more b"
      by (simp add: agree_run_def agree_def)
    note at = more_eq_Decoder [OF this]
    have calls: "MultiheadAttention_call nn1 = MultiheadAttention_call nn2"
      "Linear_call nn1 = Linear_call nn2"
      using nn by (simp_all add: same_layers_def)
    show ?thesis
      unfolding at calls
      by (rule and_then_rel [OF rel_sum_refl_eq])
         (use ab in \<open>auto simp: and_then_def agree_run_def split: sum.splits\<close>)
  qed
  show ?thesis
    unfolding Decoder_forward_def
  proof (rule and_then_rel [OF first])
    fix x y :: "'a tensor \<times> ('a, 'b) Decoder"
    assume r: "rel_prod (=) (agree d) x y"
    obtain t a where x: "x = (t, a)" by (cases x)
    obtain t' b where y: "y = (t', b)" by (cases y)
    from r have tt: "t' = t" and ab: "agree d a b"
      unfolding x y by simp_all
    have n: "rel_sum (=) (agree_run d)
        (normalize_and_dropout nn1 0 a r1 t) (normalize_and_dropout nn2 0 b r2 t)"
      using normalize_and_dropout_agree [OF nn _ ab] dr by blast
    have rest: "rel_sum (=) (agree_run d)
        (case p of (batch_first_output, self, rng) \<Rightarrow>
           and_then (rnn_layers nn1 1 (rnns self) self rng batch_first_output)
           (\<lambda>(batch_first_output, self, rng).
           and_then (case attn self of
                 None \<Rightarrow> Inr batch_first_output
               | Some a \<Rightarrow>
                   (case (attn_keys self, attn_values self) of
                      (Some k, Some v) \<Rightarrow>
                        and_then (MultiheadAttention_call nn1 a batch_first_output k v)
                        (\<lambda>(attn_output, attn_output_weights).
                          torch_cat attn_output batch_first_output)
                    | _ \<Rightarrow> Inl TypeError))
           (\<lambda>batch_first_output.
           and_then (Linear_call nn1 (regression self) batch_first_output)
           (\<lambda>out. Inr (out, self, rng)))))
        (case q of (batch_first_output, self, rng) \<Rightarrow>
           and_then (rnn_layers nn2 1 (rnns self) self rng batch_first_output)
           (\<lambda>(batch_first_output, self, rng).
           and_then (case attn self of
                 None \<Rightarrow> Inr batch_first_output
               | Some a \<Rightarrow>
                   (case (attn_keys self, attn_values self) of
                      (Some k, Some v) \<Rightarrow>
                        and_then (MultiheadAttention_call nn2 a batch_first_output k v)
                        (\<lambda>(attn_output, attn_output_weights).
                          torch_cat attn_output batch_first_output)
                    | _ \<Rightarrow> Inl TypeError))
           (\<lambda>batch_first_output.
           and_then (Linear_call nn2 (regression self) batch_first_output)
           (\<lambda>out. Inr (out, self, rng)))))"
      if pq: "agree_run d p q" for p q :: "'a tensor \<times> ('a, 'b) Decoder \<times> 'c"
    proof -
      obtain t2 a2 ra where p: "p = (t2, a2, ra)" by (cases p)
      obtain t3 b2 rb where q: "q = (t3, b2, rb)" by (cases q)
      from pq have t3: "t3 = t2" and ab2: "agree d a2 b2"
        unfolding p q by (simp_all add: agree_run_def)
      have rn: "rnns a2 = rnns b2" using ab2 by (simp add: agree_def)
      have pq': "agree_run d (t2, a2, ra) (t2, b2, rb)"
        using pq unfolding p q t3 .
      have l: "rel_sum (=) (agree_run d)
          (rnn_layers nn1 1 (rnns b2) a2 ra t2) (rnn_layers nn2 1 (rnns b2) b2 rb t2)"
        using rnn_layers_agree [OF nn _ pq'] dr by blast
      have sp: "\<And>F. (case (t2, a2, ra) of (x, y, z) \<Rightarrow> F x y z) = F t2 a2 ra"
        "\<And>F. (case (t2, b2, rb) of (x, y, z) \<Rightarrow> F x y z) = F t2 b2 rb"
        by simp_all
      show ?thesis
        unfolding p q t3 sp rn
      proof (rule and_then_rel [OF l])
        fix u v :: "'a tensor \<times> ('a, 'b) Decoder \<times> 'c"
        assume uv: "agree_run d u v"
        obtain t4 a4 r4 where u: "u = (t4, a4, r4)" by (cases u)
        obtain t5 b5 r5 where v: "v = (t5, b5, r5)" by (cases v)
        from uv have t5: "t5 = t4" unfolding u v by (simp add: agree_run_def)
        from uv have "agree_run d (t4, a4, r4) (t4, b5, r5)" unfolding u v t5 .
        then show "rel_sum (=) (agree_run d)
          (case u of (batch_first_output, self, rng) \<Rightarrow>
           and_then (case attn self of
                 None \<Rightarrow> Inr batch_first_output
               | Some a \<Rightarrow>
                   (case (attn_keys self, attn_values self) of
                      (Some k, Some v) \<Rightarrow>
                        and_then (MultiheadAttention_call nn1 a batch_first_output k v)
                        (\<lambda>(attn_output, attn_output_weights).
                          torch_cat attn_output batch_first_output)
                    | _ \<Rightarrow> Inl TypeError))
           (\<lambda>batch_first_output.
           and_then (Linear_call nn1 (regression self) batch_first_output)
           (\<lambda>out. Inr (out, self, rng))))
          (case v of (batch_first_output, self, rng) \<Rightarrow>
           and_then (case attn self of
                 None \<Rightarrow> Inr batch_first_output
               | Some a \<Rightarrow>
                   (case (attn_keys self, attn_values self) of
                      (Some k, Some v) \<Rightarrow>
                        and_then (MultiheadAttention_call nn2 a batch_first_output k v)
                        (\<lambda>(attn_output, attn_output_weights).
                          torch_cat attn_output batch_first_output)
                    | _ \<Rightarrow> Inl TypeError))
           (\<lambda>batch_first_output.
           and_then (Linear_call nn2 (regression self) batch_first_output)
           (\<lambda>out. Inr (out, self, rng))))"
        proof -
          have sp: "\<And>F. (case (t4, a4, r4) of (x, y, z) \<Rightarrow> F x y z) = F t4 a4 r4"
            "\<And>F. (case (t4, b5, r5) of (x, y, z) \<Rightarrow> F x y z) = F t4 b5 r5"
            by simp_all
          from \<open>agree_run d (t4, a4, r4) (t4, b5, r5)\<close> show ?thesis
            unfolding u v t5 sp by (rule tail)
        qed
      qed
    qed
    show "rel_sum (=) (agree_run d)
        (case x of (batch_first_output, self) \<Rightarrow>
           and_then (normalize_and_dropout nn1 0 self r1 batch_first_output)
           (\<lambda>(batch_first_output, self, rng).
           and_then (rnn_layers nn1 1 (rnns self) self rng batch_first_output)
           (\<lambda>(batch_first_output, self, rng).
           and_then (case attn self of
                 None \<Rightarrow> Inr batch_first_output
               | Some a \<Rightarrow>
                   (case (attn_keys self, attn_values self) of
                      (Some k, Some v) \<Rightarrow>
                        and_then (MultiheadAttention_call nn1 a batch_first_output k v)
                        (\<lambda>(attn_output, attn_output_weights).
                          torch_cat attn_output batch_first_output)
                    | _ \<Rightarrow> Inl TypeError))
           (\<lambda>batch_first_output.
           and_then (Linear_call nn1 (regression self) batch_first_output)
           (\<lambda>out. Inr (out, self, rng))))))
        (case y of (batch_first_output, self) \<Rightarrow>
           and_then (normalize_and_dropout nn2 0 self r2 batch_first_output)
           (\<lambda>(batch_first_output, self, rng).
           and_then (rnn_layers nn2 1 (rnns self) self rng batch_first_output)
           (\<lambda>(batch_first_output, self, rng).
           and_then (case attn self of
                 None \<Rightarrow> Inr batch_first_output
               | Some a \<Rightarrow>
                   (case (attn_keys self, attn_values self) of
                      (Some k, Some v) \<Rightarrow>
                        and_then (MultiheadAttention_call nn2 a batch_first_output k v)
                        (\<lambda>(attn_output, attn_output_weights).
                          torch_cat attn_output batch_first_output)
                    | _ \<Rightarrow> Inl TypeError))
           (\<lambda>batch_first_output.
           and_then (Linear_call nn2 (regression self) batch_first_output)
           (\<lambda>out. Inr (out, self, rng))))))"
    proof -
      have sp: "\<And>F. (case (t, a) of (x, y) \<Rightarrow> F x y) = F t a"
        "\<And>F. (case (t, b) of (x, y) \<Rightarrow> F x y) = F t b"
        by simp_all
      show ?thesis
        unfolding x y tt sp
        by (rule and_then_rel [OF n]) (rule rest)
    qed
  qed
qed


lemma rel_sum_InrE:
  assumes "rel_sum (=) R a b" and "a = Inr x"
  obtains y where "b = Inr y" and "R x y"
  using assms by (cases b) auto

lemma rel_sum_InlD:
  assumes "rel_sum (=) R a b" and "a = Inl e"
  shows "b = Inl e"
  using assms by (cases b) auto

lemma EncoderDecoder_forward_agree:
  assumes nn: "same_layers nn1 nn2"
      and dr: "d \<longrightarrow> Dropout_call nn1 = Dropout_call nn2 \<and> r1 = r2"
      and ag: "model_agree d m1 m2"
  shows "map_sum id fst (EncoderDecoder_forward nn1 m1 r1 X)
       = map_sum id fst (EncoderDecoder_forward nn2 m2 r2 X)"
proof -
  define src where "src = slice1 None (Some (input_len m1)) X"
  from ag have il: "input_len m2 = input_len m1" and tl: "target_len m2 = target_len m1"
    and nf: "n_features (encoder m2) = n_features (encoder m1)"
    and ea: "enc_agree d (encoder m1) (encoder m2)"
    and da: "dec_agree d (decoder m1) (decoder m2)"
    by (simp_all add: model_agree_def)
  have E: "rel_sum (=) (agree_run d)
      (Encoder_forward nn1 (encoder m1) r1 src) (Encoder_forward nn2 (encoder m2) r2 src)"
    by (rule Encoder_forward_agree [OF nn dr ea])
  have unf: "EncoderDecoder_forward nn m r X =
      and_then (torch_zeros (int (fst (shape X))) (target_len m) (n_features (encoder m)))
        (\<lambda>z. and_then (Encoder_forward nn (encoder m) r (slice1 None (Some (input_len m)) X))
        (\<lambda>((hidden_seq, cell_state'), enc, rng).
          and_then (init_hidden nn (decoder m) hidden_seq cell_state')
          (\<lambda>dec. and_then (Decoder_forward nn dec rng (slice1 None (Some (input_len m)) X))
          (\<lambda>(output, dec, rng).
             Inr (output, m\<lparr>outputs := Some z, encoder := enc, decoder := dec\<rparr>, rng)))))"
    for nn :: "('a, 'b, 'c) torch" and m r
    by (cases "torch_zeros (int (fst (shape X))) (target_len m) (n_features (encoder m))
                 :: error + 'a tensor")
       (simp_all add: EncoderDecoder_forward_def init_outputs_def Let_def)
  show ?thesis
  proof (cases "torch_zeros (int (fst (shape X))) (target_len m1) (n_features (encoder m1))
                 :: error + 'a tensor")
    case (Inl e)
    then show ?thesis by (simp add: unf il tl nf)
  next
    case z: (Inr z)
    show ?thesis
    proof (cases "Encoder_forward nn1 (encoder m1) r1 src")
      case (Inl e)
      from rel_sum_InlD [OF E this] Inl show ?thesis
        by (simp add: unf il tl nf z src_def)
    next
      case (Inr p)
      from rel_sum_InrE [OF E this] obtain q where
        q: "Encoder_forward nn2 (encoder m2) r2 src = Inr q" and pq: "agree_run d p q" .
      obtain hs c e1 ra where p: "p = ((hs, c), e1, ra)" by (cases p) auto
      obtain hs' c' e2 rb where q': "q = ((hs', c'), e2, rb)" by (cases q) auto
      from pq have same: "hs' = hs" "c' = c" and rr: "d \<longrightarrow> ra = rb"
        unfolding p q' by (simp_all add: agree_run_def)
      have I: "rel_sum (=) (agree d)
          (init_hidden nn1 (decoder m1) hs c) (init_hidden nn2 (decoder m2) hs c)"
        by (rule init_hidden_agree [OF nn da])
      show ?thesis
      proof (cases "init_hidden nn1 (decoder m1) hs c")
        case (Inl e)
        from rel_sum_InlD [OF I this] Inl show ?thesis
          using Inr q by (simp add: unf il tl nf z src_def [symmetric] p q' same)
      next
        case i1: (Inr d1)
        from rel_sum_InrE [OF I this] obtain d2 where
          i2: "init_hidden nn2 (decoder m2) hs c = Inr d2" and dd: "agree d d1 d2" .
        have dr': "d \<longrightarrow> Dropout_call nn1 = Dropout_call nn2 \<and> ra = rb"
          using dr rr by blast
        have D: "rel_sum (=) (agree_run d)
            (Decoder_forward nn1 d1 ra src) (Decoder_forward nn2 d2 rb src)"
          by (rule Decoder_forward_agree [OF nn dr' dd])
        show ?thesis
        proof (cases "Decoder_forward nn1 d1 ra src")
          case (Inl e)
          from rel_sum_InlD [OF D this] Inl show ?thesis
            using Inr q i1 i2
            by (simp add: unf il tl nf z src_def [symmetric] p q' same)
        next
          case f1: (Inr u)
          from rel_sum_InrE [OF D this] obtain v where
            f2: "Decoder_forward nn2 d2 rb src = Inr v" and uv: "agree_run d u v" .
          obtain o1 x1 y1 where u: "u = (o1, x1, y1)" by (cases u)
          obtain o2 x2 y2 where v: "v = (o2, x2, y2)" by (cases v)
          from uv have "o2 = o1" unfolding u v by (simp add: agree_run_def)
          then show ?thesis
            using Inr q i1 i2 f1 f2
            by (simp add: unf il tl nf z src_def [symmetric] p q' same u v)
        qed
      qed
    qed
  qed
qed

section \<open>Dropout\<close>

lemma agree_run_fst:
  assumes "rel_sum (=) (agree_run d) a b"
  shows "map_sum id fst a = map_sum id fst b"
  using assms by (cases a; cases b) (auto simp: agree_run_def)

lemma same_layers_refl [simp]: "same_layers nn nn"
  by (simp add: same_layers_def)

lemma Encoder_init_dropouts:
  "dropouts (Encoder_init ie F H k n p nz) \<noteq> [] \<longleftrightarrow> 1 < n \<and> 0 < p"
  by (auto simp: Encoder_init_def)

lemma Decoder_init_dropouts:
  "dropouts (Decoder_init idc F H k n p nz heads) \<noteq> [] \<longleftrightarrow> 1 < n \<and> 0 < p"
  by (auto simp: Decoder_init_def)

lemma Encoder_init_agree:
  "agree False ((Encoder_init ie F H k 1 p nz)\<lparr>training := t, hidden := h, cell_state := c\<rparr>)
               ((Encoder_init ie F H k 1 p' nz)\<lparr>training := t', hidden := h, cell_state := c\<rparr>)"
  by (simp add: agree_def Encoder_init_def)

lemma Decoder_init_agree:
  "agree False
     ((Decoder_init idc F H k 1 p nz heads)
        \<lparr>training := t, hidden := h, cell_state := c, attn_keys := ak, attn_values := av\<rparr>)
     ((Decoder_init idc F H k 1 p' nz heads)
        \<lparr>training := t', hidden := h, cell_state := c, attn_keys := ak, attn_values := av\<rparr>)"
  by (simp add: agree_def Decoder_init_def)

text \<open>
  C9. An \<^verbatim>\<open>Encoder\<close> or \<^verbatim>\<open>Decoder\<close> built with \<^verbatim>\<open>num_rnn_layers = 1\<close> has no dropout
  modules, whatever the dropout argument; dropout modules exist exactly when
  \<^verbatim>\<open>num_rnn_layers > 1\<close> and \<^verbatim>\<open>dropout > 0\<close>. So with one layer the result of
  \<^verbatim>\<open>forward\<close> (the output, or the error) is the same for every dropout argument, in
  training mode and out of it, for every state of the random generator and whatever a
  dropout module would compute: dropout is never applied.
\<close>

theorem single_layer_never_drops:
  "dropouts (Encoder_init ie F H k 1 p nz) = []
   \<and> dropouts (Decoder_init idc F H k 1 p nz heads) = []
   \<and> (dropouts (Encoder_init ie F H k n p nz) \<noteq> [] \<longleftrightarrow> 1 < n \<and> 0 < p)
   \<and> (dropouts (Decoder_init idc F H k n p nz heads) \<noteq> [] \<longleftrightarrow> 1 < n \<and> 0 < p)
   \<and> (same_layers nn nn' \<longrightarrow>
         map_sum id fst
           (Encoder_forward nn
              ((Encoder_init ie F H k 1 p nz)\<lparr>training := t, hidden := h, cell_state := c\<rparr>) r X)
         = map_sum id fst
           (Encoder_forward nn'
              ((Encoder_init ie F H k 1 p' nz)\<lparr>training := t', hidden := h, cell_state := c\<rparr>)
              r' X)
       \<and> map_sum id fst
           (Decoder_forward nn
              ((Decoder_init idc F H k 1 p nz heads)
                 \<lparr>training := t, hidden := h, cell_state := c,
                  attn_keys := ak, attn_values := av\<rparr>) r X)
         = map_sum id fst
           (Decoder_forward nn'
              ((Decoder_init idc F H k 1 p' nz heads)
                 \<lparr>training := t', hidden := h, cell_state := c,
                  attn_keys := ak, attn_values := av\<rparr>) r' X))"
proof -
  have d0: "dropouts (Encoder_init ie F H k 1 p nz) = []"
    "dropouts (Decoder_init idc F H k 1 p nz heads) = []"
    using Encoder_init_dropouts [of ie F H k 1 p nz]
      Decoder_init_dropouts [of idc F H k 1 p nz heads] by simp_all
  have fw: "map_sum id fst
           (Encoder_forward nn
              ((Encoder_init ie F H k 1 p nz)\<lparr>training := t, hidden := h, cell_state := c\<rparr>) r X)
         = map_sum id fst
           (Encoder_forward nn'
              ((Encoder_init ie F H k 1 p' nz)\<lparr>training := t', hidden := h, cell_state := c\<rparr>)
              r' X)
       \<and> map_sum id fst
           (Decoder_forward nn
              ((Decoder_init idc F H k 1 p nz heads)
                 \<lparr>training := t, hidden := h, cell_state := c,
                  attn_keys := ak, attn_values := av\<rparr>) r X)
         = map_sum id fst
           (Decoder_forward nn'
              ((Decoder_init idc F H k 1 p' nz heads)
                 \<lparr>training := t', hidden := h, cell_state := c,
                  attn_keys := ak, attn_values := av\<rparr>) r' X)"
    if nn: "same_layers nn nn'"
  proof -
    have ea: "enc_agree False
        ((Encoder_init ie F H k 1 p nz)\<lparr>training := t, hidden := h, cell_state := c\<rparr>)
        ((Encoder_init ie F H k 1 p' nz)\<lparr>training := t', hidden := h, cell_state := c\<rparr>)"
      by (simp add: enc_agree_def agree_def Encoder_init_def)
    have "rel_sum (=) (agree_run False)
        (Encoder_forward nn
              ((Encoder_init ie F H k 1 p nz)\<lparr>training := t, hidden := h, cell_state := c\<rparr>) r X)
        (Encoder_forward nn'
              ((Encoder_init ie F H k 1 p' nz)\<lparr>training := t', hidden := h, cell_state := c\<rparr>)
              r' X)"
      by (rule Encoder_forward_agree [OF nn _ ea]) simp
    moreover have "rel_sum (=) (agree_run False)
        (Decoder_forward nn
              ((Decoder_init idc F H k 1 p nz heads)
                 \<lparr>training := t, hidden := h, cell_state := c,
                  attn_keys := ak, attn_values := av\<rparr>) r X)
        (Decoder_forward nn'
              ((Decoder_init idc F H k 1 p' nz heads)
                 \<lparr>training := t', hidden := h, cell_state := c,
                  attn_keys := ak, attn_values := av\<rparr>) r' X)"
      by (rule Decoder_forward_agree [OF nn _ Decoder_init_agree]) simp
    ultimately show ?thesis
      by (simp add: agree_run_fst)
  qed
  show ?thesis
    using d0 fw Encoder_init_dropouts [of ie F H k n p nz]
      Decoder_init_dropouts [of idc F H k n p nz heads]
    by blast
qed

lemma same_layers_dropping: "same_layers zero_torch dropping_torch"
  by (simp add: same_layers_def dropping_torch_def)

theorem single_layer_never_drops_witness:
  "same_layers zero_torch dropping_torch
   \<and> Dropout_call zero_torch \<noteq> Dropout_call dropping_torch
   \<and> map_sum id fst
        (Encoder_forward zero_torch
           ((Encoder_init (\<lambda>a i. ()) 2 8 nn_GRU 1 0 None)
              \<lparr>training := False, hidden := None, cell_state := None\<rparr>) ()
           example_input)
      = map_sum id fst
        (Encoder_forward dropping_torch
           ((Encoder_init (\<lambda>a i. ()) 2 8 nn_GRU 1 (1 / 2) None)
              \<lparr>training := True, hidden := None, cell_state := None\<rparr>) ()
           example_input)"
proof -
  have ne: "Dropout_call zero_torch \<noteq> Dropout_call dropping_torch"
  proof
    assume "Dropout_call zero_torch = Dropout_call dropping_torch"
    then have "fst (Dropout_call zero_torch (Dropout 1) () example_input)
             = fst (Dropout_call dropping_torch (Dropout 1) () example_input)"
      by simp
    then have "elem example_input 0 0 1 = elem (zeros (shape example_input) :: int tensor) 0 0 1"
      by (simp add: zero_torch_def dropping_torch_def)
    then show False
      by (simp add: example_input_def zeros_def)
  qed
  from single_layer_never_drops [where ie = "\<lambda>a i. ()" and F = 2 and H = 8 and k = nn_GRU
      and p = 0 and nz = None and nn = zero_torch and nn' = dropping_torch and t = False
      and h = None and c = None and r = "()" and X = example_input and p' = "1 / 2"
      and t' = True and r' = "()"]
    same_layers_dropping ne
  show ?thesis by blast
qed

section \<open>The cell normalization\<close>

lemma apply_normalization_cell_state:
  assumes c: "cell_state self = Some c" and cn: "cell_normalization self \<noteq> None"
      and run: "apply_normalization nn self t = Inr (out, self')"
  shows "\<exists>y m cn m'.
           call_norm nn (out_normalization self)
             (if is_BatchNorm1d (out_normalization self) then permute 0 2 1 t else t) = Inr (y, m)
         \<and> call_norm nn m
             (if is_BatchNorm1d (out_normalization self) then permute 1 2 0 c else c) = Inr (cn, m')
         \<and> cell_state self'
             = Some (if is_BatchNorm1d (out_normalization self) then permute 2 0 1 cn else cn)
         \<and> out_normalization self' = m'
         \<and> cell_normalization self' = cell_normalization self"
proof -
  let ?bn = "is_BatchNorm1d (out_normalization self)"
  from run obtain t1 s1 y s2 s3 s4 where
    st1: "permute_in self t = Inr (t1, s1)" and
    st2: "normalize_output nn s1 t1 = Inr (y, s2)" and
    st3: "normalize_hidden nn s2 = Inr s3" and
    st4: "normalize_cell_state nn s3 = Inr s4" and
    st5: "permute_out s4 y = Inr (out, self')"
    by (rule apply_normalization_Inr)
  from permute_in_Inr [OF st1] c have
    t1: "t1 = (if ?bn then permute 0 2 1 t else t)" and
    c1: "cell_state s1 = Some (if ?bn then permute 1 2 0 c else c)" and
    o1: "out_normalization s1 = out_normalization self" and
    n1: "cell_normalization s1 = cell_normalization self"
    by (auto split: if_splits)
  from normalize_output_Inr [OF st2] obtain m where
    m: "call_norm nn (out_normalization s1) t1 = Inr (y, m)" and
    s2: "s2 = s1\<lparr>out_normalization := m\<rparr>"
    by auto
  from normalize_hidden_Inr [OF st3] have
    c3: "cell_state s3 = cell_state s1" and o3: "out_normalization s3 = m" and
    n3: "cell_normalization s3 = cell_normalization self"
    by (auto simp: s2 n1 split: option.splits)
  from normalize_cell_state_Inr [OF st4] c3 c1 n3 cn o3 obtain c' m' where
    c': "call_norm nn m (if ?bn then permute 1 2 0 c else c) = Inr (c', m')" and
    s4: "s4 = s3\<lparr>cell_state := Some c', out_normalization := m'\<rparr>"
    by (auto split: if_splits)
  have bn4: "is_BatchNorm1d (out_normalization s4) = ?bn"
    using call_norm_is_BatchNorm1d [OF c'] call_norm_is_BatchNorm1d [OF m]
    by (simp add: s4 o1)
  from permute_out_Inr [OF st5] have
    c5: "cell_state self' = Some (if ?bn then permute 2 0 1 c' else c')" and
    o5: "out_normalization self' = m'" and
    n5: "cell_normalization self' = cell_normalization self"
    unfolding bn4 by (auto simp: s4 n3 split: if_splits)
  from m c' c5 o5 n5 show ?thesis
    unfolding o1 t1 by blast
qed

lemma agree_cell_normalization:
  "cell_normalization s \<noteq> None \<Longrightarrow> agree True (s\<lparr>cell_normalization := Some cm\<rparr>) s"
  by (simp add: agree_def)

text \<open>
  C10. When \<^verbatim>\<open>__apply_normalization\<close> normalizes the cell state (a cell state is stored
  and \<^verbatim>\<open>cell_normalization\<close> is set), the module it calls is \<^verbatim>\<open>out_normalization\<close>, in
  the state the normalization of the output left it in; \<^verbatim>\<open>cell_normalization\<close> is only
  tested against \<open>None\<close>. So replacing the cell normalization by any other module changes
  neither what \<^verbatim>\<open>__apply_normalization\<close> returns and stores nor the result of a forward
  pass of the whole model.
\<close>

theorem cell_normalization_is_unused:
  "(cell_state self = Some c \<and> cell_normalization self \<noteq> None
      \<and> apply_normalization nn self t = Inr (out, self') \<longrightarrow>
      (\<exists>y m cn m'.
           call_norm nn (out_normalization self)
             (if is_BatchNorm1d (out_normalization self) then permute 0 2 1 t else t) = Inr (y, m)
         \<and> call_norm nn m
             (if is_BatchNorm1d (out_normalization self) then permute 1 2 0 c else c) = Inr (cn, m')
         \<and> cell_state self'
             = Some (if is_BatchNorm1d (out_normalization self) then permute 2 0 1 cn else cn)
         \<and> out_normalization self' = m'
         \<and> cell_normalization self' = cell_normalization self))
   \<and> (cell_normalization self \<noteq> None \<longrightarrow>
         map_sum id (\<lambda>(out, s). (out, hidden s, cell_state s, out_normalization s,
                                  hidden_normalization s))
           (apply_normalization nn (self\<lparr>cell_normalization := Some cm\<rparr>) t)
         = map_sum id (\<lambda>(out, s). (out, hidden s, cell_state s, out_normalization s,
                                    hidden_normalization s))
           (apply_normalization nn self t))
   \<and> (cell_normalization (encoder m) \<noteq> None \<and> cell_normalization (decoder m) \<noteq> None \<longrightarrow>
         map_sum id fst
           (EncoderDecoder_forward nn
              (m\<lparr>encoder := (encoder m)\<lparr>cell_normalization := Some cm1\<rparr>,
                 decoder := (decoder m)\<lparr>cell_normalization := Some cm2\<rparr>\<rparr>) r X)
         = map_sum id fst (EncoderDecoder_forward nn m r X))"
proof -
  have b: "map_sum id (\<lambda>(out, s). (out, hidden s, cell_state s, out_normalization s,
                                  hidden_normalization s))
           (apply_normalization nn (self\<lparr>cell_normalization := Some cm\<rparr>) t)
         = map_sum id (\<lambda>(out, s). (out, hidden s, cell_state s, out_normalization s,
                                    hidden_normalization s))
           (apply_normalization nn self t)"
    if "cell_normalization self \<noteq> None"
  proof -
    have "rel_sum (=) (rel_prod (=) (agree True))
        (apply_normalization nn (self\<lparr>cell_normalization := Some cm\<rparr>) t)
        (apply_normalization nn self t)"
      by (rule apply_normalization_agree [OF same_layers_refl agree_cell_normalization [OF that]])
    then show ?thesis
      by (cases "apply_normalization nn (self\<lparr>cell_normalization := Some cm\<rparr>) t";
          cases "apply_normalization nn self t") (auto simp: agree_def)
  qed
  have c: "map_sum id fst
           (EncoderDecoder_forward nn
              (m\<lparr>encoder := (encoder m)\<lparr>cell_normalization := Some cm1\<rparr>,
                 decoder := (decoder m)\<lparr>cell_normalization := Some cm2\<rparr>\<rparr>) r X)
         = map_sum id fst (EncoderDecoder_forward nn m r X)"
    if "cell_normalization (encoder m) \<noteq> None" "cell_normalization (decoder m) \<noteq> None"
  proof -
    have "model_agree True
        (m\<lparr>encoder := (encoder m)\<lparr>cell_normalization := Some cm1\<rparr>,
           decoder := (decoder m)\<lparr>cell_normalization := Some cm2\<rparr>\<rparr>) m"
      using that by (simp add: model_agree_def enc_agree_def dec_agree_def agree_def)
    from EncoderDecoder_forward_agree [OF same_layers_refl _ this, of nn r r X]
    show ?thesis by simp
  qed
  from apply_normalization_cell_state [of self c nn t out self'] b c
  show ?thesis by blast
qed

theorem cell_normalization_is_unused_witness:
  "cell_state example_lstm_encoder = Some example_state
   \<and> cell_normalization example_lstm_encoder \<noteq> None
   \<and> apply_normalization zero_torch example_lstm_encoder example_hidden_seq
       = Inr (example_hidden_seq, example_lstm_encoder)
   \<and> cell_normalization (encoder example_normalized_model) \<noteq> None
   \<and> cell_normalization (decoder example_normalized_model) \<noteq> None
   \<and> (\<exists>cn m'. call_norm zero_torch (out_normalization example_lstm_encoder)
                  (permute 1 2 0 example_state) = Inr (cn, m')
         \<and> cell_state example_lstm_encoder = Some (permute 2 0 1 cn))
   \<and> map_sum id fst
        (EncoderDecoder_forward zero_torch
           (example_normalized_model
              \<lparr>encoder := (encoder example_normalized_model)
                  \<lparr>cell_normalization := Some (Norm BatchNorm1d 3 ())\<rparr>,
               decoder := (decoder example_normalized_model)
                  \<lparr>cell_normalization := Some (Norm BatchNorm1d 5 ())\<rparr>\<rparr>) () example_input)
      = map_sum id fst (EncoderDecoder_forward zero_torch example_normalized_model () example_input)"
proof -
  have cs: "cell_state example_lstm_encoder = Some example_state"
    and cn: "cell_normalization example_lstm_encoder \<noteq> None"
    and bn: "is_BatchNorm1d (out_normalization example_lstm_encoder)"
    by (simp_all add: example_lstm_encoder_def Encoder_init_def new_norm_def)
  have mn: "cell_normalization (encoder example_normalized_model) \<noteq> None"
    "cell_normalization (decoder example_normalized_model) \<noteq> None"
    by (simp_all add: example_normalized_model_def EncoderDecoder_init_def Encoder_init_def
        Decoder_init_def new_norm_def)
  have same: "call_norm zero_torch (out_normalization example_lstm_encoder) x
      = Inr (y, m) \<Longrightarrow> m = out_normalization example_lstm_encoder" for x y m
    by (auto simp: example_lstm_encoder_def Encoder_init_def new_norm_def zero_torch_def
        split: prod.splits if_splits)
  note run = example_normalization_run
  note th = cell_normalization_is_unused
    [where self = example_lstm_encoder and c = example_state and nn = zero_torch
      and t = example_hidden_seq and out = example_hidden_seq and self' = example_lstm_encoder
      and m = example_normalized_model and ?cm1.0 = "Norm BatchNorm1d 3 ()"
      and ?cm2.0 = "Norm BatchNorm1d 5 ()" and r = "()" and X = example_input]
  from th cs cn run obtain y m cn' m' where
    a: "call_norm zero_torch (out_normalization example_lstm_encoder)
         (if is_BatchNorm1d (out_normalization example_lstm_encoder)
          then permute 0 2 1 example_hidden_seq else example_hidden_seq) = Inr (y, m)" and
    b: "call_norm zero_torch m
         (if is_BatchNorm1d (out_normalization example_lstm_encoder)
          then permute 1 2 0 example_state else example_state) = Inr (cn', m')" and
    c: "cell_state example_lstm_encoder
         = Some (if is_BatchNorm1d (out_normalization example_lstm_encoder)
                 then permute 2 0 1 cn' else cn')"
    by blast
  have m: "m = out_normalization example_lstm_encoder"
    by (rule same [OF a])
  have ex: "\<exists>cn m'. call_norm zero_torch (out_normalization example_lstm_encoder)
                  (permute 1 2 0 example_state) = Inr (cn, m')
         \<and> cell_state example_lstm_encoder = Some (permute 2 0 1 cn)"
    using b c unfolding m if_P [OF bn] by blast
  have fw: "map_sum id fst
        (EncoderDecoder_forward zero_torch
           (example_normalized_model
              \<lparr>encoder := (encoder example_normalized_model)
                  \<lparr>cell_normalization := Some (Norm BatchNorm1d 3 ())\<rparr>,
               decoder := (decoder example_normalized_model)
                  \<lparr>cell_normalization := Some (Norm BatchNorm1d 5 ())\<rparr>\<rparr>) () example_input)
      = map_sum id fst (EncoderDecoder_forward zero_torch example_normalized_model () example_input)"
    using th mn by blast
  from cs cn run mn ex fw show ?thesis by blast
qed

section \<open>Determinism\<close>

lemma normalize_and_dropout_rng:
  assumes "dropouts s = []" and "normalize_and_dropout nn i s r t = Inr (out, s', r')"
  shows "r' = r"
proof -
  from assms(2) obtain t1 s1 where
    a: "(if out_normalization s \<noteq> None then apply_normalization nn s t else Inr (t, s))
          = Inr (t1, s1)" and
    b: "(if length (dropouts s1) > 0 \<and> training s1 then apply_dropout nn i s1 r t1
         else Inr (t1, s1, r)) = Inr (out, s', r')"
    by (auto simp: normalize_and_dropout_def and_then_eq_Inr)
  have "keeps_states s s1"
    using a by (auto split: if_splits dest: apply_normalization_keeps)
  then have "dropouts s1 = []"
    using assms(1) by (simp add: keeps_states_def keeps_modules_def)
  with b show ?thesis by simp
qed

lemma rnn_layers_rng:
  assumes "dropouts s = []" and "rnn_layers nn i rs s r t = Inr (out, s', r')"
  shows "r' = r"
  using assms
proof (induction rs arbitrary: i s r t)
  case Nil
  then show ?case by simp
next
  case (Cons m rs)
  from Cons.prems(2) obtain t1 s1 t2 s2 r2 where
    c: "call_rnn nn m t (Some (hidden s, cell_state s)) s = Inr (t1, s1)" and
    n: "normalize_and_dropout nn i s1 r t1 = Inr (t2, s2, r2)" and
    rest: "rnn_layers nn (Suc i) rs s2 r2 t2 = Inr (out, s', r')"
    by (auto split: sum.splits)
  have d1: "dropouts s1 = []"
    using call_rnn_keeps [OF c] Cons.prems(1) by (simp add: keeps_modules_def)
  have d2: "dropouts s2 = []"
    using normalize_and_dropout_keeps [OF n] d1 by (simp add: keeps_states_def keeps_modules_def)
  have "r2 = r" by (rule normalize_and_dropout_rng [OF d1 n])
  moreover have "r' = r2" by (rule Cons.IH [OF d2 rest])
  ultimately show ?case by simp
qed

lemma Encoder_forward_rng:
  assumes "dropouts e = []" and "Encoder_forward nn e r X = Inr (res, e', r')"
  shows "r' = r"
proof -
  obtain out c where res: "res = (out, c)" by (cases res)
  from assms(2) obtain t1 s1 t2 s2 r2 where
    st: "call_rnn nn (basic_rnn e) X None e = Inr (t1, s1)"
    "normalize_and_dropout nn 0 s1 r t1 = Inr (t2, s2, r2)"
    "rnn_layers nn 1 (rnns s2) s2 r2 t2 = Inr (out, e', r')"
    unfolding res by (rule Encoder_forward_Inr)
  have d1: "dropouts s1 = []"
    using call_rnn_keeps [OF st(1)] assms(1) by (simp add: keeps_modules_def)
  have d2: "dropouts s2 = []"
    using normalize_and_dropout_keeps [OF st(2)] d1
    by (simp add: keeps_states_def keeps_modules_def)
  show ?thesis
    using normalize_and_dropout_rng [OF d1 st(2)] rnn_layers_rng [OF d2 st(3)] by simp
qed

lemma Decoder_forward_rng:
  assumes "dropouts e = []" and "Decoder_forward nn e r X = Inr (out, e', r')"
  shows "r' = r"
proof -
  from assms(2) obtain t1 s1 t2 s2 r2 t3 where
    st: "call_rnn nn (basic_rnn e) X (Some (hidden e, cell_state e)) e = Inr (t1, s1)"
    "normalize_and_dropout nn 0 s1 r t1 = Inr (t2, s2, r2)"
    "rnn_layers nn 1 (rnns s2) s2 r2 t2 = Inr (t3, e', r')"
    by (rule Decoder_forward_Inr)
  have d1: "dropouts s1 = []"
    using call_rnn_keeps [OF st(1)] assms(1) by (simp add: keeps_modules_def)
  have d2: "dropouts s2 = []"
    using normalize_and_dropout_keeps [OF st(2)] d1
    by (simp add: keeps_states_def keeps_modules_def)
  show ?thesis
    using normalize_and_dropout_rng [OF d1 st(2)] rnn_layers_rng [OF d2 st(3)] by simp
qed

lemma agree_sym: "agree d s1 s2 \<Longrightarrow> agree d s2 s1"
  by (auto simp: agree_def split: if_splits)

lemma agree_trans: "agree d s1 s2 \<Longrightarrow> agree d s2 s3 \<Longrightarrow> agree d s1 s3"
  by (auto simp: agree_def split: if_splits)

lemma model_agree_sym:
  assumes "model_agree d m1 m2"
  shows "model_agree d m2 m1"
proof -
  from assms have e: "enc_agree d (encoder m1) (encoder m2)"
    and c: "dec_agree d (decoder m1) (decoder m2)"
    and r: "input_len m1 = input_len m2" "target_len m1 = target_len m2"
      "n_features (encoder m1) = n_features (encoder m2)"
    by (simp_all add: model_agree_def)
  have "enc_agree d (encoder m2) (encoder m1)"
    using e unfolding enc_agree_def by (rule agree_sym)
  moreover have "dec_agree d (decoder m2) (decoder m1)"
    using c unfolding dec_agree_def by (rule agree_sym)
  ultimately show ?thesis
    using r by (simp add: model_agree_def)
qed

lemma model_agree_trans:
  assumes "model_agree d m1 m2" and "model_agree d m2 m3"
  shows "model_agree d m1 m3"
proof -
  from assms(1) have e: "enc_agree d (encoder m1) (encoder m2)"
    and c: "dec_agree d (decoder m1) (decoder m2)"
    and r: "input_len m1 = input_len m2" "target_len m1 = target_len m2"
      "n_features (encoder m1) = n_features (encoder m2)"
    by (simp_all add: model_agree_def)
  from assms(2) have e': "enc_agree d (encoder m2) (encoder m3)"
    and c': "dec_agree d (decoder m2) (decoder m3)"
    and r': "input_len m2 = input_len m3" "target_len m2 = target_len m3"
      "n_features (encoder m2) = n_features (encoder m3)"
    by (simp_all add: model_agree_def)
  have "enc_agree d (encoder m1) (encoder m3)"
    using e e' unfolding enc_agree_def by (rule agree_trans)
  moreover have "dec_agree d (decoder m1) (decoder m3)"
    using c c' unfolding dec_agree_def by (rule agree_trans)
  ultimately show ?thesis
    using r r' by (simp add: model_agree_def)
qed

lemma init_hidden_no_attn:
  assumes "attn d = None"
  shows "init_hidden nn d hs c
       = Inr (d\<lparr>hidden := Some (permute 1 0 2 (slice1 (Some (- 1)) None hs)),
                cell_state := Some (case c of
                   None \<Rightarrow> zeros (shape (permute 1 0 2 (slice1 (Some (- 1)) None hs)))
                 | Some c \<Rightarrow> c)\<rparr>)"
  using assms by (cases c) (simp_all add: init_hidden_def Let_def)


lemma plain_model:
  assumes "create_encoder_decoder_model ie idc F H k n L tf 0 None 0 = Inr m"
  shows "out_normalization (encoder m) = None" "hidden_normalization (encoder m) = None"
    "dropouts (encoder m) = []" "cell_state (encoder m) = None"
    "rnn_type (basic_rnn (encoder m)) = k" "\<forall>x\<in>set (rnns (encoder m)). rnn_type x = k"
    "out_normalization (decoder m) = None" "hidden_normalization (decoder m) = None"
    "dropouts (decoder m) = []" "attn (decoder m) = None"
  unfolding created_model(1) [OF assms] created_model(2) [OF assms]
  by (auto simp: Encoder_init_def Decoder_init_def new_norm_def)

lemma plain_model_agree_refl:
  assumes "create_encoder_decoder_model ie idc F H k n L tf 0 None 0 = Inr m"
  shows "model_agree False m m"
  using plain_model(3,9) [OF assms]
  by (simp add: model_agree_def enc_agree_def dec_agree_def agree_def)

lemma plain_model_step:
  assumes mk: "create_encoder_decoder_model ie idc F H k n L tf 0 None 0 = Inr m"
      and ag: "model_agree False m ma"
      and run: "EncoderDecoder_forward nn ma ra X = Inr (out, ma', r')"
  shows "model_agree False m ma' \<and> r' = ra"
proof -
  note pm = plain_model [OF mk]
  from ag have ea: "enc_agree False (encoder m) (encoder ma)"
    and da: "dec_agree False (decoder m) (decoder ma)"
    and il: "input_len m = input_len ma" "target_len m = target_len ma"
      "n_features (encoder m) = n_features (encoder ma)"
    by (simp_all add: model_agree_def)
  from ea pm have e0: "out_normalization (encoder ma) = None"
    "hidden_normalization (encoder ma) = None" "dropouts (encoder ma) = []"
    "basic_rnn (encoder ma) = basic_rnn (encoder m)" "rnns (encoder ma) = rnns (encoder m)"
    "cell_normalization (encoder ma) = None \<longleftrightarrow> cell_normalization (encoder m) = None"
    "k \<noteq> nn_LSTM \<longrightarrow> cell_state (encoder ma) = None"
    by (auto simp: enc_agree_def agree_def split: if_splits)
  from da pm have d0: "out_normalization (decoder ma) = None"
    "hidden_normalization (decoder ma) = None" "dropouts (decoder ma) = []"
    "basic_rnn (decoder ma) = basic_rnn (decoder m)" "rnns (decoder ma) = rnns (decoder m)"
    "cell_normalization (decoder ma) = None \<longleftrightarrow> cell_normalization (decoder m) = None"
    "Encoder.more (decoder ma) = Encoder.more (decoder m)"
    by (auto simp: dec_agree_def agree_def)
  have at: "attn (decoder ma) = None"
    using more_eq_Decoder(1) [OF d0(7)] pm(10) by simp
  from run obtain z hidden_seq c enc r1 dec0 dec where
    e: "Encoder_forward nn (encoder ma) ra (slice1 None (Some (input_len ma)) X)
       = Inr ((hidden_seq, c), enc, r1)" and
    i: "init_hidden nn (decoder ma) hidden_seq c = Inr dec0" and
    d: "Decoder_forward nn dec0 r1 (slice1 None (Some (input_len ma)) X) = Inr (out, dec, r')" and
    ma': "ma' = ma\<lparr>outputs := Some z, encoder := enc, decoder := dec\<rparr>"
    by (rule EncoderDecoder_forward_Inr)
  note ek = Encoder_forward_keeps [OF e]
  have r1: "r1 = ra"
    by (rule Encoder_forward_rng [OF e0(3) e])
  have dec0: "dec0 = (decoder ma)
      \<lparr>hidden := Some (permute 1 0 2 (slice1 (Some (- 1)) None hidden_seq)),
       cell_state := Some (case c of
           None \<Rightarrow> zeros (shape (permute 1 0 2 (slice1 (Some (- 1)) None hidden_seq)))
         | Some c \<Rightarrow> c)\<rparr>"
    using i unfolding init_hidden_no_attn [OF at] by simp
  have dd: "dropouts dec0 = []"
    by (simp add: dec0 d0)
  have r': "r' = ra"
    using Decoder_forward_rng [OF dd d] r1 by simp
  note dk = Decoder_forward_keeps [OF d]
  have cell: "rnn_type (basic_rnn (encoder ma)) \<noteq> nn_LSTM \<longrightarrow> cell_state enc = None"
    using ek e0 pm(5,6) by auto
  have enc: "enc_agree False (encoder m) enc"
    using ea ek cell e0 pm
    by (auto simp: enc_agree_def agree_def keeps_modules_def split: if_splits)
  have dec: "dec_agree False (decoder m) dec"
    using da dk d0 pm
    by (auto simp: dec_agree_def agree_def keeps_modules_def dec0)
  have nf: "n_features enc = n_features (encoder ma)"
    using ek by (simp add: keeps_modules_def)
  have "model_agree False m ma'"
    using enc dec il nf by (simp add: model_agree_def ma')
  with r' show ?thesis by simp
qed

text \<open>
  C5. Let \<open>m\<close> be a model built with normalization disabled, \<^verbatim>\<open>dropout = 0\<close> and
  \<^verbatim>\<open>narrow_attn_heads = 0\<close>, and let \<open>ma\<close> and \<open>mb\<close> be states of it: objects with the
  modules and weights of \<open>m\<close>, whatever their stored hidden and cell states, their buffer
  \<^verbatim>\<open>outputs\<close> and their training flags are (\<open>model_agree False\<close>; \<open>m\<close> itself is one).
  Then \<^verbatim>\<open>forward\<close> on the same input gives the same result from \<open>ma\<close> and from \<open>mb\<close>,
  the same output or the same error, for any two states of the random generator; and a
  call that returns leaves a state of \<open>m\<close> again and the random generator as it was. So
  any two calls of \<^verbatim>\<open>forward\<close> on the same input return equal outputs.
\<close>

theorem forward_is_deterministic:
  assumes mk: "create_encoder_decoder_model ie idc F H k n L tf 0 None 0 = Inr m"
      and a: "model_agree False m ma" and b: "model_agree False m mb"
  shows "model_agree False m m
       \<and> map_sum id fst (EncoderDecoder_forward nn ma ra X)
         = map_sum id fst (EncoderDecoder_forward nn mb rb X)
       \<and> (\<forall>out ma' r'. EncoderDecoder_forward nn ma ra X = Inr (out, ma', r')
             \<longrightarrow> model_agree False m ma' \<and> r' = ra)"
proof -
  have "model_agree False ma mb"
    using model_agree_trans [OF model_agree_sym [OF a] b] .
  from EncoderDecoder_forward_agree [OF same_layers_refl _ this, of nn ra rb X]
  have "map_sum id fst (EncoderDecoder_forward nn ma ra X)
         = map_sum id fst (EncoderDecoder_forward nn mb rb X)"
    by simp
  moreover have "model_agree False m ma' \<and> r' = ra"
    if "EncoderDecoder_forward nn ma ra X = Inr (out, ma', r')" for out ma' r'
    using that by (rule plain_model_step [OF mk a])
  moreover note plain_model_agree_refl [OF mk]
  ultimately show ?thesis by blast
qed

theorem forward_is_deterministic_witness:
  "create_encoder_decoder_model (\<lambda>a i. ()) (\<lambda>a i. ()) 2 8 nn_GRU 1 5 0 0 None 0
     = Inr example_gru_model
   \<and> model_agree False example_gru_model example_gru_model
   \<and> model_agree False example_gru_model
        (example_gru_model
            \<lparr>outputs := Some (zeros (4, 5, 2)),
             encoder := (encoder example_gru_model)\<lparr>hidden := Some (zeros (1, 4, 8))\<rparr>,
             decoder := (decoder example_gru_model)
               \<lparr>hidden := Some (zeros (1, 4, 8)), cell_state := Some (zeros (1, 4, 8))\<rparr>\<rparr>)
   \<and> map_sum id fst
        (EncoderDecoder_forward zero_torch
           (example_gru_model
            \<lparr>outputs := Some (zeros (4, 5, 2)),
             encoder := (encoder example_gru_model)\<lparr>hidden := Some (zeros (1, 4, 8))\<rparr>,
             decoder := (decoder example_gru_model)
               \<lparr>hidden := Some (zeros (1, 4, 8)), cell_state := Some (zeros (1, 4, 8))\<rparr>\<rparr>)
           () example_input)
      = Inr (zeros (4, 5, 2))"
proof -
  note mk = example_gru_model_created
  note th = forward_is_deterministic [OF mk, of example_gru_model _ zero_torch "()" example_input "()"]
  have refl: "model_agree False example_gru_model example_gru_model"
    by (rule plain_model_agree_refl [OF mk])
  from th [OF refl refl] example_gru_run
  have step: "model_agree False example_gru_model
        (example_gru_model
            \<lparr>outputs := Some (zeros (4, 5, 2)),
             encoder := (encoder example_gru_model)\<lparr>hidden := Some (zeros (1, 4, 8))\<rparr>,
             decoder := (decoder example_gru_model)
               \<lparr>hidden := Some (zeros (1, 4, 8)), cell_state := Some (zeros (1, 4, 8))\<rparr>\<rparr>)"
    by blast
  from th [OF refl step] example_gru_run
  show ?thesis
    using mk refl step by simp
qed

section \<open>Shapes\<close>

lemma one_less_mult:
  fixes N L :: nat
  assumes "1 < N" and "0 < L"
  shows "1 < N * L"
proof -
  from assms(2) have "1 \<le> L" by simp
  then have "N * 1 \<le> N * L" by (rule mult_le_mono2)
  then have "N \<le> N * L" by (simp only: mult_1_right)
  with assms(1) show ?thesis by (rule less_le_trans)
qed

lemma call_norm_ok:
  assumes nc: "norm_contract nn" and nf: "num_features md = H" "0 < H"
      and fits: "norm_fits H (norm_type md) (shape x)"
  shows "\<exists>y md'. call_norm nn (Some md) x = Inr (y, Some md') \<and> shape y = shape x
               \<and> norm_type md' = norm_type md \<and> num_features md' = H"
proof -
  obtain ty n w where md: "md = Norm ty n w" by (cases md)
  from nf md have n: "n = H" by simp
  show ?thesis
  proof (cases ty)
    case BatchNorm1d
    with fits md obtain N L where sh: "shape x = (N, nat H, L)" "1 < N * L"
      by (auto simp: norm_fits_def)
    with nc nf(2) obtain y w' where "BatchNorm1d_call nn H w x = Inr (y, w')" "shape y = shape x"
      unfolding norm_contract_def by blast
    then show ?thesis
      by (simp add: md BatchNorm1d n)
  next
    case LayerNorm
    with fits md obtain A B where sh: "shape x = (A, B, nat H)" "0 < A" "0 < B"
      by (auto simp: norm_fits_def)
    with nc nf(2) obtain y where "LayerNorm_call nn H w x = Inr y" "shape y = shape x"
      unfolding norm_contract_def by blast
    then show ?thesis
      by (simp add: md LayerNorm n)
  qed
qed

lemma normalize_blocks_ok:
  assumes nc: "norm_contract nn"
      and om: "out_normalization s = Some om" and hm: "hidden_normalization s = Some hm"
      and ty: "norm_type hm = norm_type om"
      and nf: "num_features om = H" "num_features hm = H" "0 < H"
      and ft: "norm_fits H (norm_type om) (shape t)"
      and ss: "state_shape sh s" and fs: "norm_fits H (norm_type om) sh"
  shows "\<exists>y s2 s3 s4.
           normalize_output nn s t = Inr (y, s2) \<and> normalize_hidden nn s2 = Inr s3
         \<and> normalize_cell_state nn s3 = Inr s4
         \<and> shape y = shape t \<and> state_shape sh s4
         \<and> is_BatchNorm1d (out_normalization s4) = (norm_type om = BatchNorm1d)"
proof -
  from call_norm_ok [OF nc nf(1) nf(3) ft] obtain y om' where
    c1: "call_norm nn (Some om) t = Inr (y, Some om')" and y: "shape y = shape t" and
    om': "norm_type om' = norm_type om" "num_features om' = H"
    by blast
  define s2 where "s2 = s\<lparr>out_normalization := Some om'\<rparr>"
  have st2: "normalize_output nn s t = Inr (y, s2)"
    by (simp add: normalize_output_def om c1 s2_def)
  from ss obtain h where h: "hidden s = Some h" "shape h = sh"
    and cs: "\<forall>c. cell_state s = Some c \<longrightarrow> shape c = sh"
    by (auto simp: state_shape_def)
  have fh: "norm_fits H (norm_type hm) (shape h)"
    using fs ty h by simp
  from call_norm_ok [OF nc nf(2) nf(3) fh] obtain h' hm' where
    c2: "call_norm nn (Some hm) h = Inr (h', Some hm')" and h': "shape h' = sh"
    using h by auto
  define s3 where "s3 = s2\<lparr>hidden := Some h', hidden_normalization := Some hm'\<rparr>"
  have st3: "normalize_hidden nn s2 = Inr s3"
    by (simp add: normalize_hidden_def s2_def h hm c2 s3_def)
  have "\<exists>s4. normalize_cell_state nn s3 = Inr s4 \<and> state_shape sh s4
             \<and> is_BatchNorm1d (out_normalization s4) = (norm_type om = BatchNorm1d)"
  proof (cases "cell_state s3 \<noteq> None \<and> cell_normalization s3 \<noteq> None")
    case False
    then have "normalize_cell_state nn s3 = Inr s3"
      by (auto simp: normalize_cell_state_def)
    moreover have "state_shape sh s3"
      using cs h' by (simp add: state_shape_def s3_def s2_def)
    moreover have "is_BatchNorm1d (out_normalization s3) = (norm_type om = BatchNorm1d)"
      by (simp add: s3_def s2_def om')
    ultimately show ?thesis by blast
  next
    case True
    then obtain c where c: "cell_state s = Some c"
      by (auto simp: s3_def s2_def)
    with cs have shc: "shape c = sh" by simp
    have fc: "norm_fits H (norm_type om') (shape c)"
      using fs om' shc by simp
    from call_norm_ok [OF nc om'(2) nf(3) fc] obtain c' om'' where
      c3: "call_norm nn (Some om') c = Inr (c', Some om'')" and c': "shape c' = sh" and
      om'': "norm_type om'' = norm_type om'"
      using shc by auto
    define s4 where "s4 = s3\<lparr>cell_state := Some c', out_normalization := Some om''\<rparr>"
    have "normalize_cell_state nn s3 = Inr s4"
      using True by (simp add: normalize_cell_state_def s3_def s2_def c c3 s4_def)
    moreover have "state_shape sh s4"
      using h' c' by (simp add: state_shape_def s4_def s3_def s2_def)
    moreover have "is_BatchNorm1d (out_normalization s4) = (norm_type om = BatchNorm1d)"
      by (simp add: s4_def om'' om')
    ultimately show ?thesis by blast
  qed
  with st2 st3 y show ?thesis by blast
qed

lemma state_shape_permute:
  assumes "state_shape sh s"
  shows "\<exists>s'. permute_states p0 p1 p2 s = Inr s'
             \<and> state_shape (size_at sh p0, size_at sh p1, size_at sh p2) s'
             \<and> out_normalization s' = out_normalization s
             \<and> hidden_normalization s' = hidden_normalization s
             \<and> cell_normalization s' = cell_normalization s"
  using assms by (auto simp: state_shape_def permute_states_def)

lemma apply_normalization_ok:
  assumes nc: "norm_contract nn" and ok: "stack_ok H s"
      and on: "out_normalization s \<noteq> None"
      and ss: "state_shape (1, N, nat H) s" and sh: "shape t = (N, L, nat H)"
      and pos: "0 < N" "0 < L"
      and bn: "is_BatchNorm1d (out_normalization s) \<longrightarrow> 1 < N"
  shows "\<exists>out s'. apply_normalization nn s t = Inr (out, s') \<and> shape out = (N, L, nat H)
               \<and> state_shape (1, N, nat H) s'"
proof -
  from on obtain om where om: "out_normalization s = Some om" by auto
  with ok obtain hm where hm: "hidden_normalization s = Some hm"
    and ty: "norm_type hm = norm_type om"
    and nf: "num_features om = H" "num_features hm = H" "0 < H"
    by (auto simp: stack_ok_def)
  show ?thesis
  proof (cases "norm_type om = BatchNorm1d")
    case True
    with bn om have N: "1 < N" by simp
    from state_shape_permute [OF ss, of 1 2 0] obtain s1 where
      p1: "permute_states 1 2 0 s = Inr s1" and ss1: "state_shape (N, nat H, 1) s1" and
      n1: "out_normalization s1 = Some om" "hidden_normalization s1 = Some hm"
      by (auto simp: om hm)
    have st1: "permute_in s t = Inr (permute 0 2 1 t, s1)"
      using True p1 by (simp add: permute_in_def om)
    have ft: "norm_fits H (norm_type om) (shape (permute 0 2 1 t))"
      using True one_less_mult [OF N pos(2)] by (simp add: norm_fits_def sh)
    have fs: "norm_fits H (norm_type om) (N, nat H, 1)"
      using True N by (simp add: norm_fits_def)
    from normalize_blocks_ok [OF nc n1 ty nf ft ss1 fs] obtain y s2 s3 s4 where
      st: "normalize_output nn s1 (permute 0 2 1 t) = Inr (y, s2)"
      "normalize_hidden nn s2 = Inr s3" "normalize_cell_state nn s3 = Inr s4" and
      y: "shape y = shape (permute 0 2 1 t)" and ss4: "state_shape (N, nat H, 1) s4" and
      b4: "is_BatchNorm1d (out_normalization s4)"
      using True by auto
    from state_shape_permute [OF ss4, of 2 0 1] obtain s5 where
      p5: "permute_states 2 0 1 s4 = Inr s5" and ss5: "state_shape (1, N, nat H) s5"
      by auto
    have st5: "permute_out s4 y = Inr (permute 0 2 1 y, s5)"
      using b4 p5 by (simp add: permute_out_def)
    have "apply_normalization nn s t = Inr (permute 0 2 1 y, s5)"
      using st1 st st5 by (simp add: apply_normalization_def)
    moreover have "shape (permute 0 2 1 y) = (N, L, nat H)"
      using y by (simp add: sh)
    ultimately show ?thesis
      using ss5 by blast
  next
    case False
    have st1: "permute_in s t = Inr (t, s)"
      using False by (simp add: permute_in_def om)
    have ft: "norm_fits H (norm_type om) (shape t)"
      using False pos by (simp add: norm_fits_def sh)
    have fs: "norm_fits H (norm_type om) (1, N, nat H)"
      using False pos by (simp add: norm_fits_def)
    from normalize_blocks_ok [OF nc om hm ty nf ft ss fs] obtain y s2 s3 s4 where
      st: "normalize_output nn s t = Inr (y, s2)"
      "normalize_hidden nn s2 = Inr s3" "normalize_cell_state nn s3 = Inr s4" and
      y: "shape y = shape t" and ss4: "state_shape (1, N, nat H) s4" and
      b4: "\<not> is_BatchNorm1d (out_normalization s4)"
      using False by auto
    have st5: "permute_out s4 y = Inr (y, s4)"
      using b4 by (simp add: permute_out_def)
    have "apply_normalization nn s t = Inr (y, s4)"
      using st1 st st5 by (simp add: apply_normalization_def)
    with y sh ss4 show ?thesis by auto
  qed
qed

lemma stack_ok_keeps:
  assumes "keeps_modules s s'" and "stack_ok H s"
  shows "stack_ok H s'"
proof -
  have a: "\<forall>m. out_normalization s' = Some m \<longrightarrow> num_features m = H"
    using assms
    by (cases "out_normalization s"; cases "out_normalization s'")
       (auto simp: keeps_modules_def stack_ok_def)
  have b: "\<forall>m. hidden_normalization s' = Some m \<longrightarrow> num_features m = H"
    using assms
    by (cases "hidden_normalization s"; cases "hidden_normalization s'")
       (auto simp: keeps_modules_def stack_ok_def)
  show ?thesis
    using assms a b by (simp add: keeps_modules_def stack_ok_def)
qed

lemma apply_dropout_ok:
  assumes dc: "dropout_contract nn" and i: "i < length (dropouts s)"
      and ss: "state_shape sh s"
  shows "\<exists>out s' r'. apply_dropout nn i s r t = Inr (out, s', r') \<and> shape out = shape t
                  \<and> state_shape sh s'"
proof -
  have keep: "shape (fst (Dropout_call nn d r x)) = shape x" for d r x
    using dc by (simp add: dropout_contract_def)
  from ss obtain h where h: "hidden s = Some h" "shape h = sh"
    and cs: "\<forall>c. cell_state s = Some c \<longrightarrow> shape c = sh"
    by (auto simp: state_shape_def)
  define d where "d = dropouts s ! i"
  obtain out ra where o: "Dropout_call nn d r t = (out, ra)" by (cases "Dropout_call nn d r t")
  obtain h' rb where hh: "Dropout_call nn d ra h = (h', rb)" by (cases "Dropout_call nn d ra h")
  have so: "shape out = shape t" using keep [of d r t] o by simp
  have sh': "shape h' = sh" using keep [of d ra h] hh h by simp
  show ?thesis
  proof (cases "cell_state s")
    case None
    then have "apply_dropout nn i s r t = Inr (out, s\<lparr>hidden := Some h'\<rparr>, rb)"
      using i by (simp add: apply_dropout_def Let_def d_def [symmetric] o h hh)
    moreover have "state_shape sh (s\<lparr>hidden := Some h'\<rparr>)"
      using None sh' by (simp add: state_shape_def)
    ultimately show ?thesis using so by blast
  next
    case (Some c)
    obtain c' rc where cc: "Dropout_call nn d rb c = (c', rc)"
      by (cases "Dropout_call nn d rb c")
    have sc': "shape c' = sh" using keep [of d rb c] cc cs Some by simp
    have "apply_dropout nn i s r t
        = Inr (out, s\<lparr>hidden := Some h', cell_state := Some c'\<rparr>, rc)"
      using i by (simp add: apply_dropout_def Let_def d_def [symmetric] o h hh Some cc)
    moreover have "state_shape sh (s\<lparr>hidden := Some h', cell_state := Some c'\<rparr>)"
      using sh' sc' by (simp add: state_shape_def)
    ultimately show ?thesis using so by blast
  qed
qed

lemma normalize_and_dropout_ok:
  assumes tc: "torch_contract nn" and ok: "stack_ok H s"
      and ss: "state_shape (1, N, nat H) s" and sh: "shape t = (N, L, nat H)"
      and pos: "0 < N" "0 < L"
      and bn: "is_BatchNorm1d (out_normalization s) \<longrightarrow> 1 < N"
      and i: "dropouts s = [] \<or> i < length (dropouts s)"
  shows "\<exists>out s' r'. normalize_and_dropout nn i s r t = Inr (out, s', r')
               \<and> shape out = (N, L, nat H) \<and> state_shape (1, N, nat H) s'"
proof -
  from tc have nc: "norm_contract nn" and dc: "dropout_contract nn"
    by (simp_all add: torch_contract_def)
  have "\<exists>t1 s1. (if out_normalization s \<noteq> None then apply_normalization nn s t
                  else Inr (t, s)) = Inr (t1, s1)
        \<and> shape t1 = (N, L, nat H) \<and> state_shape (1, N, nat H) s1
        \<and> keeps_states s s1"
  proof (cases "out_normalization s = None")
    case True
    then show ?thesis using ss sh by simp
  next
    case False
    from apply_normalization_ok [OF nc ok False ss sh pos bn] obtain t1 s1 where
      a: "apply_normalization nn s t = Inr (t1, s1)" "shape t1 = (N, L, nat H)"
      "state_shape (1, N, nat H) s1"
      by blast
    with apply_normalization_keeps [OF a(1)] False show ?thesis by simp
  qed
  then obtain t1 s1 where
    a: "(if out_normalization s \<noteq> None then apply_normalization nn s t else Inr (t, s))
          = Inr (t1, s1)" and
    t1: "shape t1 = (N, L, nat H)" and ss1: "state_shape (1, N, nat H) s1" and
    k: "keeps_states s s1"
    by blast
  have d1: "dropouts s1 = dropouts s"
    using k by (simp add: keeps_states_def keeps_modules_def)
  have "\<exists>out s' r'. (if length (dropouts s1) > 0 \<and> training s1
                      then apply_dropout nn i s1 r t1 else Inr (t1, s1, r)) = Inr (out, s', r')
        \<and> shape out = (N, L, nat H) \<and> state_shape (1, N, nat H) s'"
  proof (cases "length (dropouts s1) > 0 \<and> training s1")
    case True
    with i d1 have "i < length (dropouts s1)" by auto
    from apply_dropout_ok [OF dc this ss1, of r t1] True t1 show ?thesis by auto
  next
    case False
    then show ?thesis using t1 ss1 by auto
  qed
  then show ?thesis
    unfolding normalize_and_dropout_def using a by auto
qed

lemma GRU_call_ok:
  assumes "rnn_contract nn"
      and "0 < input_size m" "0 < hidden_size m" "0 < N" "0 < L"
      and "shape x = (N, L, nat (input_size m))"
      and "\<forall>h. h0 = Some h \<longrightarrow> shape h = (1, N, nat (hidden_size m))"
  shows "\<exists>out hn. GRU_call nn m x h0 = Inr (out, hn)
               \<and> shape out = (N, L, nat (hidden_size m))
               \<and> shape hn = (1, N, nat (hidden_size m))"
  by (rule assms(1) [unfolded rnn_contract_def, THEN conjunct1, rule_format, of m N L x h0])
     (intro conjI assms(2-7))

lemma LSTM_call_ok:
  assumes "rnn_contract nn"
      and "0 < input_size m" "0 < hidden_size m" "0 < N" "0 < L"
      and "shape x = (N, L, nat (input_size m))"
      and "st = None
            \<or> (\<exists>h c. st = Some (Some h, Some c) \<and> shape h = (1, N, nat (hidden_size m))
                     \<and> shape c = (1, N, nat (hidden_size m)))"
  shows "\<exists>out hn cn. LSTM_call nn m x st = Inr (out, hn, cn)
               \<and> shape out = (N, L, nat (hidden_size m))
               \<and> shape hn = (1, N, nat (hidden_size m))
               \<and> shape cn = (1, N, nat (hidden_size m))"
  by (rule assms(1) [unfolded rnn_contract_def, THEN conjunct2, rule_format, of m N L x st])
     (intro conjI assms(2-7))

lemma call_rnn_ok:
  assumes rc: "rnn_contract nn"
      and sz: "0 < input_size m" "hidden_size m = H" "0 < H"
      and sh: "shape x = (N, L, nat (input_size m))" and pos: "0 < N" "0 < L"
      and st: "st = None \<or> (st = Some (hidden s, cell_state s) \<and> state_shape (1, N, nat H) s
                 \<and> (rnn_type m = nn_LSTM \<longrightarrow> cell_state s \<noteq> None))"
      and cs: "\<forall>c. cell_state s = Some c \<longrightarrow> shape c = (1, N, nat H)"
  shows "\<exists>out s'. call_rnn nn m x st s = Inr (out, s') \<and> shape out = (N, L, nat H)
               \<and> state_shape (1, N, nat H) s'
               \<and> (rnn_type m = nn_LSTM \<longrightarrow> cell_state s' \<noteq> None)"
proof (cases "rnn_type m = nn_LSTM")
  case True
  have hs: "0 < hidden_size m" using sz by simp
  have "st = None \<or> (\<exists>h c. st = Some (Some h, Some c) \<and> shape h = (1, N, nat (hidden_size m))
                     \<and> shape c = (1, N, nat (hidden_size m)))"
  proof (cases "st = None")
    case True
    then show ?thesis by simp
  next
    case False
    with st have a: "st = Some (hidden s, cell_state s)" "state_shape (1, N, nat H) s"
      "cell_state s \<noteq> None"
      using True by simp_all
    from a(2) obtain h where h: "hidden s = Some h" "shape h = (1, N, nat H)"
      by (auto simp: state_shape_def)
    from a(3) obtain c where c: "cell_state s = Some c" by auto
    with cs have "shape c = (1, N, nat H)" by simp
    with a(1) h c sz(2) show ?thesis by simp
  qed
  from LSTM_call_ok [OF rc sz(1) hs pos sh this] obtain out hn cn where
    r: "LSTM_call nn m x st = Inr (out, hn, cn)" "shape out = (N, L, nat (hidden_size m))"
    "shape hn = (1, N, nat (hidden_size m))" "shape cn = (1, N, nat (hidden_size m))"
    by blast
  have "call_rnn nn m x st s = Inr (out, s\<lparr>hidden := Some hn, cell_state := Some cn\<rparr>)"
    using True r(1) by (simp add: call_rnn_def)
  moreover have "state_shape (1, N, nat H) (s\<lparr>hidden := Some hn, cell_state := Some cn\<rparr>)"
    using r(3,4) sz(2) by (simp add: state_shape_def)
  ultimately show ?thesis
    using r(2) sz(2) by auto
next
  case False
  have hs: "0 < hidden_size m" using sz by simp
  let ?h0 = "case st of None \<Rightarrow> None | Some (h, c) \<Rightarrow> h"
  have "\<forall>h. ?h0 = Some h \<longrightarrow> shape h = (1, N, nat (hidden_size m))"
  proof (cases "st = None")
    case True
    then show ?thesis by simp
  next
    case False
    with st have a: "st = Some (hidden s, cell_state s)" "state_shape (1, N, nat H) s"
      by simp_all
    from a(2) obtain h where h: "hidden s = Some h" "shape h = (1, N, nat H)"
      by (auto simp: state_shape_def)
    with a(1) sz(2) show ?thesis by simp
  qed
  from GRU_call_ok [OF rc sz(1) hs pos sh this] obtain out hn where
    r: "GRU_call nn m x ?h0 = Inr (out, hn)" "shape out = (N, L, nat (hidden_size m))"
    "shape hn = (1, N, nat (hidden_size m))"
    by blast
  have "call_rnn nn m x st s = Inr (out, s\<lparr>hidden := Some hn\<rparr>)"
    using False r(1) by (simp add: call_rnn_def)
  moreover have "state_shape (1, N, nat H) (s\<lparr>hidden := Some hn\<rparr>)"
    using r(3) sz(2) cs by (simp add: state_shape_def)
  ultimately show ?thesis
    using r(2) sz(2) False by auto
qed

lemma keeps_modules_BatchNorm1d:
  assumes "keeps_modules s s'"
  shows "is_BatchNorm1d (out_normalization s') = is_BatchNorm1d (out_normalization s)"
  using assms
  by (cases "out_normalization s"; cases "out_normalization s'") (auto simp: keeps_modules_def)

lemma rnn_layers_ok:
  assumes tc: "torch_contract nn"
      and rs: "\<forall>m\<in>set rs. input_size m = H \<and> hidden_size m = H \<and> rnn_type m = ty"
      and pos: "0 < N" "0 < L"
      and ok: "stack_ok H s"
      and ss: "state_shape (1, N, nat H) s"
      and lstm: "ty = nn_LSTM \<longrightarrow> cell_state s \<noteq> None"
      and sh: "shape t = (N, L, nat H)"
      and bn: "is_BatchNorm1d (out_normalization s) \<longrightarrow> 1 < N"
      and i: "dropouts s = [] \<or> i + length rs \<le> length (dropouts s)"
  shows "\<exists>out s' r'. rnn_layers nn i rs s r t = Inr (out, s', r')
               \<and> shape out = (N, L, nat H) \<and> state_shape (1, N, nat H) s'"
  using rs ok ss lstm sh bn i
proof (induction rs arbitrary: i s r t)
  case Nil
  then show ?case by simp
next
  case (Cons m rs)
  from tc have rc: "rnn_contract nn" by (simp add: torch_contract_def)
  from Cons.prems(2) have H: "0 < H" by (simp add: stack_ok_def)
  from Cons.prems(1) have m: "input_size m = H" "hidden_size m = H" "rnn_type m = ty"
    and rest: "\<forall>m\<in>set rs. input_size m = H \<and> hidden_size m = H \<and> rnn_type m = ty"
    by simp_all
  note ss = Cons.prems(3)
  have cs: "\<forall>c. cell_state s = Some c \<longrightarrow> shape c = (1, N, nat H)"
    using ss by (simp add: state_shape_def)
  have st: "Some (hidden s, cell_state s) = None
      \<or> (Some (hidden s, cell_state s) = Some (hidden s, cell_state s)
          \<and> state_shape (1, N, nat H) s \<and> (rnn_type m = nn_LSTM \<longrightarrow> cell_state s \<noteq> None))"
    using ss Cons.prems(4) m by simp
  have x: "shape t = (N, L, nat (input_size m))" "0 < input_size m"
    using Cons.prems(5) m H by simp_all
  from call_rnn_ok [OF rc x(2) m(2) H x(1) pos st cs] obtain t1 s1 where
    c: "call_rnn nn m t (Some (hidden s, cell_state s)) s = Inr (t1, s1)" and
    t1: "shape t1 = (N, L, nat H)" and ss1: "state_shape (1, N, nat H) s1" and
    l1: "rnn_type m = nn_LSTM \<longrightarrow> cell_state s1 \<noteq> None"
    by blast
  have k1: "keeps_modules s s1" using call_rnn_keeps [OF c] by simp
  have ok1: "stack_ok H s1" by (rule stack_ok_keeps [OF k1 Cons.prems(2)])
  have bn1: "is_BatchNorm1d (out_normalization s1) \<longrightarrow> 1 < N"
    using keeps_modules_BatchNorm1d [OF k1] Cons.prems(6) by simp
  have d1: "dropouts s1 = dropouts s" using k1 by (simp add: keeps_modules_def)
  have i1: "dropouts s1 = [] \<or> i < length (dropouts s1)"
    using Cons.prems(7) d1 by auto
  from normalize_and_dropout_ok [OF tc ok1 ss1 t1 pos bn1 i1, of r] obtain t2 s2 r2 where
    n: "normalize_and_dropout nn i s1 r t1 = Inr (t2, s2, r2)" and
    t2: "shape t2 = (N, L, nat H)" and ss2: "state_shape (1, N, nat H) s2"
    by blast
  have k2: "keeps_states s1 s2" by (rule normalize_and_dropout_keeps [OF n])
  then have km2: "keeps_modules s1 s2" by (simp add: keeps_states_def)
  have ok2: "stack_ok H s2" by (rule stack_ok_keeps [OF km2 ok1])
  have bn2: "is_BatchNorm1d (out_normalization s2) \<longrightarrow> 1 < N"
    using keeps_modules_BatchNorm1d [OF km2] bn1 by simp
  have l2: "ty = nn_LSTM \<longrightarrow> cell_state s2 \<noteq> None"
    using l1 m k2 by (simp add: keeps_states_def)
  have d2: "dropouts s2 = dropouts s" using km2 d1 by (simp add: keeps_modules_def)
  have i2: "dropouts s2 = [] \<or> Suc i + length rs \<le> length (dropouts s2)"
    using Cons.prems(7) d2 by auto
  from Cons.IH [OF rest ok2 ss2 l2 t2 bn2 i2, of r2] obtain out s' r' where
    "rnn_layers nn (Suc i) rs s2 r2 t2 = Inr (out, s', r')"
    "shape out = (N, L, nat H)" "state_shape (1, N, nat H) s'"
    by blast
  then show ?case
    using c n by auto
qed

lemma Encoder_forward_ok:
  assumes tc: "torch_contract nn" and ok: "stack_ok H e"
      and basic: "input_size (basic_rnn e) = F" "0 < F" "hidden_size (basic_rnn e) = H"
      and c0: "cell_state e = None"
      and sh: "shape X = (N, L, nat F)" and pos: "0 < N" "0 < L"
      and bn: "is_BatchNorm1d (out_normalization e) \<longrightarrow> 1 < N"
  shows "\<exists>hs c e' r'. Encoder_forward nn e r X = Inr ((hs, c), e', r')
           \<and> shape hs = (N, L, nat H) \<and> (\<forall>x. c = Some x \<longrightarrow> shape x = (1, N, nat H))
           \<and> (rnn_type (basic_rnn e) = nn_LSTM \<longrightarrow> c \<noteq> None)"
proof -
  from tc have rc: "rnn_contract nn" by (simp add: torch_contract_def)
  from ok have H: "0 < H" by (simp add: stack_ok_def)
  have x: "shape X = (N, L, nat (input_size (basic_rnn e)))" "0 < input_size (basic_rnn e)"
    using sh basic by simp_all
  have st: "None = None \<or> (None = Some (hidden e, cell_state e)
      \<and> state_shape (1, N, nat H) e
      \<and> (rnn_type (basic_rnn e) = nn_LSTM \<longrightarrow> cell_state e \<noteq> None))"
    by simp
  have cs: "\<forall>c. cell_state e = Some c \<longrightarrow> shape c = (1, N, nat H)"
    using c0 by simp
  from call_rnn_ok [OF rc x(2) basic(3) H x(1) pos st cs] obtain t1 s1 where
    c: "call_rnn nn (basic_rnn e) X None e = Inr (t1, s1)" and
    t1: "shape t1 = (N, L, nat H)" and ss1: "state_shape (1, N, nat H) s1" and
    l1: "rnn_type (basic_rnn e) = nn_LSTM \<longrightarrow> cell_state s1 \<noteq> None"
    by blast
  have k1: "keeps_modules e s1" using call_rnn_keeps [OF c] by simp
  have ok1: "stack_ok H s1" by (rule stack_ok_keeps [OF k1 ok])
  have bn1: "is_BatchNorm1d (out_normalization s1) \<longrightarrow> 1 < N"
    using keeps_modules_BatchNorm1d [OF k1] bn by simp
  have d1: "dropouts s1 = dropouts e" "rnns s1 = rnns e" "basic_rnn s1 = basic_rnn e"
    using k1 by (simp_all add: keeps_modules_def)
  have dl: "dropouts e = [] \<or> length (dropouts e) = Suc (length (rnns e))"
    using ok by (simp add: stack_ok_def)
  have i1: "dropouts s1 = [] \<or> 0 < length (dropouts s1)"
    using dl d1 by auto
  from normalize_and_dropout_ok [OF tc ok1 ss1 t1 pos bn1 i1, of r] obtain t2 s2 r2 where
    n: "normalize_and_dropout nn 0 s1 r t1 = Inr (t2, s2, r2)" and
    t2: "shape t2 = (N, L, nat H)" and ss2: "state_shape (1, N, nat H) s2"
    by blast
  have k2: "keeps_states s1 s2" by (rule normalize_and_dropout_keeps [OF n])
  then have km2: "keeps_modules s1 s2" by (simp add: keeps_states_def)
  have ok2: "stack_ok H s2" by (rule stack_ok_keeps [OF km2 ok1])
  have bn2: "is_BatchNorm1d (out_normalization s2) \<longrightarrow> 1 < N"
    using keeps_modules_BatchNorm1d [OF km2] bn1 by simp
  have d2: "dropouts s2 = dropouts e" "rnns s2 = rnns e" "basic_rnn s2 = basic_rnn e"
    using km2 d1 by (simp_all add: keeps_modules_def)
  have l2: "rnn_type (basic_rnn e) = nn_LSTM \<longrightarrow> cell_state s2 \<noteq> None"
    using l1 k2 by (simp add: keeps_states_def)
  have rs: "\<forall>m\<in>set (rnns s2). input_size m = H \<and> hidden_size m = H
              \<and> rnn_type m = rnn_type (basic_rnn e)"
    using ok d2 by (simp add: stack_ok_def)
  have i2: "dropouts s2 = [] \<or> 1 + length (rnns s2) \<le> length (dropouts s2)"
    using dl d2 by auto
  from rnn_layers_ok [OF tc rs pos ok2 ss2 l2 t2 bn2 i2, of r2] obtain out e' r' where
    l: "rnn_layers nn 1 (rnns s2) s2 r2 t2 = Inr (out, e', r')" and
    out: "shape out = (N, L, nat H)" and ss': "state_shape (1, N, nat H) e'"
    by blast
  have "Encoder_forward nn e r X = Inr ((out, cell_state e'), e', r')"
    using c n l by (simp add: Encoder_forward_def)
  moreover have "rnn_type (basic_rnn e) = nn_LSTM \<longrightarrow> cell_state e' \<noteq> None"
    using rnn_layers_keeps [OF l] l2 by simp
  ultimately show ?thesis
    using out ss' by (auto simp: state_shape_def)
qed

lemma Linear_call_ok:
  assumes "linear_contract nn"
      and "0 < in_features m" "0 < out_features m" "shape x = (A, B, nat (in_features m))"
  shows "\<exists>y. Linear_call nn m x = Inr y \<and> shape y = (A, B, nat (out_features m))"
  by (rule assms(1) [unfolded linear_contract_def, rule_format])
     (intro conjI assms(2-4))

lemma MultiheadAttention_call_ok:
  assumes "attn_contract nn"
      and "0 < embed_dim m" "0 < num_heads m" "embed_dim m mod num_heads m = 0"
      and "0 < N" "0 < L" "0 < S"
      and "shape q = (N, L, nat (embed_dim m))" "shape k = (N, S, nat (embed_dim m))"
      and "shape v = (N, S, nat (embed_dim m))"
  shows "\<exists>out wts. MultiheadAttention_call nn m q k v = Inr (out, wts)
               \<and> shape out = (N, L, nat (embed_dim m))"
  by (rule assms(1) [unfolded attn_contract_def, rule_format, where S = S])
     (intro conjI assms(2-10))

lemma init_hidden_ok:
  assumes lc: "linear_contract nn"
      and sh: "shape hs = (N, L, nat H)" and pos: "0 < L" "0 < H"
      and at: "attn d \<noteq> None \<longrightarrow>
                 (\<exists>lk lv. linear_keys d = Some lk \<and> linear_values d = Some lv
                    \<and> in_features lk = H \<and> out_features lk = H
                    \<and> in_features lv = H \<and> out_features lv = H)"
      and cs: "\<forall>x. c = Some x \<longrightarrow> shape x = (1, N, nat H)"
  shows "\<exists>ak av h c'.
           init_hidden nn d hs c
             = Inr (d\<lparr>attn_keys := ak, attn_values := av, hidden := Some h,
                      cell_state := Some c'\<rparr>)
         \<and> shape h = (1, N, nat H) \<and> shape c' = (1, N, nat H)
         \<and> (attn d \<noteq> None \<longrightarrow>
               (\<exists>k v. ak = Some k \<and> av = Some v \<and> shape k = (N, L, nat H)
                  \<and> shape v = (N, L, nat H)))"
proof -
  let ?h = "permute 1 0 2 (slice1 (Some (- 1)) None hs)"
  let ?c = "case c of None \<Rightarrow> zeros (shape ?h) | Some x \<Rightarrow> x"
  have h: "shape ?h = (1, N, nat H)"
    unfolding last_timestep [OF sh pos(1)] by simp
  have c: "shape ?c = (1, N, nat H)"
    using cs h by (cases c) simp_all
  show ?thesis
  proof (cases "attn d = None")
    case True
    have "init_hidden nn d hs c
        = Inr (d\<lparr>attn_keys := attn_keys d, attn_values := attn_values d, hidden := Some ?h,
                 cell_state := Some ?c\<rparr>)"
      unfolding init_hidden_no_attn [OF True] by simp
    with h c True show ?thesis by blast
  next
    case False
    with at obtain lk lv where
      l: "linear_keys d = Some lk" "linear_values d = Some lv"
      "in_features lk = H" "out_features lk = H" "in_features lv = H" "out_features lv = H"
      by blast
    have a: "0 < in_features lk" "0 < out_features lk" "shape hs = (N, L, nat (in_features lk))"
      "0 < in_features lv" "0 < out_features lv" "shape hs = (N, L, nat (in_features lv))"
      using l pos sh by simp_all
    from Linear_call_ok [OF lc a(1-3)] obtain k where
      k: "Linear_call nn lk hs = Inr k" "shape k = (N, L, nat H)"
      using l by auto
    from Linear_call_ok [OF lc a(4-6)] obtain v where
      v: "Linear_call nn lv hs = Inr v" "shape v = (N, L, nat H)"
      using l by auto
    have i: "init_attn_key_values nn d hs = Inr (d\<lparr>attn_keys := Some k, attn_values := Some v\<rparr>)"
      by (simp add: init_attn_key_values_def l k v)
    have "init_hidden nn d hs c
        = Inr (d\<lparr>attn_keys := Some k, attn_values := Some v, hidden := Some ?h,
                 cell_state := Some ?c\<rparr>)"
      using False by (cases c) (simp_all add: init_hidden_def i Let_def)
    with h c k(2) v(2) show ?thesis by blast
  qed
qed

lemma torch_cat_ok:
  assumes "shape x = (N, L, A)" and "shape y = (N, L, B)"
  shows "\<exists>z. torch_cat x y = Inr z \<and> shape z = (N, L, A + B)"
  using assms by (simp add: torch_cat_def)

lemma Decoder_forward_ok:
  assumes tc: "torch_contract nn" and ok: "stack_ok H d"
      and basic: "input_size (basic_rnn d) = F" "0 < F" "hidden_size (basic_rnn d) = H"
      and ss: "state_shape (1, N, nat H) d" and cn: "cell_state d \<noteq> None"
      and sh: "shape X = (N, L, nat F)" and pos: "0 < N" "0 < L"
      and bn: "is_BatchNorm1d (out_normalization d) \<longrightarrow> 1 < N"
      and reg: "out_features (regression d) = F"
      and at: "case attn d of
                 None \<Rightarrow> in_features (regression d) = H
               | Some a \<Rightarrow> embed_dim a = H \<and> 0 < num_heads a \<and> H mod num_heads a = 0
                   \<and> in_features (regression d) = H * 2
                   \<and> (\<exists>k v. attn_keys d = Some k \<and> attn_values d = Some v
                         \<and> shape k = (N, L, nat H) \<and> shape v = (N, L, nat H))"
  shows "\<exists>out d' r'. Decoder_forward nn d r X = Inr (out, d', r')
           \<and> shape out = (N, L, nat F)"
proof -
  from tc have rc: "rnn_contract nn" and lc: "linear_contract nn" and ac: "attn_contract nn"
    by (simp_all add: torch_contract_def)
  from ok have H: "0 < H" by (simp add: stack_ok_def)
  have x: "shape X = (N, L, nat (input_size (basic_rnn d)))" "0 < input_size (basic_rnn d)"
    using sh basic by simp_all
  have st: "Some (hidden d, cell_state d) = None
      \<or> (Some (hidden d, cell_state d) = Some (hidden d, cell_state d)
      \<and> state_shape (1, N, nat H) d
      \<and> (rnn_type (basic_rnn d) = nn_LSTM \<longrightarrow> cell_state d \<noteq> None))"
    using ss cn by simp
  have cs: "\<forall>c. cell_state d = Some c \<longrightarrow> shape c = (1, N, nat H)"
    using ss by (simp add: state_shape_def)
  from call_rnn_ok [OF rc x(2) basic(3) H x(1) pos st cs] obtain t1 s1 where
    c: "call_rnn nn (basic_rnn d) X (Some (hidden d, cell_state d)) d = Inr (t1, s1)" and
    t1: "shape t1 = (N, L, nat H)" and ss1: "state_shape (1, N, nat H) s1"
    by blast
  have k1: "keeps_modules d s1" and c1: "cell_state s1 \<noteq> None"
    using call_rnn_keeps [OF c] cn by (auto split: if_splits)
  have ok1: "stack_ok H s1" by (rule stack_ok_keeps [OF k1 ok])
  have bn1: "is_BatchNorm1d (out_normalization s1) \<longrightarrow> 1 < N"
    using keeps_modules_BatchNorm1d [OF k1] bn by simp
  have d1: "dropouts s1 = dropouts d" "rnns s1 = rnns d" "basic_rnn s1 = basic_rnn d"
    using k1 by (simp_all add: keeps_modules_def)
  have dl: "dropouts d = [] \<or> length (dropouts d) = Suc (length (rnns d))"
    using ok by (simp add: stack_ok_def)
  have i1: "dropouts s1 = [] \<or> 0 < length (dropouts s1)"
    using dl d1 by auto
  from normalize_and_dropout_ok [OF tc ok1 ss1 t1 pos bn1 i1, of r] obtain t2 s2 r2 where
    n: "normalize_and_dropout nn 0 s1 r t1 = Inr (t2, s2, r2)" and
    t2: "shape t2 = (N, L, nat H)" and ss2: "state_shape (1, N, nat H) s2"
    by blast
  have k2: "keeps_states s1 s2" by (rule normalize_and_dropout_keeps [OF n])
  then have km2: "keeps_modules s1 s2" by (simp add: keeps_states_def)
  have ok2: "stack_ok H s2" by (rule stack_ok_keeps [OF km2 ok1])
  have bn2: "is_BatchNorm1d (out_normalization s2) \<longrightarrow> 1 < N"
    using keeps_modules_BatchNorm1d [OF km2] bn1 by simp
  have d2: "dropouts s2 = dropouts d" "rnns s2 = rnns d" "basic_rnn s2 = basic_rnn d"
    using km2 d1 by (simp_all add: keeps_modules_def)
  have l2: "rnn_type (basic_rnn d) = nn_LSTM \<longrightarrow> cell_state s2 \<noteq> None"
    using c1 k2 by (simp add: keeps_states_def)
  have rs: "\<forall>m\<in>set (rnns s2). input_size m = H \<and> hidden_size m = H
              \<and> rnn_type m = rnn_type (basic_rnn d)"
    using ok d2 by (simp add: stack_ok_def)
  have i2: "dropouts s2 = [] \<or> 1 + length (rnns s2) \<le> length (dropouts s2)"
    using dl d2 by auto
  from rnn_layers_ok [OF tc rs pos ok2 ss2 l2 t2 bn2 i2, of r2] obtain t3 d' r' where
    l: "rnn_layers nn 1 (rnns s2) s2 r2 t2 = Inr (t3, d', r')" and
    t3: "shape t3 = (N, L, nat H)"
    by blast
  have k3: "keeps_modules s2 d'" using rnn_layers_keeps [OF l] by simp
  have "keeps_modules d d'"
    using k1 km2 k3 by (blast intro: keeps_modules_trans)
  then have more: "Encoder.more d' = Encoder.more d"
    by (simp add: keeps_modules_def)
  note eq = more_eq_Decoder [OF more]
  have "\<exists>t4. (case attn d' of
        None \<Rightarrow> Inr t3
      | Some a \<Rightarrow>
          (case (attn_keys d', attn_values d') of
             (Some k, Some v) \<Rightarrow>
               and_then (MultiheadAttention_call nn a t3 k v)
                 (\<lambda>(attn_output, attn_output_weights). torch_cat attn_output t3)
           | _ \<Rightarrow> Inl TypeError)) = Inr t4
      \<and> shape t4 = (N, L, nat (in_features (regression d')))"
  proof (cases "attn d")
    case None
    with at eq t3 show ?thesis by simp
  next
    case (Some a)
    with at obtain k v where
      a: "embed_dim a = H" "0 < num_heads a" "H mod num_heads a = 0"
      "in_features (regression d) = H * 2" and
      kv: "attn_keys d = Some k" "attn_values d = Some v"
      "shape k = (N, L, nat H)" "shape v = (N, L, nat H)"
      by auto
    have b: "0 < embed_dim a" "embed_dim a mod num_heads a = 0"
      "shape t3 = (N, L, nat (embed_dim a))" "shape k = (N, L, nat (embed_dim a))"
      "shape v = (N, L, nat (embed_dim a))"
      using a H t3 kv by simp_all
    from MultiheadAttention_call_ok [OF ac b(1) a(2) b(2) pos pos(2) b(3-5)]
    obtain ao wts where
      m: "MultiheadAttention_call nn a t3 k v = Inr (ao, wts)" "shape ao = (N, L, nat H)"
      using a by auto
    from torch_cat_ok [OF m(2) t3] obtain z where
      z: "torch_cat ao t3 = Inr z" "shape z = (N, L, nat H + nat H)"
      by blast
    have "nat H + nat H = nat (H * 2)" using H by simp
    with z m(1) Some kv a(4) show ?thesis
      by (simp add: eq)
  qed
  then obtain t4 where
    t4: "(case attn d' of
        None \<Rightarrow> Inr t3
      | Some a \<Rightarrow>
          (case (attn_keys d', attn_values d') of
             (Some k, Some v) \<Rightarrow>
               and_then (MultiheadAttention_call nn a t3 k v)
                 (\<lambda>(attn_output, attn_output_weights). torch_cat attn_output t3)
           | _ \<Rightarrow> Inl TypeError)) = Inr t4" and
    s4: "shape t4 = (N, L, nat (in_features (regression d')))"
    by blast
  have rg: "0 < in_features (regression d')" "0 < out_features (regression d')"
    using at reg basic(2) H eq by (auto split: option.splits)
  from Linear_call_ok [OF lc rg s4] obtain out where
    out: "Linear_call nn (regression d') t4 = Inr out" "shape out = (N, L, nat F)"
    using reg eq by auto
  have "Decoder_forward nn d r X = Inr (out, d', r')"
    using c n l t4 out(1) by (simp add: Decoder_forward_def)
  with out(2) show ?thesis by blast
qed

lemma EncoderDecoder_forward_I:
  assumes "torch_zeros (int (fst (shape X))) (target_len m) (n_features (encoder m)) = Inr z"
      and "Encoder_forward nn (encoder m) r (slice1 None (Some (input_len m)) X)
             = Inr ((hs, c), enc, r1)"
      and "init_hidden nn (decoder m) hs c = Inr d0"
      and "Decoder_forward nn d0 r1 (slice1 None (Some (input_len m)) X) = Inr (out, dec, r')"
  shows "EncoderDecoder_forward nn m r X
       = Inr (out, m\<lparr>outputs := Some z, encoder := enc, decoder := dec\<rparr>, r')"
  using assms by (simp add: EncoderDecoder_forward_def init_outputs_def Let_def)

lemma Encoder_init_stack_ok:
  assumes "0 < H"
  shows "stack_ok H ((Encoder_init ie F H k n p nz)\<lparr>training := t\<rparr>)"
proof -
  have "nat n = Suc (nat (n - 1))" if "1 < n"
    using that by simp
  then show ?thesis
    using assms by (auto simp: stack_ok_def Encoder_init_def new_norm_def)
qed

lemma Decoder_init_stack_ok:
  assumes "0 < H"
  shows "stack_ok H
     ((Decoder_init idc F H k n p nz heads)
        \<lparr>training := t, attn_keys := ak, attn_values := av, hidden := h, cell_state := c\<rparr>)"
proof -
  have "nat n = Suc (nat (n - 1))" if "1 < n"
    using that by simp
  then show ?thesis
    using assms by (auto simp: stack_ok_def Decoder_init_def new_norm_def)
qed

lemma source_window_shape:
  assumes "shape X = (B, nat (2 * L), F)" and "0 < L"
  shows "shape (slice1 None (Some L) X) = (B, nat L, F)"
  using assms by (simp add: slice1_def slice_index_def min_def)

lemma new_norm_BatchNorm1d:
  "is_BatchNorm1d (new_norm init name nz H) \<longleftrightarrow> nz = Some ''BatchNormalization''"
  by (simp add: new_norm_def)

lemma rnn_contract_zero_torch: "rnn_contract zero_torch"
  unfolding rnn_contract_def
proof (intro conjI allI impI)
  fix m :: "unit rnn_module" and x :: "int tensor" and h0 :: "int tensor option" and N L
  assume "0 < input_size m \<and> 0 < hidden_size m \<and> 0 < N \<and> 0 < L
        \<and> shape x = (N, L, nat (input_size m))
        \<and> (\<forall>h. h0 = Some h \<longrightarrow> shape h = (1, N, nat (hidden_size m)))"
  then show "\<exists>out hn. GRU_call zero_torch m x h0 = Inr (out, hn)
               \<and> shape out = (N, L, nat (hidden_size m))
               \<and> shape hn = (1, N, nat (hidden_size m))"
    by (cases h0) (simp_all add: zero_torch_def zeros_def)
next
  fix m :: "unit rnn_module" and x :: "int tensor"
    and st :: "(int tensor option \<times> int tensor option) option" and N L
  assume a: "0 < input_size m \<and> 0 < hidden_size m \<and> 0 < N \<and> 0 < L
        \<and> shape x = (N, L, nat (input_size m))
        \<and> (st = None
            \<or> (\<exists>h c. st = Some (Some h, Some c) \<and> shape h = (1, N, nat (hidden_size m))
                     \<and> shape c = (1, N, nat (hidden_size m))))"
  then consider "st = None"
    | h c where "st = Some (Some h, Some c)" "shape h = (1, N, nat (hidden_size m))"
                "shape c = (1, N, nat (hidden_size m))"
    by blast
  then show "\<exists>out hn cn. LSTM_call zero_torch m x st = Inr (out, hn, cn)
               \<and> shape out = (N, L, nat (hidden_size m))
               \<and> shape hn = (1, N, nat (hidden_size m))
               \<and> shape cn = (1, N, nat (hidden_size m))"
  proof cases
    case 1
    with a show ?thesis by (simp add: zero_torch_def zeros_def)
  next
    case 2
    with a show ?thesis by (simp add: zero_torch_def zeros_def)
  qed
qed

lemma norm_contract_zero_torch: "norm_contract zero_torch"
  unfolding norm_contract_def by (simp add: zero_torch_def)

lemma dropout_contract_zero_torch: "dropout_contract zero_torch"
  unfolding dropout_contract_def by (simp add: zero_torch_def)

lemma linear_contract_zero_torch: "linear_contract zero_torch"
  unfolding linear_contract_def by (simp add: zero_torch_def zeros_def)

lemma attn_contract_zero_torch: "attn_contract zero_torch"
  unfolding attn_contract_def by (simp add: zero_torch_def zeros_def)

lemma torch_contract_zero_torch: "torch_contract zero_torch"
  unfolding torch_contract_def
  by (intro conjI rnn_contract_zero_torch norm_contract_zero_torch dropout_contract_zero_torch
        linear_contract_zero_torch attn_contract_zero_torch)

lemma Decoder_init_attn:
  assumes "\<not> (0 < heads \<and> H mod heads \<noteq> 0)"
  shows "attn (Decoder_init idc F H k n p nz heads) \<noteq> None \<longrightarrow>
           (\<exists>lk lv. linear_keys (Decoder_init idc F H k n p nz heads) = Some lk
              \<and> linear_values (Decoder_init idc F H k n p nz heads) = Some lv
              \<and> in_features lk = H \<and> out_features lk = H
              \<and> in_features lv = H \<and> out_features lv = H)"
    and "attn (Decoder_init idc F H k n p nz heads) = None
           \<Longrightarrow> in_features (regression (Decoder_init idc F H k n p nz heads)) = H"
    and "attn (Decoder_init idc F H k n p nz heads) = Some a
           \<Longrightarrow> embed_dim a = H \<and> 0 < num_heads a \<and> H mod num_heads a = 0
             \<and> in_features (regression (Decoder_init idc F H k n p nz heads)) = H * 2"
    and "out_features (regression (Decoder_init idc F H k n p nz heads)) = F"
    and "input_size (basic_rnn (Decoder_init idc F H k n p nz heads)) = F"
    and "hidden_size (basic_rnn (Decoder_init idc F H k n p nz heads)) = H"
    and "is_BatchNorm1d (out_normalization (Decoder_init idc F H k n p nz heads))
           \<longleftrightarrow> nz = Some ''BatchNormalization''"
  using assms by (auto simp: Decoder_init_def new_norm_def split: if_splits)

lemma Encoder_init_sizes:
  "input_size (basic_rnn (Encoder_init ie F H k n p nz)) = F"
  "hidden_size (basic_rnn (Encoder_init ie F H k n p nz)) = H"
  "n_features (Encoder_init ie F H k n p nz) = F"
  "is_BatchNorm1d (out_normalization (Encoder_init ie F H k n p nz))
     \<longleftrightarrow> nz = Some ''BatchNormalization''"
  by (simp_all add: Encoder_init_def new_norm_def)

section \<open>The shape of the output\<close>

text \<open>
  C1. Let a model be built by \<^verbatim>\<open>create_encoder_decoder_model\<close> with \<open>F\<close> features,
  \<open>H\<close> hidden dimensions and windows of \<open>L\<close> steps (\<open>F\<close>, \<open>H\<close>, \<open>L\<close> positive), in
  training or in evaluation mode, over a framework whose layers return tensors of the
  documented shapes on arguments of the documented shapes. On every input of shape
  (B, 2L, F) with a non-empty batch (and more than one sequence in it under batch
  normalization) the forward pass returns, and its output has the shape (B, L, F).
\<close>

theorem forward_output_shape:
  assumes mk: "create_encoder_decoder_model ie idc F H k n L tf p nz heads = Inr m"
      and tc: "torch_contract nn"
      and pos: "0 < F" "0 < H" "0 < L" "0 < B"
      and bn: "nz = Some ''BatchNormalization'' \<longrightarrow> 1 < B"
      and sh: "shape X = (B, nat (2 * L), nat F)"
  shows "\<exists>out m' r'.
           EncoderDecoder_forward nn
             (m\<lparr>encoder := (encoder m)\<lparr>training := t1\<rparr>,
                decoder := (decoder m)\<lparr>training := t2\<rparr>\<rparr>) r X = Inr (out, m', r')
         \<and> shape out = (B, nat L, nat F)"
proof -
  let ?E = "Encoder_init ie F H k n p nz :: ('a, 'b) Encoder"
  let ?D = "Decoder_init idc F H k n p nz heads :: ('a, 'b) Decoder"
  let ?e = "?E\<lparr>training := t1\<rparr>"
  let ?d = "?D\<lparr>training := t2\<rparr>"
  let ?m = "m\<lparr>encoder := ?e, decoder := ?d\<rparr>"
  let ?S = "slice1 None (Some L) X"
  note cm = created_model [OF mk]
  from tc have lc: "linear_contract nn" by (simp add: torch_contract_def)
  have L: "0 < nat L" using pos(3) by simp
  have src: "shape ?S = (B, nat L, nat F)"
    by (rule source_window_shape [OF sh pos(3)])
  have z: "torch_zeros (int (fst (shape X))) (target_len ?m) (n_features (encoder ?m))
             = Inr (zeros (B, nat L, nat F))"
    using pos by (simp add: torch_zeros_def sh cm(4) Encoder_init_sizes)
  have e1: "input_size (basic_rnn ?e) = F" "hidden_size (basic_rnn ?e) = H"
           "cell_state ?e = None"
    by (simp_all add: Encoder_init_sizes Encoder_init_rnns)
  have e2: "is_BatchNorm1d (out_normalization ?e) \<longrightarrow> 1 < B"
    using bn by (simp add: Encoder_init_sizes)
  have "\<exists>hs c e' r'. Encoder_forward nn ?e r ?S = Inr ((hs, c), e', r')
           \<and> shape hs = (B, nat L, nat H) \<and> (\<forall>x. c = Some x \<longrightarrow> shape x = (1, B, nat H))
           \<and> (rnn_type (basic_rnn ?e) = nn_LSTM \<longrightarrow> c \<noteq> None)"
    by (rule Encoder_forward_ok [OF tc Encoder_init_stack_ok [OF pos(2)] e1(1) pos(1) e1(2)
          e1(3) src pos(4) L e2])
  then obtain hs c e' r1 where
    ef: "Encoder_forward nn ?e r ?S = Inr ((hs, c), e', r1)" and
    hs: "shape hs = (B, nat L, nat H)" and
    cs: "\<forall>x. c = Some x \<longrightarrow> shape x = (1, B, nat H)"
    by blast
  have at: "attn ?d \<noteq> None \<longrightarrow>
                 (\<exists>lk lv. linear_keys ?d = Some lk \<and> linear_values ?d = Some lv
                    \<and> in_features lk = H \<and> out_features lk = H
                    \<and> in_features lv = H \<and> out_features lv = H)"
    using Decoder_init_attn(1) [OF cm(7), of idc F k n p nz] by simp
  from init_hidden_ok [OF lc hs L pos(2) at cs]
  obtain ak av h c' where
    ih: "init_hidden nn ?d hs c
           = Inr (?d\<lparr>attn_keys := ak, attn_values := av, hidden := Some h,
                     cell_state := Some c'\<rparr>)" and
    h: "shape h = (1, B, nat H)" and c': "shape c' = (1, B, nat H)" and
    kv: "attn ?d \<noteq> None \<longrightarrow>
               (\<exists>k v. ak = Some k \<and> av = Some v \<and> shape k = (B, nat L, nat H)
                  \<and> shape v = (B, nat L, nat H))"
    by blast
  let ?d0 = "?D\<lparr>training := t2, attn_keys := ak, attn_values := av, hidden := Some h,
                cell_state := Some c'\<rparr>"
  have d1: "input_size (basic_rnn ?d0) = F" "hidden_size (basic_rnn ?d0) = H"
           "cell_state ?d0 \<noteq> None" "out_features (regression ?d0) = F"
    by (simp_all add: Decoder_init_attn(4-6) [OF cm(7)])
  have d2: "is_BatchNorm1d (out_normalization ?d0) \<longrightarrow> 1 < B"
    using bn by (simp add: Decoder_init_attn(7) [OF cm(7)])
  have ss: "state_shape (1, B, nat H) ?d0"
    using h c' by (simp add: state_shape_def)
  have d3: "case attn ?d0 of
                 None \<Rightarrow> in_features (regression ?d0) = H
               | Some a \<Rightarrow> embed_dim a = H \<and> 0 < num_heads a \<and> H mod num_heads a = 0
                   \<and> in_features (regression ?d0) = H * 2
                   \<and> (\<exists>k v. attn_keys ?d0 = Some k \<and> attn_values ?d0 = Some v
                         \<and> shape k = (B, nat L, nat H) \<and> shape v = (B, nat L, nat H))"
  proof (cases "attn ?D")
    case None
    with Decoder_init_attn(2) [OF cm(7), of idc F k n p nz] show ?thesis by simp
  next
    case (Some a)
    with Decoder_init_attn(3) [OF cm(7), of idc F k n p nz a] kv show ?thesis by simp
  qed
  have "\<exists>out d' r'. Decoder_forward nn ?d0 r1 ?S = Inr (out, d', r')
           \<and> shape out = (B, nat L, nat F)"
    by (rule Decoder_forward_ok [OF tc Decoder_init_stack_ok [OF pos(2)] d1(1) pos(1) d1(2) ss
          d1(3) src pos(4) L d2 d1(4) d3])
  then obtain out d' r' where
    df: "Decoder_forward nn ?d0 r1 ?S = Inr (out, d', r')" and
    out: "shape out = (B, nat L, nat F)"
    by blast
  have "EncoderDecoder_forward nn ?m r X
      = Inr (out, ?m\<lparr>outputs := Some (zeros (B, nat L, nat F)), encoder := e', decoder := d'\<rparr>, r')"
  proof (rule EncoderDecoder_forward_I [OF z])
    show "Encoder_forward nn (encoder ?m) r (slice1 None (Some (input_len ?m)) X)
            = Inr ((hs, c), e', r1)"
      using ef by (simp add: cm(3))
    show "init_hidden nn (decoder ?m) hs c = Inr ?d0"
      using ih by simp
    show "Decoder_forward nn ?d0 r1 (slice1 None (Some (input_len ?m)) X) = Inr (out, d', r')"
      using df by (simp add: cm(3))
  qed
  with out show ?thesis
    unfolding cm(1,2) by blast
qed

theorem forward_output_shape_witness:
  "\<exists>out m' r'.
     EncoderDecoder_forward zero_torch
       (example_gru_model\<lparr>encoder := (encoder example_gru_model)\<lparr>training := False\<rparr>,
          decoder := (decoder example_gru_model)\<lparr>training := False\<rparr>\<rparr>) () example_input
       = Inr (out, m', r')
   \<and> shape out = (4, 5, 2)"
proof -
  have sh: "shape example_input = (4, nat (2 * 5), nat 2)"
    by (simp add: example_input_def)
  have bn: "(None :: string option) = Some ''BatchNormalization'' \<longrightarrow> 1 < (4 :: nat)"
    by simp
  from forward_output_shape [OF example_gru_model_created torch_contract_zero_torch _ _ _ _ bn sh,
      of False False "()"]
  show ?thesis by simp
qed

end
